(* ===== verification/Prelude.thy ===== *)
theory Prelude
  imports Main "HOL-Library.Word"
begin

text \<open>
  Shared vocabulary of the development.

  \<^item> Go values: \<open>byte\<close>, \<open>u16\<close>, \<open>u32\<close> are machine words; a byte slice is a list of
    bytes; a Go string is a \<open>string\<close> (its bytes are the characters' codes).
  \<^item> Go errors are the values of \<open>err\<close>: \<open>errors.New\<close> is \<open>ErrNew\<close>, \<open>fmt.Errorf\<close> with
    a wrapped cause is \<open>Wrapped\<close>, and \<open>io.EOF\<close> and \<open>io.ErrUnexpectedEOF\<close> are
    constructors of their own.
  \<^item> A call ends in a value of \<open>res\<close>: it returns (\<open>Ret\<close>), returns an error
    (\<open>Fail\<close>), or panics (\<open>Panic\<close>, with the run-time's message).
    Calls that change state are actions \<open>'s \<Rightarrow> 'a res \<times> 's\<close>: what was written before
    an error or a panic stays written, as in Go.
  \<^item> \<open>binary.Read\<close> and \<open>binary.Write\<close> in little-endian order, and the entropy source
    \<open>crypto/rand\<close>.
  \<^item> The interface \<open>codec\<close>: a fixed-width wire format.
\<close>

unbundle bit_operations_syntax

type_synonym byte = "8 word"
type_synonym u16 = "16 word"
type_synonym u32 = "32 word"
type_synonym bytes = "byte list"

named_theorems res_simps \<open>evaluation of result and action combinators\<close>
named_theorems wire_simps \<open>evaluation of readers and writers\<close>
named_theorems keep_intros \<open>introduction rules for actions that keep a predicate\<close>

subsection \<open>Errors and results\<close>

datatype err = EOF | UnexpectedEOF | ErrNew string | Wrapped string err

datatype 'a res = Ret 'a | Fail err | Panic string

fun bindR :: "'a res \<Rightarrow> ('a \<Rightarrow> 'b res) \<Rightarrow> 'b res" where
  "bindR (Ret x) f = f x"
| "bindR (Fail e) f = Fail e"
| "bindR (Panic p) f = Panic p"

text \<open>\<open>fmt.Errorf("msg: %w", err)\<close> around the error of a call.\<close>

fun wrapR :: "string \<Rightarrow> 'a res \<Rightarrow> 'a res" where
  "wrapR m (Fail e) = Fail (Wrapped m e)"
| "wrapR m r = r"

lemma bindR_Ret_right [simp]: "bindR r Ret = r"
  by (cases r) auto

lemma bindR_assoc [res_simps]: "bindR (bindR r f) g = bindR r (\<lambda>x. bindR (f x) g)"
  by (cases r) auto

lemma bindR_eq_Ret: "bindR r f = Ret y \<longleftrightarrow> (\<exists>x. r = Ret x \<and> f x = Ret y)"
  by (cases r) auto

lemma bindR_eq_Panic: "bindR r f = Panic p \<longleftrightarrow> r = Panic p \<or> (\<exists>x. r = Ret x \<and> f x = Panic p)"
  by (cases r) auto

lemma bindR_eq_Fail: "bindR r f = Fail e \<longleftrightarrow> r = Fail e \<or> (\<exists>x. r = Ret x \<and> f x = Fail e)"
  by (cases r) auto

lemma wrapR_eq_Ret [simp]: "wrapR m r = Ret x \<longleftrightarrow> r = Ret x"
  by (cases r) auto

lemma wrapR_eq_Panic [simp]: "wrapR m r = Panic p \<longleftrightarrow> r = Panic p"
  by (cases r) auto

lemma wrapR_eq_Fail: "wrapR m r = Fail e \<longleftrightarrow> (\<exists>e'. r = Fail e' \<and> e = Wrapped m e')"
  by (cases r) auto

lemmas bindR_conv = bindR_eq_Ret bindR_eq_Fail bindR_eq_Panic

subsection \<open>Actions: state passing with errors and panics\<close>

type_synonym ('s, 'a) act = "'s \<Rightarrow> 'a res \<times> 's"

definition retA :: "'a \<Rightarrow> ('s, 'a) act" where
  "retA x s = (Ret x, s)"

definition failA :: "err \<Rightarrow> ('s, 'a) act" where
  "failA e s = (Fail e, s)"

definition panicA :: "string \<Rightarrow> ('s, 'a) act" where
  "panicA p s = (Panic p, s)"

definition liftA :: "'a res \<Rightarrow> ('s, 'a) act" where
  "liftA r s = (r, s)"

definition getA :: "('s \<Rightarrow> 'a) \<Rightarrow> ('s, 'a) act" where
  "getA f s = (Ret (f s), s)"

definition modifyA :: "('s \<Rightarrow> 's) \<Rightarrow> ('s, unit) act" where
  "modifyA f s = (Ret (), f s)"

definition bindA :: "('s, 'a) act \<Rightarrow> ('a \<Rightarrow> ('s, 'b) act) \<Rightarrow> ('s, 'b) act" where
  "bindA m f s = (case m s of
      (Ret x, s') \<Rightarrow> f x s'
    | (Fail e, s') \<Rightarrow> (Fail e, s')
    | (Panic p, s') \<Rightarrow> (Panic p, s'))"

text \<open>The two-valued return \<open>v, ok := m[k]\<close> followed by \<open>if !ok { return err }\<close>.\<close>

definition someA :: "err \<Rightarrow> 'a option \<Rightarrow> ('s, 'a) act" where
  "someA e x = (case x of None \<Rightarrow> failA e | Some y \<Rightarrow> retA y)"

lemmas act_defs = retA_def failA_def panicA_def liftA_def getA_def modifyA_def

lemma bindA_simps [simp, res_simps]:
  "bindA (retA x) f = f x"
  "bindA (failA e) f = failA e"
  "bindA (panicA p) f = panicA p"
  "bindA (liftA (Ret x)) f = f x"
  "bindA (liftA (Fail e)) f = failA e"
  "bindA (liftA (Panic p)) f = panicA p"
  "bindA (getA g) h s = h (g s) s"
  "bindA (modifyA k) n s = n () (k s)"
  by (auto simp: bindA_def act_defs fun_eq_iff)

lemma someA_simps [simp, res_simps]:
  "someA e (Some y) = retA y"
  "someA e None = failA e"
  by (auto simp: someA_def)

lemma bindA_assoc: "bindA (bindA m f) g = bindA m (\<lambda>x. bindA (f x) g)"
  by (auto simp: bindA_def fun_eq_iff split: prod.splits res.splits)

lemma bindA_Ret: "m s = (Ret x, s') \<Longrightarrow> bindA m f s = f x s'"
  by (simp add: bindA_def)

lemma bindA_Fail: "m s = (Fail e, s') \<Longrightarrow> bindA m f s = (Fail e, s')"
  by (simp add: bindA_def)

lemma bindA_Panic: "m s = (Panic p, s') \<Longrightarrow> bindA m f s = (Panic p, s')"
  by (simp add: bindA_def)

lemma bindA_eq_Ret:
  "bindA m f s = (Ret y, s') \<longleftrightarrow> (\<exists>x s1. m s = (Ret x, s1) \<and> f x s1 = (Ret y, s'))"
  by (auto simp: bindA_def split: prod.splits res.splits)

lemma bindA_eq_Panic:
  "bindA m f s = (Panic p, s') \<longleftrightarrow>
     m s = (Panic p, s') \<or> (\<exists>x s1. m s = (Ret x, s1) \<and> f x s1 = (Panic p, s'))"
  by (auto simp: bindA_def split: prod.splits res.splits)

lemma bindA_cases [consumes 1, case_names ok stop]:
  assumes "bindA m f s = (r, s')"
  obtains x s1 where "m s = (Ret x, s1)" "f x s1 = (r, s')"
  | r0 where "m s = (r0, s')" "\<And>x. r0 \<noteq> Ret x" "\<And>y. r \<noteq> Ret y"
  using assms by (cases "m s"; cases "fst (m s)") (auto simp: bindA_def)

text \<open>Loops over a list: \<open>for _, x := range xs { if err := f(x); err != nil { return err } }\<close>, collecting or not.\<close>

fun forA :: "('a \<Rightarrow> ('s, unit) act) \<Rightarrow> 'a list \<Rightarrow> ('s, unit) act" where
  "forA f [] = retA ()"
| "forA f (x # xs) = bindA (f x) (\<lambda>_. forA f xs)"

fun mapA :: "('a \<Rightarrow> ('s, 'b) act) \<Rightarrow> 'a list \<Rightarrow> ('s, 'b list) act" where
  "mapA f [] = retA []"
| "mapA f (x # xs) = bindA (f x) (\<lambda>y. bindA (mapA f xs) (\<lambda>ys. retA (y # ys)))"

fun mapR :: "('a \<Rightarrow> 'b res) \<Rightarrow> 'a list \<Rightarrow> 'b list res" where
  "mapR f [] = Ret []"
| "mapR f (x # xs) = bindR (f x) (\<lambda>y. bindR (mapR f xs) (\<lambda>ys. Ret (y # ys)))"

text \<open>A call whose error is logged or dropped.\<close>

definition ignoreA :: "('s, 'a) act \<Rightarrow> ('s, unit) act" where
  "ignoreA m s = (case m s of (Panic p, s') \<Rightarrow> (Panic p, s') | (_, s') \<Rightarrow> (Ret (), s'))"

lemma ignoreA_simps:
  "m s = (Ret x, s') \<Longrightarrow> ignoreA m s = (Ret (), s')"
  "m s = (Fail e, s') \<Longrightarrow> ignoreA m s = (Ret (), s')"
  by (simp_all add: ignoreA_def)

lemma mapR_eq_Ret: "mapR f xs = Ret ys \<longleftrightarrow> list_all2 (\<lambda>x y. f x = Ret y) xs ys"
  by (induction xs arbitrary: ys) (auto simp: bindR_eq_Ret list_all2_Cons1)

text \<open>An action keeps a predicate, whatever its result.\<close>

definition keeps :: "('s \<Rightarrow> bool) \<Rightarrow> ('s, 'a) act \<Rightarrow> bool" where
  "keeps I m \<longleftrightarrow> (\<forall>s. I s \<longrightarrow> I (snd (m s)))"

lemma keepsI: "(\<And>s. I s \<Longrightarrow> I (snd (m s))) \<Longrightarrow> keeps I m"
  by (simp add: keeps_def)

lemma keepsD: "keeps I m \<Longrightarrow> I s \<Longrightarrow> m s = (r, s') \<Longrightarrow> I s'"
  by (metis keeps_def snd_conv)

lemma keeps_pure [keep_intros, simp]:
  "keeps I (retA x)" "keeps I (failA e)" "keeps I (panicA p)" "keeps I (liftA r)" "keeps I (getA g)"
  by (auto simp: keeps_def act_defs)

lemma keeps_someA [keep_intros, simp]: "keeps I (someA e x)"
  by (cases x) auto

lemma keeps_bindA [keep_intros]:
  "keeps I m \<Longrightarrow> (\<And>x. keeps I (f x)) \<Longrightarrow> keeps I (bindA m f)"
  by (fastforce simp: keeps_def bindA_def split: prod.splits res.splits)

lemma keeps_modifyA [keep_intros]: "(\<And>s. I s \<Longrightarrow> I (f s)) \<Longrightarrow> keeps I (modifyA f)"
  by (simp add: keeps_def modifyA_def)

lemma keeps_if [keep_intros]: "keeps I m \<Longrightarrow> keeps I m' \<Longrightarrow> keeps I (if b then m else m')"
  by simp

text \<open>An action returns or returns an error, but does not panic.\<close>

definition no_panic :: "'a res \<times> 's \<Rightarrow> bool" where
  "no_panic rs \<longleftrightarrow> (\<forall>p. fst rs \<noteq> Panic p)"

lemma no_panic_simps [simp]:
  "no_panic (retA x s)" "no_panic (failA e s)" "\<not> no_panic (panicA p s)"
  "no_panic (Ret x, s)" "no_panic (Fail e, s)" "\<not> no_panic (Panic p, s)"
  by (auto simp: no_panic_def act_defs)

lemma no_panic_bindA:
  "no_panic (m s) \<Longrightarrow> (\<And>x s'. m s = (Ret x, s') \<Longrightarrow> no_panic (f x s')) \<Longrightarrow> no_panic (bindA m f s)"
  by (auto simp: no_panic_def bindA_def split: prod.splits res.splits)

lemma keeps_forA [keep_intros]: "(\<And>x. keeps I (f x)) \<Longrightarrow> keeps I (forA f xs)"
  by (induction xs) (auto intro: keep_intros)

lemma keeps_mapA [keep_intros]: "(\<And>x. keeps I (f x)) \<Longrightarrow> keeps I (mapA f xs)"
  by (induction xs) (auto intro!: keep_intros)

subsection \<open>Text\<close>

text \<open>What the verb \<open>%d\<close> prints for a natural number.\<close>

function fmt_d :: "nat \<Rightarrow> string" where
  "fmt_d n = (if n < 10 then [char_of (48 + n)] else fmt_d (n div 10) @ [char_of (48 + n mod 10)])"
  by pat_completeness auto
termination by (relation "measure id") auto

declare fmt_d.simps [simp del]

text \<open>\<open>err.Error()\<close>\<close>

fun err_string :: "err \<Rightarrow> string" where
  "err_string EOF = ''EOF''"
| "err_string UnexpectedEOF = ''unexpected EOF''"
| "err_string (ErrNew m) = m"
| "err_string (Wrapped m e) = m @ '': '' @ err_string e"

end
