(* ===== verification/Wire.thy ===== *)
theory Wire
  imports Prelude
begin

text \<open>
  The parts of Go's standard library that every wire format of the virtual BMC uses:
  \<open>encoding/binary\<close> in little-endian order over an \<open>io.Reader\<close> (\<open>readFull\<close>,
  \<open>rd_u8\<close>, \<open>rd_u16\<close>, \<open>rd_u32\<close>, \<open>rd_bytes\<close> and the writers \<open>le16\<close>, \<open>le32\<close>), the
  conversions between strings and byte slices, \<open>encoding/hex\<close>, and \<open>crypto/rand\<close>.

  The interface \<open>codec\<close> is the contract of a fixed-width format: an encoder and a decoder
  that undo each other and leave the rest of the input alone. It is interpreted here for
  the integer types and in the protocol theories for their headers.
\<close>

lemma unat_byte_lt: "unat (b :: byte) < 256"
  using unsigned_less [of b, where 'a = nat] by simp

subsection \<open>Little-endian integers\<close>

fun put_le :: "nat \<Rightarrow> 'a::len word \<Rightarrow> bytes" where
  "put_le 0 w = []"
| "put_le (Suc n) w = ucast w # put_le n (drop_bit 8 w)"

fun get_le :: "bytes \<Rightarrow> 'a::len word" where
  "get_le [] = 0"
| "get_le (b # bs) = ucast b OR push_bit 8 (get_le bs)"

lemma length_put_le [simp]: "length (put_le n w) = n"
  by (induction n arbitrary: w) auto

lemma get_put_le: "get_le (put_le n (w :: 'a::len word)) = take_bit (8 * n) w"
proof (induction n arbitrary: w)
  case (Suc n)
  show ?case
    by (rule bit_word_eqI)
      (use Suc in \<open>auto simp: bit_or_iff bit_push_bit_iff bit_take_bit_iff bit_drop_bit_eq bit_ucast_iff
          simp del: push_bit_numeral\<close>)
qed simp

lemma bit_get_le_lt: "bit (get_le bs :: 'a::len word) n \<Longrightarrow> n < 8 * length bs"
proof (induction bs arbitrary: n)
  case (Cons b bs)
  from Cons.prems consider "bit b n" | "8 \<le> n" "bit (get_le bs :: 'a word) (n - 8)"
    by (auto simp: bit_or_iff bit_push_bit_iff bit_ucast_iff)
  then show ?case
  proof cases
    case 1
    then show ?thesis using bit_imp_le_length [of b n] by simp
  next
    case 2
    then show ?thesis using Cons.IH [of "n - 8"] by simp
  qed
qed simp

lemma drop_bit_get_le:
  assumes "8 * Suc (length bs) \<le> LENGTH('a::len)"
  shows "drop_bit 8 (get_le (b # bs) :: 'a word) = get_le bs"
  by (rule bit_word_eqI)
    (use assms in \<open>auto simp: bit_or_iff bit_push_bit_iff bit_drop_bit_eq bit_ucast_iff
        dest: bit_imp_le_length bit_get_le_lt\<close>)

lemma ucast_get_le:
  assumes "8 \<le> LENGTH('a::len)"
  shows "(ucast (get_le (b # bs) :: 'a word) :: byte) = b"
  by (rule bit_word_eqI)
    (use assms in \<open>auto simp: bit_or_iff bit_push_bit_iff bit_drop_bit_eq bit_ucast_iff
        dest: bit_imp_le_length bit_get_le_lt\<close>)

lemma put_get_le:
  "8 * length bs \<le> LENGTH('a::len) \<Longrightarrow> put_le (length bs) (get_le bs :: 'a word) = bs"
proof (induction bs)
  case (Cons b bs)
  then have "put_le (length bs) (get_le bs :: 'a word) = bs" by simp
  moreover have "drop_bit 8 (get_le (b # bs) :: 'a word) = get_le bs"
    using Cons.prems by (intro drop_bit_get_le) simp
  moreover have "(ucast (get_le (b # bs) :: 'a word) :: byte) = b"
    using Cons.prems by (intro ucast_get_le) simp
  ultimately show ?case by (simp only: list.size put_le.simps add_0_right add_Suc_right)
qed simp

definition le16 :: "u16 \<Rightarrow> bytes" where
  "le16 w = put_le 2 w"

definition le32 :: "u32 \<Rightarrow> bytes" where
  "le32 w = put_le 4 w"

definition of_le16 :: "bytes \<Rightarrow> u16" where
  "of_le16 bs = get_le bs"

definition of_le32 :: "bytes \<Rightarrow> u32" where
  "of_le32 bs = get_le bs"

lemma le_length [simp, wire_simps]: "length (le16 w) = 2" "length (le32 v) = 4"
  by (simp_all add: le16_def le32_def)

lemma le_inverse [simp, wire_simps]: "of_le16 (le16 w) = w" "of_le32 (le32 v) = v"
  by (simp_all add: of_le16_def of_le32_def le16_def le32_def get_put_le take_bit_word_eq_self)

lemma of_le_inverse:
  "length bs = 2 \<Longrightarrow> le16 (of_le16 bs) = bs"
  "length cs = 4 \<Longrightarrow> le32 (of_le32 cs) = cs"
  using put_get_le [where 'a = 16, of bs] put_get_le [where 'a = 32, of cs]
  by (simp_all add: of_le16_def of_le32_def le16_def le32_def)

lemma le_neq_Nil [simp]: "le16 w \<noteq> []" "le32 v \<noteq> []"
  using le_length(1) [of w] le_length(2) [of v] by (metis list.size(3) zero_neq_numeral)+

lemma le_zero [simp]: "le16 0 = [0, 0]" "le32 0 = [0, 0, 0, 0]"
  by (simp_all add: le16_def le32_def numeral_eq_Suc)

subsection \<open>Readers\<close>

text \<open>\<open>io.ReadFull\<close> on a buffer: the bytes read and the bytes that are left.\<close>

definition readFull :: "nat \<Rightarrow> bytes \<Rightarrow> (bytes \<times> bytes) res" where
  "readFull n bs =
     (if n \<le> length bs then Ret (take n bs, drop n bs)
      else if bs = [] then Fail EOF else Fail UnexpectedEOF)"

definition rd_u8 :: "bytes \<Rightarrow> (byte \<times> bytes) res" where
  "rd_u8 bs = bindR (readFull 1 bs) (\<lambda>(b, r). Ret (hd b, r))"

definition rd_u16 :: "bytes \<Rightarrow> (u16 \<times> bytes) res" where
  "rd_u16 bs = bindR (readFull 2 bs) (\<lambda>(b, r). Ret (of_le16 b, r))"

definition rd_u32 :: "bytes \<Rightarrow> (u32 \<times> bytes) res" where
  "rd_u32 bs = bindR (readFull 4 bs) (\<lambda>(b, r). Ret (of_le32 b, r))"

definition slice :: "nat \<Rightarrow> nat \<Rightarrow> 'a list \<Rightarrow> 'a list" where
  "slice i n bs = take n (drop i bs)"

lemma readFull_append [simp, wire_simps]: "length a = n \<Longrightarrow> readFull n (a @ r) = Ret (a, r)"
  by (simp add: readFull_def)

lemma readFull_exact [simp, wire_simps]: "length a = n \<Longrightarrow> readFull n a = Ret (a, [])"
  by (simp add: readFull_def)

lemma readFull_eq_Ret:
  "readFull n bs = Ret (a, r) \<longleftrightarrow> length a = n \<and> bs = a @ r"
  by (auto simp: readFull_def)

lemma readFull_short: "length bs < n \<Longrightarrow> readFull n bs = Fail (if bs = [] then EOF else UnexpectedEOF)"
  by (simp add: readFull_def)

lemma readFull_Ret: "n \<le> length bs \<Longrightarrow> readFull n bs = Ret (take n bs, drop n bs)"
  by (simp add: readFull_def)

lemma readFull_not_Panic [simp]: "readFull n bs \<noteq> Panic p"
  by (simp add: readFull_def)

lemma rd_int_append [simp, wire_simps]:
  "rd_u8 (b # r) = Ret (b, r)"
  "rd_u16 (le16 w @ r) = Ret (w, r)"
  "rd_u32 (le32 v @ r) = Ret (v, r)"
  by (simp_all add: rd_u8_def rd_u16_def rd_u32_def) (simp add: readFull_def)

lemma rd_u8_Nil [simp, wire_simps]: "rd_u8 [] = Fail EOF"
  by (simp add: rd_u8_def readFull_def)

lemma rd_int_not_Panic [simp]: "rd_u8 bs \<noteq> Panic p" "rd_u16 bs \<noteq> Panic p" "rd_u32 bs \<noteq> Panic p"
  by (auto simp: rd_u8_def rd_u16_def rd_u32_def bindR_eq_Panic)

lemma rd_u8_eq_Ret: "rd_u8 bs = Ret (b, r) \<longleftrightarrow> bs = b # r"
  by (cases bs) auto

lemma rd_u16_eq_Ret: "rd_u16 bs = Ret (w, r) \<longleftrightarrow> bs = le16 w @ r"
  by (auto simp: rd_u16_def bindR_eq_Ret readFull_eq_Ret of_le_inverse)

lemma rd_u32_eq_Ret: "rd_u32 bs = Ret (w, r) \<longleftrightarrow> bs = le32 w @ r"
  by (auto simp: rd_u32_def bindR_eq_Ret readFull_eq_Ret of_le_inverse)

subsection \<open>The interface of a fixed-width format\<close>

locale codec =
  fixes width :: nat
    and valid :: "'a \<Rightarrow> bool"
    and enc :: "'a \<Rightarrow> bytes"
    and dec :: "bytes \<Rightarrow> ('a \<times> bytes) res"
  assumes width_pos: "0 < width"
    and enc_length: "valid x \<Longrightarrow> length (enc x) = width"
    and dec_enc: "valid x \<Longrightarrow> dec (enc x @ rest) = Ret (x, rest)"
    and dec_sound: "dec bs = Ret (x, rest) \<Longrightarrow> valid x \<and> bs = enc x @ rest"
    and dec_total: "width \<le> length bs \<Longrightarrow> \<exists>x rest. dec bs = Ret (x, rest)"
    and dec_no_panic: "dec bs \<noteq> Panic p"
begin

lemma dec_iff: "dec bs = Ret (x, rest) \<longleftrightarrow> valid x \<and> bs = enc x @ rest"
  using dec_enc dec_sound by blast

lemma enc_inject: "valid x \<Longrightarrow> valid y \<Longrightarrow> enc x = enc y \<Longrightarrow> x = y"
  using dec_enc [of x "[]"] dec_enc [of y "[]"] by simp

lemma dec_rest: "dec bs = Ret (x, rest) \<Longrightarrow> rest = drop width bs \<and> enc x = take width bs"
  using dec_sound [of bs x rest] enc_length [of x] by auto

lemma dec_short: "length bs < width \<Longrightarrow> \<exists>e. dec bs = Fail e"
proof (cases "dec bs")
  case (Ret p)
  moreover assume "length bs < width"
  ultimately show ?thesis
    using dec_sound [of bs "fst p" "snd p"] enc_length [of "fst p"] by auto
qed (use dec_no_panic in auto)

text \<open>Only the first \<open>width\<close> bytes of the input matter for the value read.\<close>

lemma dec_prefix:
  assumes "width \<le> length bs" "take width cs = take width bs"
  shows "\<exists>x. dec bs = Ret (x, drop width bs) \<and> dec cs = Ret (x, drop width cs)"
proof -
  obtain x rest where d: "dec bs = Ret (x, rest)"
    using dec_total [OF assms(1)] by blast
  have "rest = drop width bs" "enc x = take width bs" using dec_rest [OF d] by auto
  moreover have "valid x" using dec_sound [OF d] by blast
  moreover have "cs = enc x @ drop width cs"
    using assms(2) \<open>enc x = take width bs\<close> by (metis append_take_drop_id)
  ultimately show ?thesis using d dec_enc by metis
qed

end

interpretation u8: codec 1 "\<lambda>_. True" "\<lambda>b. [b]" rd_u8
proof (unfold_locales, goal_cases)
  case (5 bs)
  then show ?case by (cases bs) auto
qed (auto simp: rd_u8_eq_Ret)

interpretation u16: codec 2 "\<lambda>_. True" le16 rd_u16
proof (unfold_locales, goal_cases)
  case (5 bs)
  then show ?case by (auto simp: rd_u16_def bindR_eq_Ret readFull_Ret)
qed (auto simp: rd_u16_eq_Ret)

interpretation u32: codec 4 "\<lambda>_. True" le32 rd_u32
proof (unfold_locales, goal_cases)
  case (5 bs)
  then show ?case by (auto simp: rd_u32_def bindR_eq_Ret readFull_Ret)
qed (auto simp: rd_u32_eq_Ret)

subsection \<open>Strings and byte slices, hexadecimal text\<close>

definition byte_of_char :: "char \<Rightarrow> byte" where
  "byte_of_char c = of_nat (of_char c)"

definition char_of_byte :: "byte \<Rightarrow> char" where
  "char_of_byte b = char_of (unat b)"

text \<open>\<open>[]byte(s)\<close> and \<open>string(b)\<close>.\<close>

definition bytes_of_string :: "string \<Rightarrow> bytes" where
  "bytes_of_string = map byte_of_char"

definition string_of_bytes :: "bytes \<Rightarrow> string" where
  "string_of_bytes = map char_of_byte"

lemma char_byte_inverse [simp]: "char_of_byte (byte_of_char c) = c" "byte_of_char (char_of_byte b) = b"
proof -
  have "(of_char c :: nat) < 256" by (simp add: nat_of_char_less_256)
  then show "char_of_byte (byte_of_char c) = c"
    by (simp add: byte_of_char_def char_of_byte_def unat_of_nat)
  have "unat b < 256" by (rule unat_byte_lt)
  then show "byte_of_char (char_of_byte b) = b"
    by (simp add: byte_of_char_def char_of_byte_def)
qed

lemma string_bytes_inverse [simp]:
  "string_of_bytes (bytes_of_string s) = s" "bytes_of_string (string_of_bytes b) = b"
  by (simp_all add: string_of_bytes_def bytes_of_string_def comp_def)

lemma length_string_bytes [simp]:
  "length (bytes_of_string s) = length s" "length (string_of_bytes b) = length b"
  by (simp_all add: bytes_of_string_def string_of_bytes_def)

lemma string_of_bytes_inject [simp]: "string_of_bytes a = string_of_bytes b \<longleftrightarrow> a = b"
  by (metis string_bytes_inverse(2))

definition hex_digit :: "nat \<Rightarrow> char" where
  "hex_digit n = ''0123456789abcdef'' ! n"

definition hex_byte :: "byte \<Rightarrow> string" where
  "hex_byte b = [hex_digit (unat b div 16), hex_digit (unat b mod 16)]"

text \<open>\<open>hex.EncodeToString\<close>, also what the verbs \<open>%x\<close> and \<open>%02x\<close> print for bytes.\<close>

definition hex_string :: "bytes \<Rightarrow> string" where
  "hex_string bs = concat (map hex_byte bs)"

lemma length_hex_string [simp]: "length (hex_string bs) = 2 * length bs"
  by (induction bs) (auto simp: hex_string_def hex_byte_def)

lemma hex_byte_chars: "set (hex_byte b) \<subseteq> set ''0123456789abcdef''"
proof -
  have "unat b div 16 < 16" "unat b mod 16 < 16" using unat_byte_lt [of b] by simp_all
  then have "hex_digit (unat b div 16) \<in> set ''0123456789abcdef''" "hex_digit (unat b mod 16) \<in> set ''0123456789abcdef''"
    unfolding hex_digit_def by (intro nth_mem; simp)+
  then show ?thesis by (simp only: hex_byte_def set_simps insert_subset empty_subsetI simp_thms)
qed

lemma hex_string_chars: "set (hex_string bs) \<subseteq> set ''0123456789abcdef''"
  using hex_byte_chars unfolding hex_string_def set_concat set_map by blast

lemma hex_digit_inject: "m < 16 \<Longrightarrow> n < 16 \<Longrightarrow> hex_digit m = hex_digit n \<longleftrightarrow> m = n"
proof -
  have "distinct ''0123456789abcdef''" by simp
  then show "m < 16 \<Longrightarrow> n < 16 \<Longrightarrow> hex_digit m = hex_digit n \<longleftrightarrow> m = n"
    unfolding hex_digit_def by (subst nth_eq_iff_index_eq) auto
qed

lemma hex_byte_inject [simp]: "hex_byte a = hex_byte b \<longleftrightarrow> a = b"
proof
  assume h: "hex_byte a = hex_byte b"
  have lt: "unat a div 16 < 16" "unat b div 16 < 16"
    using unat_byte_lt [of a] unat_byte_lt [of b] by auto
  from h have "unat a div 16 = unat b div 16" "unat a mod 16 = unat b mod 16"
    using hex_digit_inject lt by (auto simp: hex_byte_def)
  then have "unat a = unat b" by (metis mult_div_mod_eq)
  then show "a = b" by (rule unsigned_word_eqI)
qed simp

lemma hex_string_inject [simp]: "hex_string a = hex_string b \<longleftrightarrow> a = b"
proof (induction a arbitrary: b)
  case Nil
  then show ?case by (cases b) (auto simp: hex_string_def hex_byte_def)
next
  case (Cons x a)
  then show ?case
    by (cases b) (auto simp: hex_string_def hex_byte_def dest: arg_cong [where f = hex_byte]
        intro: hex_byte_inject [THEN iffD1, unfolded hex_byte_def])
qed

subsection \<open>Entropy\<close>

text \<open>
  The outcomes of the calls of \<open>rand.Read\<close>, in the order the program makes them:
  \<open>None\<close> is a failed call, \<open>Some bs\<close> fills the slice with the first bytes of \<open>bs\<close>
  (padded with zeros when the script is shorter than the slice). A run is over a given
  list of outcomes; where the list is used up the source reports an error.
\<close>

type_synonym rng = "bytes option list"

fun rand_read :: "nat \<Rightarrow> (rng, bytes) act" where
  "rand_read n [] = (Fail (ErrNew ''entropy source exhausted''), [])"
| "rand_read n (None # r) = (Fail (ErrNew ''failed to read random bytes''), r)"
| "rand_read n (Some bs # r) = (Ret (take n (bs @ replicate n 0)), r)"

lemma rand_read_length: "rand_read n r = (Ret bs, r') \<Longrightarrow> length bs = n"
  by (cases "(n, r)" rule: rand_read.cases) auto

lemma rand_read_no_panic: "fst (rand_read n r) \<noteq> Panic p"
  by (cases "(n, r)" rule: rand_read.cases) auto

end
