(* ===== verification/Hash.thy ===== *)
theory Hash
  imports Wire
begin

text \<open>
  \<open>crypto/sha1\<close> and \<open>crypto/hmac\<close> of Go's standard library, which the RMCP+ code uses for
  every authentication code and key: SHA-1 over byte lists, and HMAC with the block
  size 64 of SHA-1; \<open>crypto/sha256\<close> for the image cache. The protocol proofs need one law of it, stated as the interface
  \<open>keyed_hash\<close>: a code has a fixed length.
\<close>

subsection \<open>SHA-1\<close>

definition be32 :: "u32 \<Rightarrow> bytes" where
  "be32 w = rev (le32 w)"

definition of_be32 :: "bytes \<Rightarrow> u32" where
  "of_be32 bs = of_le32 (rev bs)"

text \<open>Padding: a one bit, zeros up to 56 modulo 64, and the bit length in 64 bits.\<close>

definition sha1_pad :: "bytes \<Rightarrow> bytes" where
  "sha1_pad m = m @ [0x80] @ replicate ((55 + 64 - length m mod 64) mod 64) 0
     @ rev (put_le 8 (of_nat (8 * length m) :: 64 word))"

fun sha1_extend :: "nat \<Rightarrow> u32 list \<Rightarrow> u32 list" where
  "sha1_extend 0 ws = ws"
| "sha1_extend (Suc n) ws =
     (let t = length ws
      in sha1_extend n (ws @ [word_rotl 1
           (ws ! (t - 3) XOR ws ! (t - 8) XOR ws ! (t - 14) XOR ws ! (t - 16))]))"

definition sha1_f :: "nat \<Rightarrow> u32 \<Rightarrow> u32 \<Rightarrow> u32 \<Rightarrow> u32" where
  "sha1_f t b c d =
     (if t < 20 then (b AND c) OR (NOT b AND d)
      else if t < 40 then b XOR c XOR d
      else if t < 60 then (b AND c) OR (b AND d) OR (c AND d)
      else b XOR c XOR d)"

definition sha1_k :: "nat \<Rightarrow> u32" where
  "sha1_k t =
     (if t < 20 then 0x5a827999 else if t < 40 then 0x6ed9eba1
      else if t < 60 then 0x8f1bbcdc else 0xca62c1d6)"

datatype sha1_state = SHA1_State u32 u32 u32 u32 u32

fun sha1_rounds :: "nat \<Rightarrow> u32 list \<Rightarrow> sha1_state \<Rightarrow> sha1_state" where
  "sha1_rounds t [] s = s"
| "sha1_rounds t (w # ws) (SHA1_State a b c d e) =
     sha1_rounds (Suc t) ws
       (SHA1_State (word_rotl 5 a + sha1_f t b c d + e + sha1_k t + w) a (word_rotl 30 b) c d)"

fun sha1_add :: "sha1_state \<Rightarrow> sha1_state \<Rightarrow> sha1_state" where
  "sha1_add (SHA1_State a b c d e) (SHA1_State a' b' c' d' e') =
     SHA1_State (a + a') (b + b') (c + c') (d + d') (e + e')"

definition sha1_block :: "sha1_state \<Rightarrow> bytes \<Rightarrow> sha1_state" where
  "sha1_block s blk =
     (let ws = sha1_extend 64 (map (\<lambda>i. of_be32 (slice (4 * i) 4 blk)) [0..<16])
      in sha1_add s (sha1_rounds 0 ws s))"

fun sha1_bytes :: "sha1_state \<Rightarrow> bytes" where
  "sha1_bytes (SHA1_State a b c d e) = be32 a @ be32 b @ be32 c @ be32 d @ be32 e"

definition sha1 :: "bytes \<Rightarrow> bytes" where
  "sha1 m =
     (let p = sha1_pad m
      in sha1_bytes (foldl sha1_block
           (SHA1_State 0x67452301 0xefcdab89 0x98badcfe 0x10325476 0xc3d2e1f0)
           (map (\<lambda>i. slice (64 * i) 64 p) [0..<length p div 64])))"

subsection \<open>HMAC\<close>

definition xor_bytes :: "bytes \<Rightarrow> bytes \<Rightarrow> bytes" where
  "xor_bytes a b = map2 (\<lambda>x y. x XOR y) a b"

definition hmac_key :: "bytes \<Rightarrow> bytes" where
  "hmac_key k =
     (let k' = (if 64 < length k then sha1 k else k)
      in k' @ replicate (64 - length k') 0)"

text \<open>\<open>mac := hmac.New(sha1.New, key); mac.Write(m); mac.Sum(nil)\<close>\<close>

definition hmac_sha1 :: "bytes \<Rightarrow> bytes \<Rightarrow> bytes" where
  "hmac_sha1 k m =
     sha1 (xor_bytes (hmac_key k) (replicate 64 0x5c)
       @ sha1 (xor_bytes (hmac_key k) (replicate 64 0x36) @ m))"

lemma length_be32 [simp]: "length (be32 w) = 4"
  by (simp add: be32_def)

lemma length_sha1_bytes [simp]: "length (sha1_bytes s) = 20"
  by (cases s) simp

lemma length_sha1 [simp]: "length (sha1 m) = 20"
  by (simp add: sha1_def Let_def)

lemma length_xor_bytes [simp]: "length (xor_bytes a b) = min (length a) (length b)"
  by (simp add: xor_bytes_def)

lemma xor_bytes_cancel: "length a = length b \<Longrightarrow> xor_bytes a (xor_bytes a b) = b"
  by (induction a b rule: list_induct2) (auto simp: xor_bytes_def)

lemma xor_bytes_commute: "xor_bytes a b = xor_bytes b a"
proof (induction a arbitrary: b)
  case (Cons x a)
  then show ?case by (cases b) (auto simp: xor_bytes_def xor.commute)
qed (simp add: xor_bytes_def)

lemma length_hmac_key [simp]: "length (hmac_key k) = 64"
  by (simp add: hmac_key_def Let_def)

subsection \<open>SHA-256\<close>

text \<open>\<open>crypto/sha256\<close>, which names the entries of the image cache. The padding is that of SHA-1.\<close>

definition sha256_k :: "u32 list" where
  "sha256_k =
    [1116352408, 1899447441, 3049323471, 3921009573, 961987163, 1508970993, 2453635748, 2870763221,
     3624381080, 310598401, 607225278, 1426881987, 1925078388, 2162078206, 2614888103, 3248222580,
     3835390401, 4022224774, 264347078, 604807628, 770255983, 1249150122, 1555081692, 1996064986,
     2554220882, 2821834349, 2952996808, 3210313671, 3336571891, 3584528711, 113926993, 338241895,
     666307205, 773529912, 1294757372, 1396182291, 1695183700, 1986661051, 2177026350, 2456956037,
     2730485921, 2820302411, 3259730800, 3345764771, 3516065817, 3600352804, 4094571909, 275423344,
     430227734, 506948616, 659060556, 883997877, 958139571, 1322822218, 1537002063, 1747873779,
     1955562222, 2024104815, 2227730452, 2361852424, 2428436474, 2756734187, 3204031479, 3329325298]"

fun sha256_extend :: "nat \<Rightarrow> u32 list \<Rightarrow> u32 list" where
  "sha256_extend 0 ws = ws"
| "sha256_extend (Suc n) ws =
     (let t = length ws; w15 = ws ! (t - 15); w2 = ws ! (t - 2);
          s0 = word_rotr 7 w15 XOR word_rotr 18 w15 XOR drop_bit 3 w15;
          s1 = word_rotr 17 w2 XOR word_rotr 19 w2 XOR drop_bit 10 w2
      in sha256_extend n (ws @ [ws ! (t - 16) + s0 + ws ! (t - 7) + s1]))"

datatype sha256_state = SHA256_State u32 u32 u32 u32 u32 u32 u32 u32

fun sha256_rounds :: "(u32 \<times> u32) list \<Rightarrow> sha256_state \<Rightarrow> sha256_state" where
  "sha256_rounds [] s = s"
| "sha256_rounds ((k, w) # kws) (SHA256_State a b c d e f g h) =
     (let t1 = h + (word_rotr 6 e XOR word_rotr 11 e XOR word_rotr 25 e) + ((e AND f) XOR (NOT e AND g)) + k + w;
          t2 = (word_rotr 2 a XOR word_rotr 13 a XOR word_rotr 22 a) + ((a AND b) XOR (a AND c) XOR (b AND c))
      in sha256_rounds kws (SHA256_State (t1 + t2) a b c (d + t1) e f g))"

fun sha256_add :: "sha256_state \<Rightarrow> sha256_state \<Rightarrow> sha256_state" where
  "sha256_add (SHA256_State a b c d e f g h) (SHA256_State a' b' c' d' e' f' g' h') =
     SHA256_State (a + a') (b + b') (c + c') (d + d') (e + e') (f + f') (g + g') (h + h')"

definition sha256_block :: "sha256_state \<Rightarrow> bytes \<Rightarrow> sha256_state" where
  "sha256_block s blk =
     (let ws = sha256_extend 48 (map (\<lambda>i. of_be32 (slice (4 * i) 4 blk)) [0..<16])
      in sha256_add s (sha256_rounds (zip sha256_k ws) s))"

fun sha256_bytes :: "sha256_state \<Rightarrow> bytes" where
  "sha256_bytes (SHA256_State a b c d e f g h) =
     be32 a @ be32 b @ be32 c @ be32 d @ be32 e @ be32 f @ be32 g @ be32 h"

definition sha256 :: "bytes \<Rightarrow> bytes" where
  "sha256 m =
     (let p = sha1_pad m
      in sha256_bytes (foldl sha256_block
           (SHA256_State 1779033703 3144134277 1013904242 2773480762 1359893119 2600822924 528734635 1541459225)
           (map (\<lambda>i. slice (64 * i) 64 p) [0..<length p div 64])))"

lemma length_sha256 [simp]: "length (sha256 m) = 32"
proof -
  have "length (sha256_bytes s) = 32" for s by (cases s) simp
  then show ?thesis by (simp add: sha256_def Let_def)
qed

subsection \<open>The interface of a keyed hash\<close>

locale keyed_hash =
  fixes mac :: "bytes \<Rightarrow> bytes \<Rightarrow> bytes" and size_of :: nat
  assumes mac_length: "length (mac k m) = size_of"
begin

lemma mac_take_length: "n \<le> size_of \<Longrightarrow> length (take n (mac k m)) = n"
  by (simp add: mac_length)

text \<open>Comparing a received code with a computed one fails for any other length.\<close>

lemma mac_eq_length: "c = mac k m \<Longrightarrow> length c = size_of"
  by (simp add: mac_length)

end

interpretation hmac: keyed_hash hmac_sha1 20
  by unfold_locales (simp add: hmac_sha1_def)

declare hmac.mac_length [simp]

end
