(* ===== verification/Aes.thy ===== *)
theory Aes
  imports Hash
begin

text \<open>
  \<open>crypto/aes\<close> with 16-byte keys (AES-128) and the cipher-block-chaining mode of
  \<open>crypto/cipher\<close>, which \<open>encryptByCBCMode\<close> and \<open>decryptByCBCMode\<close> call.

  The interface \<open>block_cipher\<close> is what chaining relies on: a block function and its
  inverse on blocks of a fixed size. Inside it, CBC decryption is proved to undo CBC
  encryption for any number of blocks; the interpretation discharges the laws for
  AES-128 as defined here.
\<close>

subsection \<open>The block function\<close>

definition sbox_table :: bytes where
  "sbox_table = [
     0x63, 0x7c, 0x77, 0x7b, 0xf2, 0x6b, 0x6f, 0xc5, 0x30, 0x01, 0x67, 0x2b, 0xfe, 0xd7, 0xab, 0x76,
     0xca, 0x82, 0xc9, 0x7d, 0xfa, 0x59, 0x47, 0xf0, 0xad, 0xd4, 0xa2, 0xaf, 0x9c, 0xa4, 0x72, 0xc0,
     0xb7, 0xfd, 0x93, 0x26, 0x36, 0x3f, 0xf7, 0xcc, 0x34, 0xa5, 0xe5, 0xf1, 0x71, 0xd8, 0x31, 0x15,
     0x04, 0xc7, 0x23, 0xc3, 0x18, 0x96, 0x05, 0x9a, 0x07, 0x12, 0x80, 0xe2, 0xeb, 0x27, 0xb2, 0x75,
     0x09, 0x83, 0x2c, 0x1a, 0x1b, 0x6e, 0x5a, 0xa0, 0x52, 0x3b, 0xd6, 0xb3, 0x29, 0xe3, 0x2f, 0x84,
     0x53, 0xd1, 0x00, 0xed, 0x20, 0xfc, 0xb1, 0x5b, 0x6a, 0xcb, 0xbe, 0x39, 0x4a, 0x4c, 0x58, 0xcf,
     0xd0, 0xef, 0xaa, 0xfb, 0x43, 0x4d, 0x33, 0x85, 0x45, 0xf9, 0x02, 0x7f, 0x50, 0x3c, 0x9f, 0xa8,
     0x51, 0xa3, 0x40, 0x8f, 0x92, 0x9d, 0x38, 0xf5, 0xbc, 0xb6, 0xda, 0x21, 0x10, 0xff, 0xf3, 0xd2,
     0xcd, 0x0c, 0x13, 0xec, 0x5f, 0x97, 0x44, 0x17, 0xc4, 0xa7, 0x7e, 0x3d, 0x64, 0x5d, 0x19, 0x73,
     0x60, 0x81, 0x4f, 0xdc, 0x22, 0x2a, 0x90, 0x88, 0x46, 0xee, 0xb8, 0x14, 0xde, 0x5e, 0x0b, 0xdb,
     0xe0, 0x32, 0x3a, 0x0a, 0x49, 0x06, 0x24, 0x5c, 0xc2, 0xd3, 0xac, 0x62, 0x91, 0x95, 0xe4, 0x79,
     0xe7, 0xc8, 0x37, 0x6d, 0x8d, 0xd5, 0x4e, 0xa9, 0x6c, 0x56, 0xf4, 0xea, 0x65, 0x7a, 0xae, 0x08,
     0xba, 0x78, 0x25, 0x2e, 0x1c, 0xa6, 0xb4, 0xc6, 0xe8, 0xdd, 0x74, 0x1f, 0x4b, 0xbd, 0x8b, 0x8a,
     0x70, 0x3e, 0xb5, 0x66, 0x48, 0x03, 0xf6, 0x0e, 0x61, 0x35, 0x57, 0xb9, 0x86, 0xc1, 0x1d, 0x9e,
     0xe1, 0xf8, 0x98, 0x11, 0x69, 0xd9, 0x8e, 0x94, 0x9b, 0x1e, 0x87, 0xe9, 0xce, 0x55, 0x28, 0xdf,
     0x8c, 0xa1, 0x89, 0x0d, 0xbf, 0xe6, 0x42, 0x68, 0x41, 0x99, 0x2d, 0x0f, 0xb0, 0x54, 0xbb, 0x16]"

definition inv_sbox_table :: bytes where
  "inv_sbox_table = [
     0x52, 0x09, 0x6a, 0xd5, 0x30, 0x36, 0xa5, 0x38, 0xbf, 0x40, 0xa3, 0x9e, 0x81, 0xf3, 0xd7, 0xfb,
     0x7c, 0xe3, 0x39, 0x82, 0x9b, 0x2f, 0xff, 0x87, 0x34, 0x8e, 0x43, 0x44, 0xc4, 0xde, 0xe9, 0xcb,
     0x54, 0x7b, 0x94, 0x32, 0xa6, 0xc2, 0x23, 0x3d, 0xee, 0x4c, 0x95, 0x0b, 0x42, 0xfa, 0xc3, 0x4e,
     0x08, 0x2e, 0xa1, 0x66, 0x28, 0xd9, 0x24, 0xb2, 0x76, 0x5b, 0xa2, 0x49, 0x6d, 0x8b, 0xd1, 0x25,
     0x72, 0xf8, 0xf6, 0x64, 0x86, 0x68, 0x98, 0x16, 0xd4, 0xa4, 0x5c, 0xcc, 0x5d, 0x65, 0xb6, 0x92,
     0x6c, 0x70, 0x48, 0x50, 0xfd, 0xed, 0xb9, 0xda, 0x5e, 0x15, 0x46, 0x57, 0xa7, 0x8d, 0x9d, 0x84,
     0x90, 0xd8, 0xab, 0x00, 0x8c, 0xbc, 0xd3, 0x0a, 0xf7, 0xe4, 0x58, 0x05, 0xb8, 0xb3, 0x45, 0x06,
     0xd0, 0x2c, 0x1e, 0x8f, 0xca, 0x3f, 0x0f, 0x02, 0xc1, 0xaf, 0xbd, 0x03, 0x01, 0x13, 0x8a, 0x6b,
     0x3a, 0x91, 0x11, 0x41, 0x4f, 0x67, 0xdc, 0xea, 0x97, 0xf2, 0xcf, 0xce, 0xf0, 0xb4, 0xe6, 0x73,
     0x96, 0xac, 0x74, 0x22, 0xe7, 0xad, 0x35, 0x85, 0xe2, 0xf9, 0x37, 0xe8, 0x1c, 0x75, 0xdf, 0x6e,
     0x47, 0xf1, 0x1a, 0x71, 0x1d, 0x29, 0xc5, 0x89, 0x6f, 0xb7, 0x62, 0x0e, 0xaa, 0x18, 0xbe, 0x1b,
     0xfc, 0x56, 0x3e, 0x4b, 0xc6, 0xd2, 0x79, 0x20, 0x9a, 0xdb, 0xc0, 0xfe, 0x78, 0xcd, 0x5a, 0xf4,
     0x1f, 0xdd, 0xa8, 0x33, 0x88, 0x07, 0xc7, 0x31, 0xb1, 0x12, 0x10, 0x59, 0x27, 0x80, 0xec, 0x5f,
     0x60, 0x51, 0x7f, 0xa9, 0x19, 0xb5, 0x4a, 0x0d, 0x2d, 0xe5, 0x7a, 0x9f, 0x93, 0xc9, 0x9c, 0xef,
     0xa0, 0xe0, 0x3b, 0x4d, 0xae, 0x2a, 0xf5, 0xb0, 0xc8, 0xeb, 0xbb, 0x3c, 0x83, 0x53, 0x99, 0x61,
     0x17, 0x2b, 0x04, 0x7e, 0xba, 0x77, 0xd6, 0x26, 0xe1, 0x69, 0x14, 0x63, 0x55, 0x21, 0x0c, 0x7d]"

definition sbox :: "byte \<Rightarrow> byte" where
  "sbox b = sbox_table ! unat b"

definition inv_sbox :: "byte \<Rightarrow> byte" where
  "inv_sbox b = inv_sbox_table ! unat b"

text \<open>Multiplication by the polynomial \<open>x\<close> in GF(256).\<close>

definition xtime :: "byte \<Rightarrow> byte" where
  "xtime b = push_bit 1 b XOR (if bit b 7 then 0x1b else 0)"

fun mix_column :: "bytes \<Rightarrow> bytes" where
  "mix_column [a, b, c, d] =
     [xtime a XOR (xtime b XOR b) XOR c XOR d,
      a XOR xtime b XOR (xtime c XOR c) XOR d,
      a XOR b XOR xtime c XOR (xtime d XOR d),
      (xtime a XOR a) XOR b XOR c XOR xtime d]"
| "mix_column bs = bs"

definition mul9 :: "byte \<Rightarrow> byte" where
  "mul9 b = xtime (xtime (xtime b)) XOR b"

definition mul11 :: "byte \<Rightarrow> byte" where
  "mul11 b = xtime (xtime (xtime b)) XOR xtime b XOR b"

definition mul13 :: "byte \<Rightarrow> byte" where
  "mul13 b = xtime (xtime (xtime b)) XOR xtime (xtime b) XOR b"

definition mul14 :: "byte \<Rightarrow> byte" where
  "mul14 b = xtime (xtime (xtime b)) XOR xtime (xtime b) XOR xtime b"

fun inv_mix_column :: "bytes \<Rightarrow> bytes" where
  "inv_mix_column [a, b, c, d] =
     [mul14 a XOR mul11 b XOR mul13 c XOR mul9 d,
      mul9 a XOR mul14 b XOR mul11 c XOR mul13 d,
      mul13 a XOR mul9 b XOR mul14 c XOR mul11 d,
      mul11 a XOR mul13 b XOR mul9 c XOR mul14 d]"
| "inv_mix_column bs = bs"

text \<open>The 16 bytes of a state are its columns, one after the other.\<close>

fun on_columns :: "(bytes \<Rightarrow> bytes) \<Rightarrow> bytes \<Rightarrow> bytes" where
  "on_columns f (a # b # c # d # rest) = f [a, b, c, d] @ on_columns f rest"
| "on_columns f bs = bs"

definition shift_rows :: "bytes \<Rightarrow> bytes" where
  "shift_rows s = map (\<lambda>i. s ! i) [0, 5, 10, 15, 4, 9, 14, 3, 8, 13, 2, 7, 12, 1, 6, 11]"

definition inv_shift_rows :: "bytes \<Rightarrow> bytes" where
  "inv_shift_rows s = map (\<lambda>i. s ! i) [0, 13, 10, 7, 4, 1, 14, 11, 8, 5, 2, 15, 12, 9, 6, 3]"

definition aes_round :: "bytes \<Rightarrow> bytes \<Rightarrow> bytes" where
  "aes_round rk s = xor_bytes rk (on_columns mix_column (shift_rows (map sbox s)))"

definition aes_inv_round :: "bytes \<Rightarrow> bytes \<Rightarrow> bytes" where
  "aes_inv_round rk s = map inv_sbox (inv_shift_rows (on_columns inv_mix_column (xor_bytes rk s)))"

text \<open>The key schedule: the round keys after the first, one per round constant.\<close>

definition next_round_key :: "byte \<Rightarrow> bytes \<Rightarrow> bytes" where
  "next_round_key rc k =
     (let t = [sbox (k ! 13) XOR rc, sbox (k ! 14), sbox (k ! 15), sbox (k ! 12)];
          w0 = xor_bytes (slice 0 4 k) t;
          w1 = xor_bytes (slice 4 4 k) w0;
          w2 = xor_bytes (slice 8 4 k) w1;
          w3 = xor_bytes (slice 12 4 k) w2
      in w0 @ w1 @ w2 @ w3)"

fun round_keys :: "byte list \<Rightarrow> bytes \<Rightarrow> bytes list" where
  "round_keys [] k = []"
| "round_keys (rc # rcs) k = next_round_key rc k # round_keys rcs (next_round_key rc k)"

definition aes_rcons :: "byte list" where
  "aes_rcons = [0x01, 0x02, 0x04, 0x08, 0x10, 0x20, 0x40, 0x80, 0x1b, 0x36]"

fun aes_enc_rounds :: "bytes list \<Rightarrow> bytes \<Rightarrow> bytes" where
  "aes_enc_rounds [] s = s"
| "aes_enc_rounds [rk] s = xor_bytes rk (shift_rows (map sbox s))"
| "aes_enc_rounds (rk # rks) s = aes_enc_rounds rks (aes_round rk s)"

fun aes_dec_rounds :: "bytes list \<Rightarrow> bytes \<Rightarrow> bytes" where
  "aes_dec_rounds [] s = s"
| "aes_dec_rounds [rk] s = map inv_sbox (inv_shift_rows (xor_bytes rk s))"
| "aes_dec_rounds (rk # rks) s = aes_inv_round rk (aes_dec_rounds rks s)"

text \<open>\<open>block.Encrypt\<close> and \<open>block.Decrypt\<close> of the cipher that \<open>aes.NewCipher(key)\<close> returns.\<close>

definition aes_encrypt :: "bytes \<Rightarrow> bytes \<Rightarrow> bytes" where
  "aes_encrypt k b = aes_enc_rounds (round_keys aes_rcons k) (xor_bytes k b)"

definition aes_decrypt :: "bytes \<Rightarrow> bytes \<Rightarrow> bytes" where
  "aes_decrypt k b = xor_bytes k (aes_dec_rounds (round_keys aes_rcons k) b)"

subsection \<open>Chaining\<close>

fun cbc_encrypt_blocks :: "(bytes \<Rightarrow> bytes) \<Rightarrow> bytes \<Rightarrow> bytes list \<Rightarrow> bytes list" where
  "cbc_encrypt_blocks e iv [] = []"
| "cbc_encrypt_blocks e iv (b # bs) =
     (let c = e (xor_bytes iv b) in c # cbc_encrypt_blocks e c bs)"

fun cbc_decrypt_blocks :: "(bytes \<Rightarrow> bytes) \<Rightarrow> bytes \<Rightarrow> bytes list \<Rightarrow> bytes list" where
  "cbc_decrypt_blocks d iv [] = []"
| "cbc_decrypt_blocks d iv (c # cs) = xor_bytes iv (d c) # cbc_decrypt_blocks d c cs"

definition blocks_of :: "bytes \<Rightarrow> bytes list" where
  "blocks_of bs = map (\<lambda>i. slice (16 * i) 16 bs) [0..<length bs div 16]"

text \<open>
  What \<open>cipher.NewCBCEncrypter(block, iv).CryptBlocks(dst, src)\<close> writes to \<open>dst\<close>, for a
  \<open>src\<close> of whole blocks, and its inverse.
\<close>

definition cbc_encrypt :: "bytes \<Rightarrow> bytes \<Rightarrow> bytes \<Rightarrow> bytes" where
  "cbc_encrypt k iv src = concat (cbc_encrypt_blocks (aes_encrypt k) iv (blocks_of src))"

definition cbc_decrypt :: "bytes \<Rightarrow> bytes \<Rightarrow> bytes \<Rightarrow> bytes" where
  "cbc_decrypt k iv src = concat (cbc_decrypt_blocks (aes_decrypt k) iv (blocks_of src))"

subsection \<open>Correctness of the block function\<close>

lemma length_sbox_table: "length sbox_table = 256" "length inv_sbox_table = 256"
  by (simp_all add: sbox_table_def inv_sbox_table_def)

lemma inv_sbox_table_sbox: "map (\<lambda>b. inv_sbox_table ! unat b) sbox_table = map of_nat [0..<256]"
  unfolding sbox_table_def inv_sbox_table_def by code_simp

lemma inv_sbox_sbox [simp]: "inv_sbox (sbox b) = b"
proof -
  have lt: "unat b < 256" by (rule unat_byte_lt)
  have "inv_sbox (sbox b) = map (\<lambda>b. inv_sbox_table ! unat b) sbox_table ! unat b"
    using lt by (simp add: inv_sbox_def sbox_def length_sbox_table)
  also have "\<dots> = map of_nat [0..<256] ! unat b"
    by (simp only: inv_sbox_table_sbox)
  also have "\<dots> = b" using lt by simp
  finally show ?thesis .
qed

lemma xtime_xor: "xtime (a XOR b) = xtime a XOR xtime b"
  by (rule bit_word_eqI) (auto simp: xtime_def bit_xor_iff bit_push_bit_iff)

lemma xor_left_cancel: "(a :: byte) XOR (a XOR b) = b"
  by (simp flip: xor.assoc)

lemma inv_mix_column_mix_column: "inv_mix_column (mix_column [a, b, c, d]) = [a, b, c, d]"
  by (simp add: mul9_def mul11_def mul13_def mul14_def xtime_xor xor.assoc xor.commute
      xor.left_commute xor_left_cancel)


lemma length_mix_column: "length (mix_column bs) = length bs"
  by (cases bs rule: mix_column.cases) simp_all

lemma length_on_columns: "(\<And>bs. length (f bs) = length bs) \<Longrightarrow> length (on_columns f s) = length s"
  by (induction f s rule: on_columns.induct) simp_all

lemma on_columns_inverse:
  "on_columns inv_mix_column (on_columns mix_column s) = s"
proof (induction "mix_column" s rule: on_columns.induct)
  case (1 a b c d rest)
  obtain w x y z where m: "mix_column [a, b, c, d] = [w, x, y, z]" by simp
  then have "inv_mix_column [w, x, y, z] = [a, b, c, d]"
    using inv_mix_column_mix_column [of a b c d] by simp
  then show ?case using 1 by (simp only: on_columns.simps m append.simps)
qed simp_all

lemma length_shift_rows [simp]: "length (shift_rows s) = 16" "length (inv_shift_rows s) = 16"
  by (simp_all add: shift_rows_def inv_shift_rows_def)

lemma list16_cases:
  assumes "length s = 16"
  shows "s = map (\<lambda>i. s ! i) [0, 1, 2, 3, 4, 5, 6, 7, 8, 9, 10, 11, 12, 13, 14, 15]"
proof -
  have "s = map (\<lambda>i. s ! i) [0..<16]" using assms by (metis map_nth)
  moreover have "[0..<16] = [0, 1, 2, 3, 4, 5, 6, 7, 8, 9, 10, 11, 12, 13, 14, 15]"
    by (simp add: upt_conv_Cons)
  ultimately show ?thesis by simp
qed

lemma shift_rows_inverse: "length s = 16 \<Longrightarrow> inv_shift_rows (shift_rows s) = s"
  by (subst (2) list16_cases) (simp_all add: shift_rows_def inv_shift_rows_def)

lemma length_aes_round: "length rk = 16 \<Longrightarrow> length (aes_round rk s) = 16"
  by (simp add: aes_round_def length_on_columns length_mix_column)

lemma length_next_round_key: "length k = 16 \<Longrightarrow> length (next_round_key rc k) = 16"
  by (simp add: next_round_key_def Let_def slice_def)

lemma length_round_keys: "length k = 16 \<Longrightarrow> rk \<in> set (round_keys rcs k) \<Longrightarrow> length rk = 16"
  by (induction rcs k rule: round_keys.induct) (auto simp: length_next_round_key)

lemma map_inv_sbox_sbox [simp]: "map inv_sbox (map sbox s) = s"
  by (simp add: comp_def)

lemma aes_inv_round_round:
  assumes "length rk = 16" "length s = 16"
  shows "aes_inv_round rk (aes_round rk s) = s"
  using assms
  by (simp add: aes_inv_round_def aes_round_def xor_bytes_cancel length_on_columns length_mix_column
      on_columns_inverse shift_rows_inverse del: map_map)

lemma aes_dec_enc_rounds:
  "\<forall>rk \<in> set rks. length rk = 16 \<Longrightarrow> length s = 16 \<Longrightarrow>
     aes_dec_rounds rks (aes_enc_rounds rks s) = s"
proof (induction rks s rule: aes_enc_rounds.induct)
  case (3 rk rk2 rks s)
  then have "length (aes_round rk s) = 16" by (simp add: length_aes_round)
  then have "aes_dec_rounds (rk2 # rks) (aes_enc_rounds (rk2 # rks) (aes_round rk s)) = aes_round rk s"
    using "3.IH" "3.prems" by simp
  then show ?case using "3.prems" by (simp add: aes_inv_round_round)
qed (simp_all add: xor_bytes_cancel shift_rows_inverse del: map_map)

lemma length_aes_enc_rounds:
  "\<forall>rk \<in> set rks. length rk = 16 \<Longrightarrow> length s = 16 \<Longrightarrow> length (aes_enc_rounds rks s) = 16"
  by (induction rks s rule: aes_enc_rounds.induct) (simp_all add: length_aes_round)

lemma length_aes_dec_rounds:
  "\<forall>rk \<in> set rks. length rk = 16 \<Longrightarrow> length s = 16 \<Longrightarrow> length (aes_dec_rounds rks s) = 16"
  by (induction rks s rule: aes_dec_rounds.induct) (simp_all add: aes_inv_round_def)

subsection \<open>The interface of a block cipher\<close>

locale block_cipher =
  fixes encb :: "bytes \<Rightarrow> bytes \<Rightarrow> bytes" and decb :: "bytes \<Rightarrow> bytes \<Rightarrow> bytes" and bsize :: nat
  assumes enc_block_length: "length k = bsize \<Longrightarrow> length b = bsize \<Longrightarrow> length (encb k b) = bsize"
    and dec_block_length: "length k = bsize \<Longrightarrow> length b = bsize \<Longrightarrow> length (decb k b) = bsize"
    and dec_enc_block: "length k = bsize \<Longrightarrow> length b = bsize \<Longrightarrow> decb k (encb k b) = b"
begin

lemma cbc_blocks_inverse:
  "length k = bsize \<Longrightarrow> length iv = bsize \<Longrightarrow> \<forall>b \<in> set bs. length b = bsize \<Longrightarrow>
     cbc_decrypt_blocks (decb k) iv (cbc_encrypt_blocks (encb k) iv bs) = bs"
proof (induction bs arbitrary: iv)
  case (Cons b bs)
  then have len: "length (xor_bytes iv b) = bsize" by simp
  with Cons.prems(1) have "length (encb k (xor_bytes iv b)) = bsize" by (rule enc_block_length)
  with Cons len show ?case
    by (simp add: Let_def dec_enc_block xor_bytes_cancel)
qed simp

lemma cbc_blocks_lengths:
  "length k = bsize \<Longrightarrow> length iv = bsize \<Longrightarrow> \<forall>b \<in> set bs. length b = bsize \<Longrightarrow>
     \<forall>c \<in> set (cbc_encrypt_blocks (encb k) iv bs). length c = bsize"
proof (induction bs arbitrary: iv)
  case (Cons b bs)
  then have "length (encb k (xor_bytes iv b)) = bsize" by (intro enc_block_length) simp_all
  with Cons show ?case by (simp add: Let_def)
qed simp

lemma cbc_decrypt_lengths:
  "length k = bsize \<Longrightarrow> length iv = bsize \<Longrightarrow> \<forall>c \<in> set cs. length c = bsize \<Longrightarrow>
     \<forall>b \<in> set (cbc_decrypt_blocks (decb k) iv cs). length b = bsize"
  by (induction cs arbitrary: iv) (auto simp: dec_block_length)

end

lemma round_keys_lengths: "length k = 16 \<Longrightarrow> \<forall>rk \<in> set (round_keys rcs k). length rk = 16"
  by (blast intro: length_round_keys)

interpretation aes: block_cipher aes_encrypt aes_decrypt 16
proof (unfold_locales, goal_cases)
  case (1 k b)
  then have "length (xor_bytes k b) = 16" by simp
  with round_keys_lengths [OF 1(1)] show ?case
    unfolding aes_encrypt_def by (rule length_aes_enc_rounds)
next
  case (2 k b)
  from round_keys_lengths [OF 2(1)] 2(2)
  have "length (aes_dec_rounds (round_keys aes_rcons k) b) = 16"
    by (rule length_aes_dec_rounds)
  with 2 show ?case by (simp add: aes_decrypt_def)
next
  case (3 k b)
  then have "length (xor_bytes k b) = 16" by simp
  with round_keys_lengths [OF 3(1)]
  have "aes_dec_rounds (round_keys aes_rcons k) (aes_encrypt k b) = xor_bytes k b"
    unfolding aes_encrypt_def by (rule aes_dec_enc_rounds)
  with 3 show ?case by (simp add: aes_decrypt_def xor_bytes_cancel)
qed

subsection \<open>Chaining over byte slices\<close>

lemma length_cbc_encrypt_blocks [simp]: "length (cbc_encrypt_blocks e iv bs) = length bs"
  by (induction e iv bs rule: cbc_encrypt_blocks.induct) (simp_all add: Let_def)

lemma length_cbc_decrypt_blocks [simp]: "length (cbc_decrypt_blocks e iv bs) = length bs"
  by (induction e iv bs rule: cbc_decrypt_blocks.induct) simp_all

lemma blocks_of_lengths: "b \<in> set (blocks_of bs) \<Longrightarrow> length b = 16"
  by (auto simp: blocks_of_def slice_def)

lemma length_blocks_of [simp]: "length (blocks_of bs) = length bs div 16"
  by (simp add: blocks_of_def)

lemma length_concat_blocks: "\<forall>b \<in> set bs. length b = n \<Longrightarrow> length (concat bs) = n * length bs"
  by (induction bs) auto

lemma blocks_of_Cons:
  assumes "length b = 16"
  shows "blocks_of (b @ bs) = b # blocks_of bs"
proof -
  have "length (b @ bs) div 16 = Suc (length bs div 16)" using assms by simp
  moreover have "map (\<lambda>i. slice (16 * i) 16 (b @ bs)) [0..<Suc n] =
      b # map (\<lambda>i. slice (16 * i) 16 bs) [0..<n]" for n
    using assms by (simp add: map_upt_Suc slice_def del: upt_Suc)
  ultimately show ?thesis by (simp only: blocks_of_def)
qed

lemma blocks_of_concat: "\<forall>b \<in> set bs. length b = 16 \<Longrightarrow> blocks_of (concat bs) = bs"
proof (induction bs)
  case (Cons b bs)
  then show ?case by (simp add: blocks_of_Cons)
qed (simp add: blocks_of_def)

lemma concat_blocks_of: "length bs = 16 * n \<Longrightarrow> concat (blocks_of bs) = bs"
proof (induction n arbitrary: bs)
  case (Suc n)
  have "blocks_of bs = take 16 bs # blocks_of (drop 16 bs)"
    using blocks_of_Cons [of "take 16 bs" "drop 16 bs"] Suc.prems by simp
  then show ?case using Suc.IH [of "drop 16 bs"] Suc.prems by simp
qed (simp add: blocks_of_def)

lemma length_cbc_encrypt:
  assumes "length k = 16" "length iv = 16" "length src = 16 * n"
  shows "length (cbc_encrypt k iv src) = length src"
  unfolding cbc_encrypt_def
  using assms aes.cbc_blocks_lengths [of k iv "blocks_of src"]
  by (subst length_concat_blocks [where n = 16]) (auto dest: blocks_of_lengths)

lemma length_cbc_decrypt:
  assumes "length k = 16" "length iv = 16" "length src = 16 * n"
  shows "length (cbc_decrypt k iv src) = length src"
  unfolding cbc_decrypt_def
  using assms aes.cbc_decrypt_lengths [of k iv "blocks_of src"]
  by (subst length_concat_blocks [where n = 16]) (auto dest: blocks_of_lengths)

lemma cbc_decrypt_encrypt:
  assumes "length k = 16" "length iv = 16" "length src = 16 * n"
  shows "cbc_decrypt k iv (cbc_encrypt k iv src) = src"
proof -
  have blk: "\<forall>b \<in> set (blocks_of src). length b = 16" by (simp add: blocks_of_lengths)
  then have "\<forall>c \<in> set (cbc_encrypt_blocks (aes_encrypt k) iv (blocks_of src)). length c = 16"
    using assms by (intro aes.cbc_blocks_lengths) simp_all
  then have "blocks_of (cbc_encrypt k iv src) = cbc_encrypt_blocks (aes_encrypt k) iv (blocks_of src)"
    unfolding cbc_encrypt_def by (rule blocks_of_concat)
  with blk assms show ?thesis
    unfolding cbc_decrypt_def by (simp add: aes.cbc_blocks_inverse concat_blocks_of)
qed

end
