(* ===== verification/Machine.thy ===== *)
theory Machine
  imports Prelude
begin

text \<open>
  The interface between the virtual BMC and the machine it controls
  (\<open>v2/pkg/virtualbmc/bmc_server.go\<close>): the Go interface \<open>Machine\<close> with its three methods
  and the values of \<open>PowerStatus\<close>. The state of the machine behind the interface is a
  type parameter.

  The locale \<open>machine\<close> is the contract that the BMC front ends rely on: the status is
  readable, a stopped machine can be powered on and a running one powered off. Its
  provider is the QMP client of \<open>v2/pkg/vm/node.go\<close>, in theory \<open>Qmp\<close>; its clients
  are the IPMI chassis commands, the Redfish reset actions and the API server.
\<close>

datatype PowerStatus =
    PowerStatusOn
  | PowerStatusPoweringOn
  | PowerStatusOff
  | PowerStatusPoweringOff
  | PowerStatusUnknown

record 'm Machine =
  PowerStatus_m :: "('m, PowerStatus) act"
  PowerOn_m :: "('m, unit) act"
  PowerOff_m :: "('m, unit) act"

text \<open>The two guards of the reset handlers.\<close>

definition is_on :: "PowerStatus \<Rightarrow> bool" where
  "is_on p \<longleftrightarrow> p = PowerStatusOn \<or> p = PowerStatusPoweringOn"

definition is_off :: "PowerStatus \<Rightarrow> bool" where
  "is_off p \<longleftrightarrow> p = PowerStatusOff \<or> p = PowerStatusPoweringOff"

lemma is_on_off_simps [simp]:
  "is_on PowerStatusOn" "\<not> is_on PowerStatusOff" "is_off PowerStatusOff" "\<not> is_off PowerStatusOn"
  by (simp_all add: is_on_def is_off_def)

locale machine =
  fixes ops :: "'m Machine"
    and ready :: "'m \<Rightarrow> bool"
    and powered :: "'m \<Rightarrow> bool"
  assumes status_law: "ready m \<Longrightarrow>
      \<exists>m'. PowerStatus_m ops m = (Ret (if powered m then PowerStatusOn else PowerStatusOff), m')
        \<and> ready m' \<and> powered m' = powered m"
    and on_law: "ready m \<Longrightarrow> \<not> powered m \<Longrightarrow>
      \<exists>m'. PowerOn_m ops m = (Ret (), m') \<and> ready m' \<and> powered m'"
    and off_law: "ready m \<Longrightarrow> powered m \<Longrightarrow>
      \<exists>m'. PowerOff_m ops m = (Ret (), m') \<and> ready m' \<and> \<not> powered m'"
begin

text \<open>Off and on again, as power cycle, hard reset and forced restart do.\<close>

lemma cycle:
  assumes "ready m" "powered m"
  shows "\<exists>m'. bindA (PowerOff_m ops) (\<lambda>_. PowerOn_m ops) m = (Ret (), m') \<and> ready m' \<and> powered m'"
proof -
  obtain m1 where "PowerOff_m ops m = (Ret (), m1)" "ready m1" "\<not> powered m1"
    using off_law [OF assms] by blast
  moreover obtain m2 where "PowerOn_m ops m1 = (Ret (), m2)" "ready m2" "powered m2"
    using on_law [OF calculation(2,3)] by blast
  ultimately show ?thesis by (auto simp: bindA_Ret)
qed

text \<open>A guard on the status: what runs after reading it depends on the power state only.\<close>

lemma status_then:
  assumes "ready m"
  shows "\<exists>m'. bindA (PowerStatus_m ops) f m =
      f (if powered m then PowerStatusOn else PowerStatusOff) m' \<and> ready m' \<and> powered m' = powered m"
  using status_law [OF assms] by (auto simp: bindA_Ret)

end

text \<open>
  A machine that refuses what has no effect: powering on a running machine or powering off
  a stopped one is an error and leaves the power state as it is.
\<close>

locale strict_machine = machine +
  assumes on_again: "ready m \<Longrightarrow> powered m \<Longrightarrow> \<exists>m' e. PowerOn_m ops m = (Fail e, m') \<and> ready m' \<and> powered m'"
    and off_again: "ready m \<Longrightarrow> \<not> powered m \<Longrightarrow> \<exists>m' e. PowerOff_m ops m = (Fail e, m') \<and> ready m' \<and> \<not> powered m'"

end
