(* ===== verification/BmcState.thy ===== *)
theory BmcState
  imports Wire Machine
begin

text \<open>
  The state the IPMI server keeps: the users (\<open>bmc_user.go\<close>), the RMCP+ sessions
  (\<open>rmcp_plus_session.go\<close>), the machine behind the BMC and the entropy source. A Go map
  of pointers is a map of records; writing through a session pointer is writing the
  record back under its identifier (\<open>putSession\<close>).

  The interface \<open>kv_store\<close> is the contract of a Go map used as a registry; it is
  interpreted for the user holder and for the session table.
\<close>

subsection \<open>Registries\<close>

lemma distinct_map_of_rev: "distinct (map fst kvs) \<Longrightarrow> (k, v) \<in> set kvs \<Longrightarrow> map_of (rev kvs) k = Some v"
  by (rule map_of_is_SomeI) (simp_all add: rev_map [symmetric])

locale kv_store =
  fixes empty :: 's
    and look :: "'s \<Rightarrow> 'k \<Rightarrow> 'v option"
    and ins :: "'k \<Rightarrow> 'v \<Rightarrow> 's \<Rightarrow> 's"
  assumes look_empty: "look empty k = None"
    and look_ins: "look (ins k v s) k' = (if k' = k then Some v else look s k')"
begin

text \<open>Registering a list of entries: the last entry of a key wins, other keys keep theirs.\<close>

lemma look_fold:
  "look (fold (\<lambda>(k, v). ins k v) kvs s) k =
     (case map_of (rev kvs) k of Some v \<Rightarrow> Some v | None \<Rightarrow> look s k)"
proof (induction kvs arbitrary: s)
  case (Cons kv kvs)
  then show ?case
    by (cases kv) (auto simp: look_ins map_add_def split: option.splits)
qed simp

lemma look_fold_distinct:
  "distinct (map fst kvs) \<Longrightarrow> (k, v) \<in> set kvs \<Longrightarrow> look (fold (\<lambda>(k, v). ins k v) kvs empty) k = Some v"
  by (simp add: look_fold look_empty distinct_map_of_rev)

end

subsection \<open>Users\<close>

record bmcUser =
  u_Username :: string
  u_Password :: string

type_synonym bmcUserHolder = "string \<rightharpoonup> bmcUser"

definition newBMCUserHolder :: bmcUserHolder where
  "newBMCUserHolder = Map.empty"

definition addBMCUser :: "string \<Rightarrow> string \<Rightarrow> bmcUserHolder \<Rightarrow> bmcUserHolder" where
  "addBMCUser name password users =
     users(name \<mapsto> \<lparr>u_Username = name, u_Password = password\<rparr>)"

definition getBMCUser :: "bmcUserHolder \<Rightarrow> string \<Rightarrow> bmcUser option" where
  "getBMCUser users name = users name"

definition user_password :: "bmcUserHolder \<Rightarrow> string \<Rightarrow> string option" where
  "user_password users name = map_option u_Password (getBMCUser users name)"

interpretation users: kv_store newBMCUserHolder user_password addBMCUser
  by unfold_locales
    (auto simp: newBMCUserHolder_def addBMCUser_def getBMCUser_def user_password_def)

text \<open>The registry \<open>StartIPMIServer\<close> builds.\<close>

definition bmcUsers :: bmcUserHolder where
  "bmcUsers = addBMCUser ''cybozu'' ''cybozu'' newBMCUserHolder"

lemma getBMCUser_bmcUsers:
  "getBMCUser bmcUsers n =
     (if n = ''cybozu'' then Some \<lparr>u_Username = ''cybozu'', u_Password = ''cybozu''\<rparr> else None)"
  by (simp add: bmcUsers_def addBMCUser_def newBMCUserHolder_def getBMCUser_def)

subsection \<open>Sessions\<close>

record rmcpPlusSession =
  s_RemoteConsoleSessionId :: u32
  s_ManagedSystemSessionId :: u32
  s_RemoteConsoleRandomNumber :: bytes
  s_ManagedSystemRandomNumber :: bytes
  s_RequestedPrivilegeLevel :: byte
  s_ManagedSystemGuid :: bytes
  s_UserName :: bytes
  s_UserNameLength :: byte
  s_SessionIntegrityKey :: bytes
  s_IntegrityKey :: bytes
  s_ConfidentialityKey :: bytes

type_synonym rmcpPlusSessionHolder = "u32 \<rightharpoonup> rmcpPlusSession"

record 'm bmc =
  sessions :: rmcpPlusSessionHolder
  entropy :: rng
  mach :: 'm

definition newRMCPPlusSessionHolder :: rmcpPlusSessionHolder where
  "newRMCPPlusSessionHolder = Map.empty"

text \<open>Running an action of the machine or of the entropy source inside the BMC state.\<close>

definition on_mach :: "('m, 'a) act \<Rightarrow> ('m bmc, 'a) act" where
  "on_mach f s = (case f (mach s) of (r, m) \<Rightarrow> (r, s\<lparr>mach := m\<rparr>))"

definition on_entropy :: "(rng, 'a) act \<Rightarrow> ('m bmc, 'a) act" where
  "on_entropy f s = (case f (entropy s) of (r, g) \<Rightarrow> (r, s\<lparr>entropy := g\<rparr>))"

definition generateRandomUint32 :: "(rng, u32) act" where
  "generateRandomUint32 = bindA (rand_read 4) (\<lambda>b. retA (of_le32 b))"

lemma generateRandomUint32_shorter:
  "generateRandomUint32 r = (Ret i, r') \<Longrightarrow> length r' < length r"
  by (cases "(4 :: nat, r)" rule: rand_read.cases)
    (auto simp: generateRandomUint32_def bindA_def retA_def)

text \<open>
  The loop of \<open>getNewRMCPPlusSession\<close>: draw again while the identifier is taken. Every
  turn consumes one outcome of the entropy source.
\<close>

function freshSessionId :: "rmcpPlusSessionHolder \<Rightarrow> u32 \<Rightarrow> (rng, u32) act" where
  "freshSessionId ss i r =
     (case ss i of
        None \<Rightarrow> (Ret i, r)
      | Some _ \<Rightarrow>
          (case generateRandomUint32 r of
             (Ret i', r') \<Rightarrow> freshSessionId ss i' r'
           | (Fail e, r') \<Rightarrow> (Fail e, r')
           | (Panic p, r') \<Rightarrow> (Panic p, r')))"
  by pat_completeness auto
termination
  by (relation "measure (\<lambda>(ss, i, r). length r)") (auto dest: generateRandomUint32_shorter [OF sym])

declare freshSessionId.simps [simp del]

definition zeroSession :: rmcpPlusSession where
  "zeroSession =
     \<lparr>s_RemoteConsoleSessionId = 0, s_ManagedSystemSessionId = 0,
      s_RemoteConsoleRandomNumber = replicate 16 0, s_ManagedSystemRandomNumber = replicate 16 0,
      s_RequestedPrivilegeLevel = 0, s_ManagedSystemGuid = replicate 16 0,
      s_UserName = [], s_UserNameLength = 0,
      s_SessionIntegrityKey = [], s_IntegrityKey = [], s_ConfidentialityKey = []\<rparr>"

definition putSession :: "u32 \<Rightarrow> rmcpPlusSession \<Rightarrow> 'm bmc \<Rightarrow> 'm bmc" where
  "putSession i sess s = s\<lparr>sessions := (sessions s)(i \<mapsto> sess)\<rparr>"

definition getNewRMCPPlusSession :: "u32 \<Rightarrow> ('m bmc, rmcpPlusSession) act" where
  "getNewRMCPPlusSession remoteConsoleSessionId =
     bindA (on_entropy generateRandomUint32) (\<lambda>i0.
     bindA (getA sessions) (\<lambda>ss.
     bindA (on_entropy (freshSessionId ss i0)) (\<lambda>i.
     let session = zeroSession\<lparr>s_ManagedSystemSessionId := i,
                               s_RemoteConsoleSessionId := remoteConsoleSessionId\<rparr>
     in bindA (modifyA (putSession i session)) (\<lambda>_. retA session))))"

definition getRMCPPlusSession :: "u32 \<Rightarrow> ('m bmc, rmcpPlusSession option) act" where
  "getRMCPPlusSession i = getA (\<lambda>s. sessions s i)"

definition removeRMCPPlusSession :: "u32 \<Rightarrow> 'm bmc \<Rightarrow> 'm bmc" where
  "removeRMCPPlusSession i s =
     (case sessions s i of
        None \<Rightarrow> s
      | Some _ \<Rightarrow> s\<lparr>sessions := (sessions s)(i := None)\<rparr>)"

interpretation sess: kv_store newRMCPPlusSessionHolder "\<lambda>ss. ss" "\<lambda>i v ss. ss(i \<mapsto> v)"
  by unfold_locales (auto simp: newRMCPPlusSessionHolder_def)

subsection \<open>Fresh identifiers\<close>

lemma freshSessionId_fresh: "freshSessionId ss i r = (Ret i', r') \<Longrightarrow> ss i' = None"
proof (induction ss i r rule: freshSessionId.induct)
  case (1 ss i r)
  show ?case
  proof (cases "ss i")
    case None
    with 1 show ?thesis by (simp add: freshSessionId.simps [of ss i r])
  next
    case (Some x)
    with 1 show ?thesis
      by (auto simp: freshSessionId.simps [of ss i r] split: prod.splits res.splits)
  qed
qed

lemma generateRandomUint32_no_panic: "fst (generateRandomUint32 r) \<noteq> Panic p"
  by (cases "(4 :: nat, r)" rule: rand_read.cases)
    (auto simp: generateRandomUint32_def bindA_def retA_def)

lemma freshSessionId_no_panic: "fst (freshSessionId ss i r) \<noteq> Panic p"
proof (induction ss i r rule: freshSessionId.induct)
  case (1 ss i r)
  show ?case
  proof (cases "ss i")
    case None
    then show ?thesis by (simp add: freshSessionId.simps [of ss i r])
  next
    case (Some x)
    then show ?thesis
      using 1 [OF Some sym] generateRandomUint32_no_panic [of r p]
      by (auto simp: freshSessionId.simps [of ss i r] split: prod.splits res.splits)
  qed
qed

text \<open>
  The loop ends with an identifier as soon as the source delivers, before any failure,
  four bytes that name no session.
\<close>

lemma freshSessionId_progress:
  assumes "ss (of_le32 bs) = None" "length bs = 4" "\<forall>d \<in> set ds. \<exists>b. d = Some b"
  shows "\<exists>i' r'. freshSessionId ss i (ds @ Some bs # r) = (Ret i', r') \<and> ss i' = None"
  using assms(3)
proof (induction ds arbitrary: i)
  case Nil
  then show ?case
    using assms(1,2)
    by (cases "ss i")
      (auto simp: freshSessionId.simps [of ss i] freshSessionId.simps [of ss "of_le32 bs"]
        generateRandomUint32_def bindA_def retA_def)
next
  case (Cons d ds)
  then obtain b where "d = Some b" by auto
  with Cons show ?case
    by (cases "ss i")
      (auto simp: freshSessionId.simps [of ss i] generateRandomUint32_def bindA_def retA_def)
qed

subsection \<open>Frame facts\<close>

lemma on_mach_frame [simp]:
  "sessions (snd (on_mach f s)) = sessions s" "entropy (snd (on_mach f s)) = entropy s"
  by (simp_all add: on_mach_def split: prod.splits)

lemma on_entropy_frame [simp]:
  "sessions (snd (on_entropy f s)) = sessions s" "mach (snd (on_entropy f s)) = mach s"
  by (simp_all add: on_entropy_def split: prod.splits)

lemma on_mach_bind: "on_mach (bindA m f) = bindA (on_mach m) (\<lambda>x. on_mach (f x))"
  by (auto simp: on_mach_def bindA_def fun_eq_iff split: prod.splits res.splits)

lemma on_mach_pure [simp]:
  "on_mach (retA x) = retA x" "on_mach (failA e) = failA e"
  by (auto simp: on_mach_def retA_def failA_def fun_eq_iff)

lemma on_mach_eq: "f (mach s) = (r, m) \<Longrightarrow> on_mach f s = (r, s\<lparr>mach := m\<rparr>)"
  by (simp add: on_mach_def)

lemma putSession_simps [simp]:
  "sessions (putSession i x s) = (sessions s)(i \<mapsto> x)"
  "entropy (putSession i x s) = entropy s" "mach (putSession i x s) = mach s"
  by (simp_all add: putSession_def)

lemma removeRMCPPlusSession_simps [simp]:
  "sessions (removeRMCPPlusSession i s) = (sessions s)(i := None)"
  "entropy (removeRMCPPlusSession i s) = entropy s" "mach (removeRMCPPlusSession i s) = mach s"
  by (auto simp: removeRMCPPlusSession_def split: option.splits)

end
