(* ===== verification/Ipmi.thy ===== *)
theory Ipmi
  imports BmcState
begin

text \<open>
  IPMI messages and their handlers: \<open>v2/pkg/virtualbmc/ipmi.go\<close> (message format, checksums,
  dispatch on the network function), \<open>ipmi_app.go\<close> (authentication capabilities, session
  privilege, close session) and \<open>ipmi_chassis.go\<close> (status and power control). Logging is
  left out; a command whose branch of a \<open>switch\<close> only logs ends in the error after it.
\<close>

subsection \<open>Messages\<close>

definition ipmiNetFNChassis :: byte where "ipmiNetFNChassis = 0x00"
definition ipmiNetFNApp :: byte where "ipmiNetFNApp = 0x06"
definition ipmiNetFNResponse :: byte where "ipmiNetFNResponse = 0x01"

definition completionCodeOK :: byte where "completionCodeOK = 0x00"
definition completionCodeCouldNotExecuteCommand :: byte where
  "completionCodeCouldNotExecuteCommand = 0xd5"

definition ipmiMessageHeaderLength :: int where "ipmiMessageHeaderLength = 6"

record ipmiMessage =
  m_TargetAddress :: byte
  m_TargetLun :: byte
  m_Checksum :: byte
  m_SourceAddress :: byte
  m_SourceLun :: byte
  m_Command :: byte
  m_CompletionCode :: byte
  m_Data :: bytes
  m_DataChecksum :: byte

definition deserializeIPMIMessage :: "bytes \<Rightarrow> nat \<Rightarrow> (ipmiMessage \<times> bytes) res" where
  "deserializeIPMIMessage buf ipmiMessageLen =
     bindR (wrapR ''failed to read TargetAddress'' (rd_u8 buf)) (\<lambda>(ta, buf).
     bindR (wrapR ''failed to read TargetLun'' (rd_u8 buf)) (\<lambda>(tl, buf).
     bindR (wrapR ''failed to read Checksum'' (rd_u8 buf)) (\<lambda>(ck, buf).
     bindR (wrapR ''failed to read SourceAddress'' (rd_u8 buf)) (\<lambda>(sa, buf).
     bindR (wrapR ''failed to read SourceLun'' (rd_u8 buf)) (\<lambda>(sl, buf).
     bindR (wrapR ''failed to read Command'' (rd_u8 buf)) (\<lambda>(cmd, buf).
     let dataLen = int ipmiMessageLen - ipmiMessageHeaderLength - 1 in
     bindR (if 0 < dataLen then wrapR ''failed to read Data'' (readFull (nat dataLen) buf)
            else Ret ([], buf)) (\<lambda>(data, buf).
     bindR (wrapR ''failed to read DataChecksum'' (rd_u8 buf)) (\<lambda>(dck, buf).
     Ret (\<lparr>m_TargetAddress = ta, m_TargetLun = tl, m_Checksum = ck, m_SourceAddress = sa,
           m_SourceLun = sl, m_Command = cmd, m_CompletionCode = 0, m_Data = data,
           m_DataChecksum = dck\<rparr>, buf)))))))))"

text \<open>The struct \<open>ipmi\<close> that \<open>newIPMI\<close> returns holds the message beside the machine and the sessions.\<close>

definition newIPMI :: "bytes \<Rightarrow> nat \<Rightarrow> ipmiMessage res" where
  "newIPMI buf ipmiMessageLen =
     bindR (wrapR ''failed to desetialize ipmi message '' (deserializeIPMIMessage buf ipmiMessageLen))
       (\<lambda>(message, _). Ret message)"

definition isNetFunctionResponse :: "byte \<Rightarrow> bool" where
  "isNetFunctionResponse targetLun \<longleftrightarrow> (drop_bit 2 targetLun) AND ipmiNetFNResponse = ipmiNetFNResponse"

definition serializeIPMIMessage :: "ipmiMessage \<Rightarrow> bytes" where
  "serializeIPMIMessage message =
     [m_TargetAddress message, m_TargetLun message, m_Checksum message,
      m_SourceAddress message, m_SourceLun message, m_Command message]
     @ (if isNetFunctionResponse (m_TargetLun message) then [m_CompletionCode message] else [])
     @ m_Data message @ [m_DataChecksum message]"

fun sum_u32 :: "u32 \<Rightarrow> bytes \<Rightarrow> u32" where
  "sum_u32 acc [] = acc"
| "sum_u32 acc (b # bs) = sum_u32 (acc + ucast b) bs"

text \<open>\<open>uint8(0x100 - (sum & 0xff))\<close>\<close>

definition checksum_byte :: "u32 \<Rightarrow> byte" where
  "checksum_byte s = ucast (0x100 - (s AND 0xff))"

definition serializeIPMI :: "ipmiMessage \<Rightarrow> bytes" where
  "serializeIPMI message =
     (let sum = 0 + ucast (m_SourceAddress message) + ucast (m_SourceLun message)
                + ucast (m_Command message) + ucast (m_CompletionCode message);
          sum = sum_u32 sum (m_Data message);
          message = message\<lparr>m_DataChecksum := checksum_byte sum\<rparr>;
          sum = ucast (m_TargetAddress message) + ucast (m_TargetLun message)
      in serializeIPMIMessage (message\<lparr>m_Checksum := checksum_byte sum\<rparr>))"

definition buildResponseMessageTemplate :: "ipmiMessage \<Rightarrow> byte \<Rightarrow> byte \<Rightarrow> ipmiMessage" where
  "buildResponseMessageTemplate requestMessage netfn code =
     (let remoteLun = m_SourceLun requestMessage AND 0x03;
          localLun = m_TargetLun requestMessage AND 0x03
      in \<lparr>m_TargetAddress = m_SourceAddress requestMessage,
          m_TargetLun = remoteLun OR push_bit 2 netfn,
          m_Checksum = 0,
          m_SourceAddress = m_TargetAddress requestMessage,
          m_SourceLun = (m_SourceLun requestMessage AND 0xfc) OR localLun,
          m_Command = m_Command requestMessage,
          m_CompletionCode = code,
          m_Data = [],
          m_DataChecksum = 0\<rparr>)"

definition appendIPMIMessageHeader :: "ipmiMessage \<Rightarrow> bytes \<Rightarrow> byte \<Rightarrow> byte \<Rightarrow> bytes" where
  "appendIPMIMessageHeader request response netfn code =
     serializeIPMI ((buildResponseMessageTemplate request netfn code)\<lparr>m_Data := response\<rparr>)"

text \<open>What the verb \<open>%x\<close> prints for a \<open>uint8\<close>.\<close>

definition fmt_x :: "byte \<Rightarrow> string" where
  "fmt_x b = (if unat b < 16 then [hex_digit (unat b)] else hex_byte b)"

subsection \<open>Application commands\<close>

definition ipmiCmdGetChannelAuthCapabilities :: byte where
  "ipmiCmdGetChannelAuthCapabilities = 0x38"
definition ipmiCmdSetSessionPrivilege :: byte where
  "ipmiCmdSetSessionPrivilege = 0x3b"
definition ipmiCmdCloseSession :: byte where
  "ipmiCmdCloseSession = 0x3c"

definition handleIPMISetSessionPrivilegeLevel :: "ipmiMessage \<Rightarrow> bytes res" where
  "handleIPMISetSessionPrivilegeLevel message =
     bindR (wrapR ''failed to read ipmiSetSessionPrivilegeLevelRequest'' (rd_u8 (m_Data message)))
       (\<lambda>(requestPrivilegeLevel, _). Ret [requestPrivilegeLevel])"

text \<open>
  The response fields: channel 1; authentication types IPMI v2.0, MD5, MD2 and none;
  status non-null and null user; extended capabilities; three OEM bytes; OEM auxiliary data.
\<close>

definition handleIPMIAuthenticationCapabilities :: "ipmiMessage \<Rightarrow> bytes res" where
  "handleIPMIAuthenticationCapabilities message =
     bindR (wrapR ''failed to read ipmiAuthenticationCapabilitiesRequest'' (readFull 2 (m_Data message)))
       (\<lambda>_. Ret [1, 0x80 OR 0x04 OR 0x02 OR 0x01, 0x04 OR 0x02, 0x02, 0, 0, 0, 0])"

definition handleIPMICloseSession :: "ipmiMessage \<Rightarrow> ('m bmc, unit) act" where
  "handleIPMICloseSession message =
     bindA (liftA (rd_u32 (m_Data message))) (\<lambda>(sessionID, _).
     modifyA (removeRMCPPlusSession sessionID))"

definition handleIPMIApp :: "ipmiMessage \<Rightarrow> ('m bmc, bytes) act" where
  "handleIPMIApp message =
     (if m_Command message = ipmiCmdGetChannelAuthCapabilities then
        liftA (handleIPMIAuthenticationCapabilities message)
      else if m_Command message = ipmiCmdSetSessionPrivilege then
        liftA (handleIPMISetSessionPrivilegeLevel message)
      else if m_Command message = ipmiCmdCloseSession then
        bindA (handleIPMICloseSession message) (\<lambda>_. retA [])
      else failA (ErrNew (''unsupported Command: '' @ fmt_x (m_Command message))))"

subsection \<open>Chassis commands\<close>

definition ipmiCmdGetChassisStatus :: byte where "ipmiCmdGetChassisStatus = 0x01"
definition ipmiCmdChassisControl :: byte where "ipmiCmdChassisControl = 0x02"

definition chassisControlPowerDown :: byte where "chassisControlPowerDown = 0x00"
definition chassisControlPowerUp :: byte where "chassisControlPowerUp = 0x01"
definition chassisControlPowerCycle :: byte where "chassisControlPowerCycle = 0x02"
definition chassisControlHardReset :: byte where "chassisControlHardReset = 0x03"

definition handleIPMIGetChassisStatus :: "'m Machine \<Rightarrow> ('m bmc, bytes) act" where
  "handleIPMIGetChassisStatus M =
     bindA (on_mach (PowerStatus_m M)) (\<lambda>powerStatus.
     retA [if powerStatus = PowerStatusOn \<or> powerStatus = PowerStatusPoweringOn then 0x01 else 0, 0, 0, 0])"

definition alreadyOff :: err where "alreadyOff = ErrNew ''server is already powered off''"
definition alreadyOn :: err where "alreadyOn = ErrNew ''server is already powered on''"

definition handleIPMIChassisControl :: "'m Machine \<Rightarrow> ipmiMessage \<Rightarrow> ('m bmc, unit) act" where
  "handleIPMIChassisControl M message =
     bindA (liftA (rd_u8 (m_Data message))) (\<lambda>(chassisControl, _).
     if chassisControl = chassisControlPowerDown then
       bindA (on_mach (PowerStatus_m M)) (\<lambda>powerState.
       if powerState = PowerStatusOff \<or> powerState = PowerStatusPoweringOff then failA alreadyOff
       else on_mach (PowerOff_m M))
     else if chassisControl = chassisControlPowerUp then
       bindA (on_mach (PowerStatus_m M)) (\<lambda>powerState.
       if powerState = PowerStatusOn \<or> powerState = PowerStatusPoweringOn then failA alreadyOn
       else on_mach (PowerOn_m M))
     else if chassisControl = chassisControlPowerCycle then
       bindA (on_mach (PowerStatus_m M)) (\<lambda>powerState.
       if powerState = PowerStatusOff \<or> powerState = PowerStatusPoweringOff then failA alreadyOff
       else bindA (on_mach (PowerOff_m M)) (\<lambda>_. on_mach (PowerOn_m M)))
     else if chassisControl = chassisControlHardReset then
       bindA (on_mach (PowerStatus_m M)) (\<lambda>powerState.
       if powerState = PowerStatusOff \<or> powerState = PowerStatusPoweringOff then failA alreadyOff
       else bindA (on_mach (PowerOff_m M)) (\<lambda>_. on_mach (PowerOn_m M)))
     else retA ())"

definition handleIPMIChassis :: "'m Machine \<Rightarrow> ipmiMessage \<Rightarrow> ('m bmc, bytes) act" where
  "handleIPMIChassis M message =
     (if m_Command message = ipmiCmdGetChassisStatus then handleIPMIGetChassisStatus M
      else if m_Command message = ipmiCmdChassisControl then
        bindA (handleIPMIChassisControl M message) (\<lambda>_. retA [])
      else failA (ErrNew (''unsupported Chassis command: '' @ fmt_x (m_Command message))))"

subsection \<open>Dispatch\<close>

text \<open>
  \<open>res, err := h(...); if err != nil { code = completionCodeCouldNotExecuteCommand }\<close>
  and then \<open>appendIPMIMessageHeader\<close>: an error of the command becomes its completion code.
\<close>

definition withCompletionCode :: "('s, bytes) act \<Rightarrow> (bytes \<Rightarrow> byte \<Rightarrow> bytes) \<Rightarrow> ('s, bytes) act" where
  "withCompletionCode h k s =
     (case h s of
        (Ret r, s') \<Rightarrow> (Ret (k r completionCodeOK), s')
      | (Fail e, s') \<Rightarrow> (Ret (k [] completionCodeCouldNotExecuteCommand), s')
      | (Panic p, s') \<Rightarrow> (Panic p, s'))"

definition ipmi_handle :: "'m Machine \<Rightarrow> ipmiMessage \<Rightarrow> ('m bmc, bytes) act" where
  "ipmi_handle M message =
     (let netFunction = drop_bit 2 (m_TargetLun message AND 0xFC)
      in if netFunction = ipmiNetFNApp then
           withCompletionCode (handleIPMIApp message)
             (\<lambda>r. appendIPMIMessageHeader message r (ipmiNetFNApp OR ipmiNetFNResponse))
         else if netFunction = ipmiNetFNChassis then
           withCompletionCode (handleIPMIChassis M message)
             (\<lambda>r. appendIPMIMessageHeader message r (ipmiNetFNChassis OR ipmiNetFNResponse))
         else failA (ErrNew (''unsupported NetFunction: '' @ fmt_x netFunction)))"

subsection \<open>Specification notions\<close>

text \<open>The network function of a message, and the session a message asks to close, if any.\<close>

definition netFunction :: "ipmiMessage \<Rightarrow> byte" where
  "netFunction msg = drop_bit 2 (m_TargetLun msg AND 0xFC)"

definition closes_session :: "ipmiMessage \<Rightarrow> u32 option" where
  "closes_session msg =
     (if netFunction msg = ipmiNetFNApp \<and> m_Command msg = ipmiCmdCloseSession \<and> 4 \<le> length (m_Data msg)
      then Some (of_le32 (take 4 (m_Data msg))) else None)"

text \<open>No method of the machine panics.\<close>

definition machine_no_panic :: "'m Machine \<Rightarrow> bool" where
  "machine_no_panic M \<longleftrightarrow> (\<forall>m. no_panic (PowerStatus_m M m) \<and> no_panic (PowerOn_m M m) \<and> no_panic (PowerOff_m M m))"

text \<open>
  What a chassis control request means for a machine that is on or off: whether it is
  accepted, and the power state after it. Codes that are not power requests are accepted
  and do nothing.
\<close>

fun control_spec :: "byte \<Rightarrow> bool \<Rightarrow> bool \<times> bool" where
  "control_spec c p =
     (if c = chassisControlPowerDown then (if p then (True, False) else (False, False))
      else if c = chassisControlPowerUp then (if p then (False, True) else (True, True))
      else if c = chassisControlPowerCycle \<or> c = chassisControlHardReset then (p, p)
      else (True, p))"

subsection \<open>Checksums\<close>

lemma ucast_add_byte: "ucast ((a :: u32) + b) = (ucast a + ucast b :: byte)"
proof -
  have "take_bit 8 (uint (a + b)) = take_bit 8 (uint a + uint b)"
    by (simp add: uint_word_ariths take_bit_eq_mod mod_mod_cancel)
  then have "(word_of_int (uint (a + b)) :: byte) = word_of_int (uint a + uint b)"
    by (subst word_of_int_eq_iff) simp
  then show ?thesis by (simp only: ucast_eq of_int_add)
qed

lemma ucast_and_ff: "ucast ((a :: u32) AND 0xff) = (ucast a :: byte)"
  by (rule bit_word_eqI) (auto simp: bit_ucast_iff bit_and_iff less_Suc_eq numeral_eq_Suc)

lemma checksum_byte_neg: "checksum_byte s = - ucast s"
proof -
  have "checksum_byte s + ucast s = checksum_byte s + ucast (s AND 0xff)"
    by (simp add: ucast_and_ff)
  also have "\<dots> = ucast (0x100 - (s AND 0xff) + (s AND 0xff))"
    by (simp only: checksum_byte_def ucast_add_byte)
  also have "\<dots> = ucast (0x100 :: u32)" by (simp only: diff_add_cancel)
  also have "\<dots> = 0" by code_simp
  finally show ?thesis by (simp add: eq_neg_iff_add_eq_0)
qed

lemma ucast_up_down: "ucast (ucast (b :: byte) :: u32) = b"
  by (rule bit_word_eqI) (auto simp: bit_ucast_iff dest: bit_imp_le_length)

lemma ucast_sum_u32: "ucast (sum_u32 a bs) = (ucast a + sum_list bs :: byte)"
  by (induction a bs rule: sum_u32.induct) (simp_all add: ucast_add_byte ucast_up_down add.assoc)


subsection \<open>Message format\<close>

lemma isNetFunctionResponse_bit: "isNetFunctionResponse x \<longleftrightarrow> bit x 2"
proof -
  have "drop_bit 2 x AND 1 = (of_bool (bit x 2) :: byte)"
    by (rule bit_word_eqI) (auto simp: bit_and_iff bit_drop_bit_eq bit_1_iff numeral_2_eq_2 intro: gr0I)
  then show ?thesis by (simp add: isNetFunctionResponse_def ipmiNetFNResponse_def)
qed

lemma response_TargetLun: "bit netfn 0 \<Longrightarrow> isNetFunctionResponse ((l AND 0x03) OR push_bit 2 netfn)"
  by (simp add: isNetFunctionResponse_bit bit_or_iff bit_and_iff bit_push_bit_iff)

text \<open>The bytes of a response: addresses swapped, the request's sequence number and command kept.\<close>

lemma appendIPMIMessageHeader_bytes:
  assumes "bit netfn 0"
  shows "appendIPMIMessageHeader req data netfn code =
    [m_SourceAddress req, (m_SourceLun req AND 0x03) OR push_bit 2 netfn,
     - (m_SourceAddress req + ((m_SourceLun req AND 0x03) OR push_bit 2 netfn)),
     m_TargetAddress req, (m_SourceLun req AND 0xfc) OR (m_TargetLun req AND 0x03), m_Command req, code]
    @ data @
    [- (m_TargetAddress req + ((m_SourceLun req AND 0xfc) OR (m_TargetLun req AND 0x03))
        + m_Command req + code + sum_list data)]"
  using response_TargetLun [OF assms, of "m_SourceLun req"]
  by (simp add: appendIPMIMessageHeader_def serializeIPMI_def serializeIPMIMessage_def
      buildResponseMessageTemplate_def Let_def checksum_byte_neg ucast_add_byte ucast_sum_u32
      ucast_up_down add.assoc del: push_bit_numeral)

lemma length_appendIPMIMessageHeader:
  "bit netfn 0 \<Longrightarrow> length (appendIPMIMessageHeader req data netfn code) = 8 + length data"
  by (simp add: appendIPMIMessageHeader_bytes)

lemma deserialize_request:
  "deserializeIPMIMessage ([ta, tlun, ck, sa, sl, cmd] @ data @ [dck] @ rest) (7 + length data) =
     Ret (\<lparr>m_TargetAddress = ta, m_TargetLun = tlun, m_Checksum = ck, m_SourceAddress = sa,
       m_SourceLun = sl, m_Command = cmd, m_CompletionCode = 0, m_Data = data, m_DataChecksum = dck\<rparr>, rest)"
  by (cases "data = []") (simp_all add: deserializeIPMIMessage_def ipmiMessageHeaderLength_def)

lemma appendIPMIMessageHeader_checksums:
  assumes "bit netfn 0"
  shows "sum_list (take 3 (appendIPMIMessageHeader req data netfn code)) = 0 \<and>
         sum_list (drop 3 (appendIPMIMessageHeader req data netfn code)) = 0"
  by (simp add: appendIPMIMessageHeader_bytes [OF assms] numeral_3_eq_3 add.assoc)

subsection \<open>What the handlers change\<close>

lemma withCompletionCode_snd [simp]: "snd (withCompletionCode h k s) = snd (h s)"
  by (simp add: withCompletionCode_def split: prod.splits res.splits)

lemma withCompletionCode_Ret:
  "h s = (Ret r, s') \<Longrightarrow> withCompletionCode h k s = (Ret (k r completionCodeOK), s')"
  "h s = (Fail e, s') \<Longrightarrow> withCompletionCode h k s = (Ret (k [] completionCodeCouldNotExecuteCommand), s')"
  by (simp_all add: withCompletionCode_def)

lemma withCompletionCode_no_panic: "no_panic (h s) \<Longrightarrow> no_panic (withCompletionCode h k s)"
  by (auto simp: withCompletionCode_def no_panic_def split: prod.splits res.splits)

lemma keeps_on_mach_sessions: "keeps (\<lambda>s. sessions s = x \<and> entropy s = g) (on_mach f)"
  by (simp add: keeps_def)

lemma handleIPMIChassis_frame: "keeps (\<lambda>s. sessions s = x \<and> entropy s = g) (handleIPMIChassis M msg)"
  unfolding handleIPMIChassis_def handleIPMIGetChassisStatus_def handleIPMIChassisControl_def
  by (auto intro!: keeps_bindA keeps_on_mach_sessions keeps_if split: prod.splits)

lemma handleIPMIApp_sessions:
  "snd (handleIPMIApp msg s) =
     (if m_Command msg = ipmiCmdCloseSession \<and> 4 \<le> length (m_Data msg)
      then removeRMCPPlusSession (of_le32 (take 4 (m_Data msg))) s else s)"
  by (auto simp: handleIPMIApp_def handleIPMICloseSession_def rd_u32_def readFull_def bindA_def act_defs
      ipmiCmdGetChannelAuthCapabilities_def ipmiCmdSetSessionPrivilege_def ipmiCmdCloseSession_def)

lemma ipmi_handle_app: "netFunction msg = ipmiNetFNApp \<Longrightarrow> ipmi_handle M msg =
   withCompletionCode (handleIPMIApp msg) (\<lambda>r. appendIPMIMessageHeader msg r (ipmiNetFNApp OR ipmiNetFNResponse))"
  by (simp add: ipmi_handle_def netFunction_def)

lemma ipmi_handle_chassis: "netFunction msg = ipmiNetFNChassis \<Longrightarrow> ipmi_handle M msg =
   withCompletionCode (handleIPMIChassis M msg) (\<lambda>r. appendIPMIMessageHeader msg r (ipmiNetFNChassis OR ipmiNetFNResponse))"
  by (simp add: ipmi_handle_def netFunction_def ipmiNetFNApp_def ipmiNetFNChassis_def)

lemma ipmi_handle_other: "netFunction msg \<noteq> ipmiNetFNApp \<Longrightarrow> netFunction msg \<noteq> ipmiNetFNChassis \<Longrightarrow>
   ipmi_handle M msg s = (Fail (ErrNew (''unsupported NetFunction: '' @ fmt_x (netFunction msg))), s)"
  by (simp add: ipmi_handle_def netFunction_def failA_def)

lemma ipmi_handle_sessions:
  "sessions (snd (ipmi_handle M msg s)) =
     (case closes_session msg of None \<Rightarrow> sessions s | Some i \<Rightarrow> (sessions s)(i := None))"
proof -
  consider "netFunction msg = ipmiNetFNApp" | "netFunction msg = ipmiNetFNChassis"
    | "netFunction msg \<noteq> ipmiNetFNApp" "netFunction msg \<noteq> ipmiNetFNChassis" by blast
  then show ?thesis
  proof cases
    case 1
    then show ?thesis by (simp add: ipmi_handle_app closes_session_def handleIPMIApp_sessions)
  next
    case 2
    have "sessions (snd (handleIPMIChassis M msg s)) = sessions s"
      using handleIPMIChassis_frame [of "sessions s" "entropy s" M msg] by (simp add: keeps_def)
    with 2 show ?thesis
      by (simp add: ipmi_handle_chassis closes_session_def ipmiNetFNApp_def ipmiNetFNChassis_def)
  next
    case 3
    then show ?thesis by (simp add: ipmi_handle_other closes_session_def)
  qed
qed

lemma ipmi_handle_entropy: "entropy (snd (ipmi_handle M msg s)) = entropy s"
proof -
  have "entropy (snd (handleIPMIChassis M msg s)) = entropy s"
    using handleIPMIChassis_frame [of "sessions s" "entropy s" M msg] by (simp add: keeps_def)
  then show ?thesis
    by (simp add: ipmi_handle_def Let_def failA_def handleIPMIApp_sessions)
qed

lemma ipmi_handle_app_mach: "netFunction msg \<noteq> ipmiNetFNChassis \<Longrightarrow> mach (snd (ipmi_handle M msg s)) = mach s"
  by (cases "netFunction msg = ipmiNetFNApp")
    (simp_all add: ipmi_handle_app ipmi_handle_other handleIPMIApp_sessions)

lemma no_panic_on_mach: "no_panic (f (mach s)) \<Longrightarrow> no_panic (on_mach f s)"
  by (cases "f (mach s)") (simp add: on_mach_def no_panic_def)

lemma no_panic_liftA: "(\<And>p. r \<noteq> Panic p) \<Longrightarrow> no_panic (liftA r s)"
  by (simp add: no_panic_def liftA_def)

lemma ipmi_handle_no_panic: 
  assumes "machine_no_panic M"
  shows "no_panic (ipmi_handle M msg s)"
proof -
  have M: "no_panic (on_mach (PowerStatus_m M) s)" "no_panic (on_mach (PowerOn_m M) s)"
    "no_panic (on_mach (PowerOff_m M) s)" for s
    using assms by (auto simp: machine_no_panic_def intro: no_panic_on_mach)
  have "no_panic (handleIPMIChassis M msg s)"
    unfolding handleIPMIChassis_def handleIPMIGetChassisStatus_def handleIPMIChassisControl_def
    by (auto intro!: no_panic_bindA M no_panic_liftA split: prod.splits)
  moreover have "no_panic (handleIPMIApp msg s)"
    unfolding handleIPMIApp_def handleIPMICloseSession_def handleIPMIAuthenticationCapabilities_def
      handleIPMISetSessionPrivilegeLevel_def
    by (auto intro!: no_panic_bindA no_panic_liftA simp: bindR_eq_Panic modifyA_def split: prod.splits)
  ultimately show ?thesis
    by (auto simp: ipmi_handle_def Let_def intro!: withCompletionCode_no_panic)
qed

subsection \<open>Power control over a machine that keeps its contract\<close>

lemmas chassis_consts = chassisControlPowerDown_def chassisControlPowerUp_def
  chassisControlPowerCycle_def chassisControlHardReset_def ipmiCmdGetChassisStatus_def
  ipmiCmdChassisControl_def ipmiNetFNChassis_def ipmiNetFNApp_def

context machine
begin

lemma on_mach_status:
  assumes "ready (mach s)"
  shows "\<exists>s'. bindA (on_mach (PowerStatus_m ops)) f s =
      f (if powered (mach s) then PowerStatusOn else PowerStatusOff) s'
    \<and> ready (mach s') \<and> powered (mach s') = powered (mach s) \<and> sessions s' = sessions s"
proof -
  obtain m' where m: "PowerStatus_m ops (mach s) =
      (Ret (if powered (mach s) then PowerStatusOn else PowerStatusOff), m')"
    "ready m'" "powered m' = powered (mach s)"
    using status_law [OF assms] by blast
  then show ?thesis
    by (intro exI [of _ "s\<lparr>mach := m'\<rparr>"]) (simp add: bindA_def on_mach_def)
qed

lemma on_mach_on:
  "ready (mach s) \<Longrightarrow> \<not> powered (mach s) \<Longrightarrow> \<exists>s'. on_mach (PowerOn_m ops) s = (Ret (), s')
    \<and> ready (mach s') \<and> powered (mach s') \<and> sessions s' = sessions s"
  using on_law [of "mach s"] by (auto simp: on_mach_def)

lemma on_mach_off:
  "ready (mach s) \<Longrightarrow> powered (mach s) \<Longrightarrow> \<exists>s'. on_mach (PowerOff_m ops) s = (Ret (), s')
    \<and> ready (mach s') \<and> \<not> powered (mach s') \<and> sessions s' = sessions s"
  using off_law [of "mach s"] by (auto simp: on_mach_def)

lemma on_mach_cycle:
  "ready (mach s) \<Longrightarrow> powered (mach s) \<Longrightarrow>
     \<exists>s'. bindA (on_mach (PowerOff_m ops)) (\<lambda>_. on_mach (PowerOn_m ops)) s = (Ret (), s')
       \<and> ready (mach s') \<and> powered (mach s') \<and> sessions s' = sessions s"
  using cycle [of "mach s"] by (auto simp: on_mach_def simp flip: on_mach_bind)

lemma chassis_control:
  assumes r: "ready (mach s)" and d: "m_Data msg = c # rest"
  shows "\<exists>s' e. handleIPMIChassisControl ops msg s =
      (if fst (control_spec c (powered (mach s))) then Ret () else Fail e, s')
    \<and> ready (mach s') \<and> powered (mach s') = snd (control_spec c (powered (mach s))) \<and> sessions s' = sessions s"
proof -
  let ?st = "if powered (mach s) then PowerStatusOn else PowerStatusOff"
  note st = on_mach_status [OF r]
  consider "c = 0" | "c = 1" | "c = 2 \<or> c = 3" | "c \<noteq> 0" "c \<noteq> 1" "c \<noteq> 2" "c \<noteq> 3" by blast
  then show ?thesis
  proof cases
    case 1
    then show ?thesis
      using st [of "\<lambda>p. if p = PowerStatusOff \<or> p = PowerStatusPoweringOff then failA alreadyOff
          else on_mach (PowerOff_m ops)"] on_mach_off
      by (fastforce simp: handleIPMIChassisControl_def d chassis_consts failA_def)
  next
    case 2
    then show ?thesis
      using st [of "\<lambda>p. if p = PowerStatusOn \<or> p = PowerStatusPoweringOn then failA alreadyOn
          else on_mach (PowerOn_m ops)"] on_mach_on
      by (fastforce simp: handleIPMIChassisControl_def d chassis_consts failA_def)
  next
    case 3
    then show ?thesis
      using st [of "\<lambda>p. if p = PowerStatusOff \<or> p = PowerStatusPoweringOff then failA alreadyOff
          else bindA (on_mach (PowerOff_m ops)) (\<lambda>_. on_mach (PowerOn_m ops))"] on_mach_cycle
      by (fastforce simp: handleIPMIChassisControl_def d chassis_consts failA_def)
  next
    case 4
    then show ?thesis using r
      by (auto simp: handleIPMIChassisControl_def d chassis_consts retA_def)
  qed
qed

end

declare control_spec.simps [simp del]

end
