(* ===== verification/RmcpPlus.thy ===== *)
theory RmcpPlus
  imports Aes Ipmi
begin

text \<open>
  RMCP+ sessions, \<open>v2/pkg/virtualbmc/rmcp_plus.go\<close>: the wire structures, the open-session
  exchange, the RAKP messages 1 to 4 that authenticate a session and derive its keys, and
  encrypted requests. A slice or index expression that Go would refuse at run time is a
  branch that ends in \<open>Panic\<close>. \<open>bytes.Buffer\<close> writes cannot fail and are concatenation.
\<close>

subsection \<open>Structures on the wire\<close>

definition payloadTypeRMCPPlusOpenSessionRequest :: byte where
  "payloadTypeRMCPPlusOpenSessionRequest = 0x10"
definition payloadTypeRMCPPlusOpenSessionResponse :: byte where
  "payloadTypeRMCPPlusOpenSessionResponse = 0x11"
definition payloadTypeRAKPMessage1 :: byte where "payloadTypeRAKPMessage1 = 0x12"
definition payloadTypeRAKPMessage2 :: byte where "payloadTypeRAKPMessage2 = 0x13"
definition payloadTypeRAKPMessage3 :: byte where "payloadTypeRAKPMessage3 = 0x14"
definition payloadTypeRAKPMessage4 :: byte where "payloadTypeRAKPMessage4 = 0x15"

definition authTypeRMCPPlus :: byte where "authTypeRMCPPlus = 0x06"

record rmcpPlusSessionHeader =
  h_AuthenticationType :: byte
  h_PayloadType :: byte
  h_SessionId :: u32
  h_SessionSequenceNumber :: u32
  h_IpmiPayloadLen :: u16

text \<open>\<open>binary.Write(&obuf, binary.LittleEndian, header)\<close>\<close>

definition writeSessionHeader :: "rmcpPlusSessionHeader \<Rightarrow> bytes" where
  "writeSessionHeader h =
     [h_AuthenticationType h, h_PayloadType h] @ le32 (h_SessionId h)
     @ le32 (h_SessionSequenceNumber h) @ le16 (h_IpmiPayloadLen h)"

definition deserializeRMCPPlusSessionHeader :: "bytes \<Rightarrow> byte \<Rightarrow> (rmcpPlusSessionHeader \<times> bytes) res" where
  "deserializeRMCPPlusSessionHeader buf authType =
     bindR (rd_u8 buf) (\<lambda>(pt, buf).
     bindR (rd_u32 buf) (\<lambda>(sid, buf).
     bindR (rd_u32 buf) (\<lambda>(seq, buf).
     bindR (rd_u16 buf) (\<lambda>(len, buf).
     Ret (\<lparr>h_AuthenticationType = authType, h_PayloadType = pt, h_SessionId = sid,
           h_SessionSequenceNumber = seq, h_IpmiPayloadLen = len\<rparr>, buf)))))"

record openSessionRequestPayload =
  oq_MessageTag :: byte
  oq_RequestedMaximumPrivilegeLevel :: byte
  oq_Reserved2 :: bytes
  oq_RemoteConsoleSessionId :: u32
  oq_AuthenticationPayload :: bytes
  oq_IntegrityPayload :: bytes
  oq_ConfidentialityPayload :: bytes

text \<open>
  The three algorithm proposals of the request (type, reserved bytes, length, algorithm,
  reserved bytes) are eight bytes each; the handler does not look at them.
\<close>

definition deserializeOpenSessionRequestPayload :: "bytes \<Rightarrow> (openSessionRequestPayload \<times> bytes) res" where
  "deserializeOpenSessionRequestPayload buf =
     bindR (readFull 32 buf) (\<lambda>(b, buf).
     Ret (\<lparr>oq_MessageTag = b ! 0, oq_RequestedMaximumPrivilegeLevel = b ! 1, oq_Reserved2 = slice 2 2 b,
           oq_RemoteConsoleSessionId = of_le32 (slice 4 4 b),
           oq_AuthenticationPayload = slice 8 8 b, oq_IntegrityPayload = slice 16 8 b,
           oq_ConfidentialityPayload = slice 24 8 b\<rparr>, buf))"

record rakpMessage1Request =
  r1_MessageTag :: byte
  r1_Reserved1 :: bytes
  r1_ManagedSystemSessionId :: u32
  r1_RemoteConsoleRandomNumber :: bytes
  r1_RequestedMaximumPrivilegeLevelAndNameOnlyLookup :: byte
  r1_Reserved3 :: bytes
  r1_UserNameLength :: byte
  r1_UserName :: bytes

definition deserializeRAKPMessage1RequestPayload :: "bytes \<Rightarrow> (rakpMessage1Request \<times> bytes) res" where
  "deserializeRAKPMessage1RequestPayload buf =
     bindR (readFull 48 buf) (\<lambda>(b, buf).
     Ret (\<lparr>r1_MessageTag = b ! 0, r1_Reserved1 = slice 1 3 b,
           r1_ManagedSystemSessionId = of_le32 (slice 4 4 b),
           r1_RemoteConsoleRandomNumber = slice 8 16 b,
           r1_RequestedMaximumPrivilegeLevelAndNameOnlyLookup = b ! 24, r1_Reserved3 = slice 25 2 b,
           r1_UserNameLength = b ! 27, r1_UserName = slice 28 20 b\<rparr>, buf))"

record rakpMessage3Request =
  r3_MessageTag :: byte
  r3_RmcpPlusStatusCode :: byte
  r3_Reserved1 :: bytes
  r3_ManagedSystemSessionId :: u32
  r3_KeyExchangeAuthenticationCode :: bytes

definition deserializeRAKPMessage3RequestPayload :: "bytes \<Rightarrow> (rakpMessage3Request \<times> bytes) res" where
  "deserializeRAKPMessage3RequestPayload buf =
     bindR (readFull 28 buf) (\<lambda>(b, buf).
     Ret (\<lparr>r3_MessageTag = b ! 0, r3_RmcpPlusStatusCode = b ! 1, r3_Reserved1 = slice 2 2 b,
           r3_ManagedSystemSessionId = of_le32 (slice 4 4 b),
           r3_KeyExchangeAuthenticationCode = slice 8 20 b\<rparr>, buf))"

text \<open>
  The response payloads. The open-session response: tag, status, privilege level
  administrator, reserved byte, the two session identifiers, and the algorithms
  RAKP-HMAC-SHA1, HMAC-SHA1-96 and AES-CBC-128, each in its eight-byte record.
\<close>

definition openSessionResponsePayload :: "byte \<Rightarrow> u32 \<Rightarrow> u32 \<Rightarrow> bytes" where
  "openSessionResponsePayload tag remoteConsoleSessionId managedSystemSessionId =
     [tag, 0x00, 0x04, 0] @ le32 remoteConsoleSessionId @ le32 managedSystemSessionId
     @ [0x00, 0, 0, 0x08, 0x01, 0, 0, 0]
     @ [0x01, 0, 0, 0x08, 0x01, 0, 0, 0]
     @ [0x02, 0, 0, 0x08, 0x01, 0, 0, 0]"

definition rakpMessage2Response :: "byte \<Rightarrow> u32 \<Rightarrow> bytes \<Rightarrow> bytes \<Rightarrow> bytes \<Rightarrow> bytes" where
  "rakpMessage2Response tag remoteConsoleSessionId rnd guid authCode =
     [tag, 0x00, 0, 0] @ le32 remoteConsoleSessionId @ rnd @ guid @ authCode"

definition rakpMessage4Response :: "byte \<Rightarrow> u32 \<Rightarrow> bytes \<Rightarrow> bytes" where
  "rakpMessage4Response tag remoteConsoleSessionId checkValue =
     [tag, 0x00, 0, 0] @ le32 remoteConsoleSessionId @ checkValue"

definition ipmiSessionTrailer :: bytes where
  "ipmiSessionTrailer = [0xff, 0xff, 0x02, 0x07]"

subsection \<open>Random numbers\<close>

text \<open>
  Sixteen random bytes are read and encoded as 32 hexadecimal digits, of which the first
  sixteen are the result.
\<close>

definition generateRandomNumber :: "(rng, bytes) act" where
  "generateRandomNumber = bindA (rand_read 16) (\<lambda>b. retA (take 16 (bytes_of_string (hex_string b))))"

subsection \<open>Authentication codes and keys\<close>

definition generateAuthCode ::
  "u32 \<Rightarrow> u32 \<Rightarrow> bytes \<Rightarrow> bytes \<Rightarrow> bytes \<Rightarrow> byte \<Rightarrow> byte \<Rightarrow> bytes \<Rightarrow> string \<Rightarrow> bytes" where
  "generateAuthCode remoteConsoleSessionId managedSystemSessionId remoteConsoleRandomNumber
     managedSystemRandomNumber managedSystemGuid requestedPrivilegeLevel usernameLength userName password =
     hmac_sha1 (bytes_of_string password)
       (le32 remoteConsoleSessionId @ le32 managedSystemSessionId @ remoteConsoleRandomNumber
        @ managedSystemRandomNumber @ managedSystemGuid
        @ [requestedPrivilegeLevel, usernameLength] @ userName)"

definition authCodeData :: "rmcpPlusSession \<Rightarrow> bytes" where
  "authCodeData session =
     s_ManagedSystemRandomNumber session @ le32 (s_RemoteConsoleSessionId session)
     @ [s_RequestedPrivilegeLevel session, s_UserNameLength session] @ s_UserName session"

definition validateAuthCode :: "bytes \<Rightarrow> rmcpPlusSession \<Rightarrow> string \<Rightarrow> bool" where
  "validateAuthCode authCode session password \<longleftrightarrow>
     authCode = hmac_sha1 (bytes_of_string password) (authCodeData session)"

definition generateSessionIntegrityKey :: "rmcpPlusSession \<Rightarrow> string \<Rightarrow> bytes" where
  "generateSessionIntegrityKey session password =
     hmac_sha1 (bytes_of_string password)
       (s_RemoteConsoleRandomNumber session @ s_ManagedSystemRandomNumber session
        @ [s_RequestedPrivilegeLevel session, s_UserNameLength session] @ s_UserName session)"

definition generateAdditionalKeyingMaterials :: "bytes \<Rightarrow> byte \<Rightarrow> bytes" where
  "generateAdditionalKeyingMaterials sessionIntegrityKey b =
     hmac_sha1 sessionIntegrityKey (replicate 20 b)"

definition generateK1 :: "bytes \<Rightarrow> bytes" where
  "generateK1 sik = generateAdditionalKeyingMaterials sik 0x01"

definition generateK2 :: "bytes \<Rightarrow> bytes" where
  "generateK2 sik = generateAdditionalKeyingMaterials sik 0x02"

definition generateSessionIntegrityCheckValue :: "rmcpPlusSession \<Rightarrow> bytes \<Rightarrow> bytes" where
  "generateSessionIntegrityCheckValue session sik =
     take 12 (hmac_sha1 sik
       (s_RemoteConsoleRandomNumber session @ le32 (s_ManagedSystemSessionId session)
        @ s_ManagedSystemGuid session))"

definition generateIntegrityData :: "bytes \<Rightarrow> bytes \<Rightarrow> bytes" where
  "generateIntegrityData data integrityKey = take 12 (hmac_sha1 integrityKey data)"

subsection \<open>Encryption\<close>

definition aesBlockSize :: nat where "aesBlockSize = 16"

text \<open>The bound of the last slice is computed in \<open>uint8\<close>: \<open>aes.BlockSize-(padLength+1)\<close>.\<close>

definition decryptByCBCMode :: "bytes \<Rightarrow> bytes \<Rightarrow> bytes res" where
  "decryptByCBCMode key payload =
     (if length payload < aesBlockSize then Fail (ErrNew ''payload must be longer that block size'')
      else if length payload mod aesBlockSize \<noteq> 0 then
        Fail (ErrNew ''payload must be multiple of block size'')
      else if length key < aesBlockSize then Panic ''slice bounds out of range''
      else
        let iv = take aesBlockSize payload;
            plain = cbc_decrypt (take aesBlockSize key) iv (drop aesBlockSize payload)
        in if plain = [] then Panic ''index out of range [-1]''
           else
             let bound = unat (16 - (last plain + 1))
             in if length plain < bound then Panic ''slice bounds out of range''
                else Ret (take bound plain))"

definition padPKCS7 :: "bytes \<Rightarrow> bytes" where
  "padPKCS7 data =
     (let padSize = aesBlockSize - length data mod aesBlockSize;
          pad = map (\<lambda>i. of_nat (i + 1)) [0..<padSize]
      in data @ pad[padSize - 1 := of_nat (padSize - 1)])"

text \<open>
  The destination of \<open>CryptBlocks\<close> is one block; \<open>CryptBlocks\<close> panics when the output is
  smaller than the input.
\<close>

definition encryptByCBCMode :: "bytes \<Rightarrow> bytes \<Rightarrow> (rng, bytes) act" where
  "encryptByCBCMode key plain =
     (if length key < aesBlockSize then panicA ''slice bounds out of range''
      else
        let paddedPlaintext = padPKCS7 plain
        in bindA generateRandomNumber (\<lambda>iv.
           if aesBlockSize < length paddedPlaintext then panicA ''crypto/cipher: output smaller than input''
           else retA (iv @ cbc_encrypt (take aesBlockSize key) iv paddedPlaintext)))"

subsection \<open>Handlers\<close>

text \<open>
  The struct \<open>rmcpPlus\<close> holds the header, the sessions and the users; here the header and
  the users are arguments and the sessions are in the state. A handler that keeps a pointer
  to a session reads it once and writes its fields back with \<open>putSession\<close>.
\<close>

definition newRMCPPlus :: "bytes \<Rightarrow> byte \<Rightarrow> (rmcpPlusSessionHeader \<times> bytes) res" where
  "newRMCPPlus buf authType = deserializeRMCPPlusSessionHeader buf authType"

definition notActivated :: err where "notActivated = ErrNew ''session hasn't been activated''"
definition userNotFound :: err where "userNotFound = ErrNew ''user not found''"
definition authenticationFailed :: err where "authenticationFailed = ErrNew ''authentication failed''"

definition handshakeHeader :: "byte \<Rightarrow> u16 \<Rightarrow> rmcpPlusSessionHeader" where
  "handshakeHeader payloadType len =
     \<lparr>h_AuthenticationType = authTypeRMCPPlus, h_PayloadType = payloadType, h_SessionId = 0,
      h_SessionSequenceNumber = 0, h_IpmiPayloadLen = len\<rparr>"

definition handleOpenSessionRequest :: "bytes \<Rightarrow> ('m bmc, bytes) act" where
  "handleOpenSessionRequest buf =
     bindA (liftA (deserializeOpenSessionRequestPayload buf)) (\<lambda>(payload, _).
     let obuf = writeSessionHeader (handshakeHeader payloadTypeRMCPPlusOpenSessionResponse 36) in
     bindA (getNewRMCPPlusSession (oq_RemoteConsoleSessionId payload)) (\<lambda>session.
     retA (obuf @ openSessionResponsePayload (oq_MessageTag payload)
             (oq_RemoteConsoleSessionId payload) (s_ManagedSystemSessionId session))))"

definition handleRAKPMessage1Request :: "bmcUserHolder \<Rightarrow> bytes \<Rightarrow> ('m bmc, bytes) act" where
  "handleRAKPMessage1Request users buf =
     bindA (liftA (deserializeRAKPMessage1RequestPayload buf)) (\<lambda>(payload, _).
     bindA (getRMCPPlusSession (r1_ManagedSystemSessionId payload)) (\<lambda>found.
     bindA (someA notActivated found) (\<lambda>session.
     let obuf = writeSessionHeader (handshakeHeader payloadTypeRAKPMessage2 60) in
     bindA (if length (r1_UserName payload) < unat (r1_UserNameLength payload)
            then panicA ''slice bounds out of range''
            else retA (take (unat (r1_UserNameLength payload)) (r1_UserName payload))) (\<lambda>userName.
     bindA (someA userNotFound (getBMCUser users (string_of_bytes userName))) (\<lambda>user.
     bindA (on_entropy generateRandomNumber) (\<lambda>managedSystemRandomNumber.
     bindA (on_entropy generateRandomNumber) (\<lambda>managedSystemGuid.
     let session = session
           \<lparr>s_RemoteConsoleRandomNumber := r1_RemoteConsoleRandomNumber payload,
            s_ManagedSystemRandomNumber := managedSystemRandomNumber,
            s_ManagedSystemGuid := managedSystemGuid,
            s_RequestedPrivilegeLevel := r1_RequestedMaximumPrivilegeLevelAndNameOnlyLookup payload,
            s_UserNameLength := r1_UserNameLength payload,
            s_UserName := userName\<rparr> in
     bindA (modifyA (putSession (r1_ManagedSystemSessionId payload) session)) (\<lambda>_.
     let authCode = generateAuthCode (s_RemoteConsoleSessionId session) (s_ManagedSystemSessionId session)
           (r1_RemoteConsoleRandomNumber payload) managedSystemRandomNumber managedSystemGuid
           (r1_RequestedMaximumPrivilegeLevelAndNameOnlyLookup payload) (r1_UserNameLength payload)
           userName (u_Password user) in
     retA (obuf @ rakpMessage2Response (r1_MessageTag payload) (s_RemoteConsoleSessionId session)
             managedSystemRandomNumber managedSystemGuid authCode)))))))))"

definition handleRAKPMessage3Request :: "bmcUserHolder \<Rightarrow> bytes \<Rightarrow> ('m bmc, bytes) act" where
  "handleRAKPMessage3Request users buf =
     bindA (liftA (deserializeRAKPMessage3RequestPayload buf)) (\<lambda>(payload, _).
     bindA (getRMCPPlusSession (r3_ManagedSystemSessionId payload)) (\<lambda>found.
     bindA (someA notActivated found) (\<lambda>session.
     bindA (someA userNotFound (getBMCUser users (string_of_bytes (s_UserName session)))) (\<lambda>user.
     if \<not> validateAuthCode (r3_KeyExchangeAuthenticationCode payload) session (u_Password user)
     then failA authenticationFailed
     else
       let obuf = writeSessionHeader (handshakeHeader payloadTypeRAKPMessage4 20);
           sik = generateSessionIntegrityKey session (u_Password user);
           session = session
             \<lparr>s_SessionIntegrityKey := sik, s_IntegrityKey := generateK1 sik,
              s_ConfidentialityKey := generateK2 sik\<rparr> in
       bindA (modifyA (putSession (r3_ManagedSystemSessionId payload) session)) (\<lambda>_.
       retA (obuf @ rakpMessage4Response (r3_MessageTag payload) (s_RemoteConsoleSessionId session)
               (generateSessionIntegrityCheckValue session sik)))))))"

definition encryptedHeader :: "u32 \<Rightarrow> u32 \<Rightarrow> bytes \<Rightarrow> rmcpPlusSessionHeader" where
  "encryptedHeader sessionId sequenceNumber ciphered =
     \<lparr>h_AuthenticationType = authTypeRMCPPlus, h_PayloadType = 0xc0, h_SessionId = sessionId,
      h_SessionSequenceNumber = sequenceNumber, h_IpmiPayloadLen = of_nat (length ciphered)\<rparr>"

definition handleEncryptedRequest ::
  "'m Machine \<Rightarrow> bmcUserHolder \<Rightarrow> rmcpPlusSessionHeader \<Rightarrow> bytes \<Rightarrow> ('m bmc, bytes) act" where
  "handleEncryptedRequest M users header buf =
     bindA (getRMCPPlusSession (h_SessionId header)) (\<lambda>found.
     bindA (someA notActivated found) (\<lambda>session.
     bindA (someA userNotFound (getBMCUser users (string_of_bytes (s_UserName session)))) (\<lambda>_.
     bindA (liftA (readFull (unat (h_IpmiPayloadLen header)) buf)) (\<lambda>(payload, _).
     bindA (liftA (decryptByCBCMode (s_ConfidentialityKey session) payload)) (\<lambda>plain.
     bindA (liftA (newIPMI plain (length plain))) (\<lambda>message.
     bindA (ipmi_handle M message) (\<lambda>ipmiResponse.
     bindA (on_entropy (encryptByCBCMode (s_ConfidentialityKey session) ipmiResponse)) (\<lambda>ciphered.
     let ret = writeSessionHeader (encryptedHeader (s_RemoteConsoleSessionId session)
                 (h_SessionSequenceNumber header) ciphered) @ ciphered @ ipmiSessionTrailer
     in retA (ret @ generateIntegrityData ret (s_IntegrityKey session))))))))))"

definition rmcpPlus_handle ::
  "'m Machine \<Rightarrow> bmcUserHolder \<Rightarrow> rmcpPlusSessionHeader \<Rightarrow> bytes \<Rightarrow> ('m bmc, bytes) act" where
  "rmcpPlus_handle M users header buf =
     (let payloadType = h_PayloadType header AND 0x3f;
          authenticated = drop_bit 6 (h_PayloadType header AND 0x40);
          encrypted = drop_bit 7 (h_PayloadType header AND 0x80)
      in if authenticated = 1 \<and> encrypted = 1 then handleEncryptedRequest M users header buf
         else if payloadType = payloadTypeRMCPPlusOpenSessionRequest then handleOpenSessionRequest buf
         else if payloadType = payloadTypeRAKPMessage1 then handleRAKPMessage1Request users buf
         else if payloadType = payloadTypeRAKPMessage3 then handleRAKPMessage3Request users buf
         else failA (ErrNew ''unsupported payload type''))"

subsection \<open>The session header\<close>

interpretation hdr: codec 11 "\<lambda>h. h_AuthenticationType h = a" "\<lambda>h. tl (writeSessionHeader h)"
  "\<lambda>bs. deserializeRMCPPlusSessionHeader bs a" for a
proof (unfold_locales, goal_cases)
  case (4 bs x rest)
  then show ?case
    by (auto simp: deserializeRMCPPlusSessionHeader_def writeSessionHeader_def bindR_eq_Ret
        rd_u8_eq_Ret rd_u16_eq_Ret rd_u32_eq_Ret)
next
  case (5 bs)
  then have "length (drop 10 bs) = length bs - 10" "length bs \<ge> 11" by auto
  then show ?case
    by (cases bs) (auto simp: deserializeRMCPPlusSessionHeader_def rd_u32_def rd_u16_def readFull_Ret)
next
  case (6 bs p)
  then show ?case by (auto simp: deserializeRMCPPlusSessionHeader_def bindR_eq_Panic)
qed (simp_all add: deserializeRMCPPlusSessionHeader_def writeSessionHeader_def)

lemma writeSessionHeader_length [simp]: "length (writeSessionHeader h) = 12"
  by (simp add: writeSessionHeader_def)

lemma writeSessionHeader_Cons: "writeSessionHeader h = h_AuthenticationType h # tl (writeSessionHeader h)"
  by (simp add: writeSessionHeader_def)

lemma newRMCPPlus_writeSessionHeader:
  "newRMCPPlus (tl (writeSessionHeader h) @ rest) (h_AuthenticationType h) = Ret (h, rest)"
  by (simp add: newRMCPPlus_def hdr.dec_enc)

subsection \<open>Random numbers\<close>

lemma generateRandomNumber_Some:
  "generateRandomNumber (Some bs # g) =
     (Ret (take 16 (bytes_of_string (hex_string (take 16 (bs @ replicate 16 0))))), g)"
  by (simp add: generateRandomNumber_def bindA_def retA_def)

lemma generateRandomNumber_length [simp]: "generateRandomNumber g = (Ret b, g') \<Longrightarrow> length b = 16"
  by (auto simp: generateRandomNumber_def bindA_eq_Ret retA_def dest: rand_read_length)

lemma generateRandomNumber_no_panic [simp]: "no_panic (generateRandomNumber g)"
  unfolding generateRandomNumber_def
  by (rule no_panic_bindA) (simp_all add: no_panic_def rand_read_no_panic retA_def)

lemma hex_string_append: "hex_string (a @ b) = hex_string a @ hex_string b"
  by (simp add: hex_string_def)

lemma bytes_of_string_take: "take n (bytes_of_string s) = bytes_of_string (take n s)"
  by (simp add: bytes_of_string_def take_map)

lemma generateRandomNumber_half:
  assumes "length bs = 16"
  shows "generateRandomNumber (Some bs # g) = (Ret (bytes_of_string (hex_string (take 8 bs))), g)"
proof -
  have "hex_string bs = hex_string (take 8 bs) @ hex_string (drop 8 bs)"
    by (simp flip: hex_string_append)
  then show ?thesis using assms by (simp add: generateRandomNumber_Some bytes_of_string_take)
qed

subsection \<open>Encryption and decryption\<close>

lemma padPKCS7_short:
  assumes "length d \<le> 15"
  shows "length (padPKCS7 d) = 16" "take (length d) (padPKCS7 d) = d"
    "last (padPKCS7 d) = of_nat (15 - length d)"
proof -
  have m: "length d mod 16 = length d" using assms by simp
  show "length (padPKCS7 d) = 16" "take (length d) (padPKCS7 d) = d"
    using assms by (simp_all add: padPKCS7_def aesBlockSize_def m Let_def)
  let ?pad = "(map (\<lambda>i. of_nat (i + 1)) [0..<16 - length d])[15 - length d := of_nat (15 - length d) :: byte]"
  have "?pad \<noteq> []" using assms by simp
  moreover have "last ?pad = ?pad ! (length ?pad - 1)" using calculation by (rule last_conv_nth)
  ultimately show "last (padPKCS7 d) = of_nat (15 - length d)"
    using assms by (simp add: padPKCS7_def aesBlockSize_def m Let_def)
qed

lemma padPKCS7_long: "15 < length d \<Longrightarrow> 16 < length (padPKCS7 d)"
  by (simp add: padPKCS7_def aesBlockSize_def Let_def)

lemma pad_bound: "n \<le> 15 \<Longrightarrow> unat (of_nat n :: byte) = n"
  by (simp add: unat_of_nat take_bit_eq_mod)

lemma encryptByCBCMode_eq:
  assumes "16 \<le> length key" "length plain \<le> 15" "generateRandomNumber g = (Ret iv, g')"
  shows "encryptByCBCMode key plain g = (Ret (iv @ cbc_encrypt (take 16 key) iv (padPKCS7 plain)), g')"
  using assms by (simp add: encryptByCBCMode_def aesBlockSize_def Let_def bindA_Ret padPKCS7_short retA_def)

lemma encryptByCBCMode_overflow:
  assumes "16 \<le> length key" "15 < length plain" "generateRandomNumber g = (Ret iv, g')"
  shows "encryptByCBCMode key plain g = (Panic ''crypto/cipher: output smaller than input'', g')"
  using assms padPKCS7_long [of plain] by (simp add: encryptByCBCMode_def aesBlockSize_def Let_def bindA_Ret panicA_def)

lemma length_ciphered:
  assumes "16 \<le> length key" "length plain \<le> 15" "length iv = 16"
  shows "length (iv @ cbc_encrypt (take 16 key) iv (padPKCS7 plain)) = 32"
  using assms length_cbc_encrypt [of "take 16 key" iv "padPKCS7 plain" 1] by (simp add: padPKCS7_short)

lemma decrypt_ciphered:
  assumes "16 \<le> length key" "length plain \<le> 15" "length iv = 16"
  shows "decryptByCBCMode key (iv @ cbc_encrypt (take 16 key) iv (padPKCS7 plain)) = Ret plain"
proof -
  have p: "length (padPKCS7 plain) = 16" by (rule padPKCS7_short [OF assms(2)])
  have d: "cbc_decrypt (take 16 key) iv (cbc_encrypt (take 16 key) iv (padPKCS7 plain)) = padPKCS7 plain"
    using assms p by (intro cbc_decrypt_encrypt [of _ _ _ 1]) simp_all
  moreover have "padPKCS7 plain \<noteq> []" using p by auto
  ultimately show ?thesis
    using assms length_ciphered [OF assms] p
    by (simp add: decryptByCBCMode_def aesBlockSize_def Let_def padPKCS7_short pad_bound)
qed

lemma encryptByCBCMode_Ret:
  assumes "encryptByCBCMode key plain g = (Ret c, g')"
  shows "16 \<le> length key" "length plain \<le> 15" "length c = 32" "decryptByCBCMode key c = Ret plain"
proof -
  show k: "16 \<le> length key"
    using assms by (auto simp: encryptByCBCMode_def aesBlockSize_def panicA_def split: if_splits)
  obtain iv g1 where iv: "generateRandomNumber g = (Ret iv, g1)"
    using assms k by (auto simp: encryptByCBCMode_def aesBlockSize_def Let_def bindA_eq_Ret)
  show p: "length plain \<le> 15"
    using assms encryptByCBCMode_overflow [OF k _ iv] by (cases "length plain \<le> 15") auto
  have "c = iv @ cbc_encrypt (take 16 key) iv (padPKCS7 plain)"
    using assms encryptByCBCMode_eq [OF k p iv] by simp
  moreover have "length iv = 16" using iv by simp
  ultimately show "length c = 32" "decryptByCBCMode key c = Ret plain"
    using length_ciphered [OF k p] decrypt_ciphered [OF k p] by auto
qed

end
