(* ===== verification/Rmcp.thy ===== *)
theory Rmcp
  imports RmcpPlus
begin

text \<open>
  The outer layers of the IPMI server: the session wrapper of IPMI v1.5 and the choice
  between v1.5 and RMCP+ (\<open>v2/pkg/virtualbmc/ipmi_session.go\<close>), the RMCP header
  (\<open>rmcp.go\<close>) and the receive loop \<open>StartIPMIServer\<close> (\<open>bmc_server.go\<close>).
\<close>

subsection \<open>The session wrapper\<close>

definition authTypeNone :: byte where "authTypeNone = 0x00"

record ipmiSessionWrapper =
  w_AuthenticationType :: byte
  w_SequenceNumber :: u32
  w_SessionId :: u32
  w_AuthenticationCode :: bytes
  w_MessageLen :: byte

definition newIPMISession :: "bytes \<Rightarrow> (byte \<times> bytes) res" where
  "newIPMISession buf = wrapR ''failed to read authentication type'' (rd_u8 buf)"

definition isRMCPPlusFormat :: "byte \<Rightarrow> bool res" where
  "isRMCPPlusFormat authType =
     (if authType = authTypeRMCPPlus then Ret True
      else if authType = authTypeNone then Ret False
      else Fail (ErrNew (''unsupported authentication type '' @ fmt_d (unat authType))))"

definition deserializeIPMISessionWrapper :: "bytes \<Rightarrow> byte \<Rightarrow> (ipmiSessionWrapper \<times> bytes) res" where
  "deserializeIPMISessionWrapper buf authType =
     bindR (wrapR ''failed to read SequenceNumber'' (rd_u32 buf)) (\<lambda>(seq, buf).
     bindR (wrapR ''failed to read SessionId'' (rd_u32 buf)) (\<lambda>(sid, buf).
     bindR (if sid \<noteq> 0 then wrapR ''failed to read AuthenticationCode'' (readFull 16 buf)
            else Ret (replicate 16 0, buf)) (\<lambda>(code, buf).
     bindR (wrapR ''failed to read MessageLen'' (rd_u8 buf)) (\<lambda>(len, buf).
     Ret (\<lparr>w_AuthenticationType = authType, w_SequenceNumber = seq, w_SessionId = sid,
           w_AuthenticationCode = code, w_MessageLen = len\<rparr>, buf)))))"

definition serializeIPMISessionWrapper :: "ipmiSessionWrapper \<Rightarrow> bytes" where
  "serializeIPMISessionWrapper w =
     [w_AuthenticationType w] @ le32 (w_SequenceNumber w) @ le32 (w_SessionId w)
     @ (if w_SessionId w \<noteq> 0 then w_AuthenticationCode w else []) @ [w_MessageLen w]"

definition ipmiSession_handle ::
  "'m Machine \<Rightarrow> bmcUserHolder \<Rightarrow> byte \<Rightarrow> bytes \<Rightarrow> ('m bmc, bytes) act" where
  "ipmiSession_handle M users authType buf =
     bindA (liftA (isRMCPPlusFormat authType)) (\<lambda>rmcpPlus.
     if rmcpPlus then
       bindA (liftA (newRMCPPlus buf authType)) (\<lambda>(header, buf).
       rmcpPlus_handle M users header buf)
     else
       bindA (liftA (deserializeIPMISessionWrapper buf authType)) (\<lambda>(wrapper, buf).
       bindA (liftA (newIPMI buf (unat (w_MessageLen wrapper)))) (\<lambda>message.
       bindA (ipmi_handle M message) (\<lambda>res.
       let responseWrapper =
             \<lparr>w_AuthenticationType = authType, w_SequenceNumber = w_SequenceNumber wrapper,
              w_SessionId = w_SessionId wrapper, w_AuthenticationCode = replicate 16 0,
              w_MessageLen = of_nat (length res)\<rparr>
       in retA (serializeIPMISessionWrapper responseWrapper @ res)))))"

subsection \<open>RMCP\<close>

record remoteManagementControlProtocolHeader =
  rmcp_Version :: byte
  rmcp_Reserved :: byte
  rmcp_Sequence :: byte
  rmcp_Class :: byte

definition RmcpVersion1 :: byte where "RmcpVersion1 = 0x06"
definition RmcpClassAsf :: byte where "RmcpClassAsf = 0x06"
definition RmcpClassIpmi :: byte where "RmcpClassIpmi = 0x07"
definition RmcpClassOem :: byte where "RmcpClassOem = 0x08"

definition deserializeRMCPHeader :: "bytes \<Rightarrow> (remoteManagementControlProtocolHeader \<times> bytes) res" where
  "deserializeRMCPHeader buf =
     bindR (readFull 4 buf) (\<lambda>(b, buf).
     Ret (\<lparr>rmcp_Version = b ! 0, rmcp_Reserved = b ! 1, rmcp_Sequence = b ! 2, rmcp_Class = b ! 3\<rparr>, buf))"

definition serializeRMCP :: "remoteManagementControlProtocolHeader \<Rightarrow> bytes" where
  "serializeRMCP h = [rmcp_Version h, rmcp_Reserved h, rmcp_Sequence h, rmcp_Class h]"

definition buildUpRMCPForIPMI :: remoteManagementControlProtocolHeader where
  "buildUpRMCPForIPMI =
     \<lparr>rmcp_Version = RmcpVersion1, rmcp_Reserved = 0, rmcp_Sequence = 0xff, rmcp_Class = RmcpClassIpmi\<rparr>"

definition appendRMCPHeader :: "bytes \<Rightarrow> bytes" where
  "appendRMCPHeader response = serializeRMCP buildUpRMCPForIPMI @ response"

definition newRMCP :: "bytes \<Rightarrow> (remoteManagementControlProtocolHeader \<times> bytes) res" where
  "newRMCP buf = deserializeRMCPHeader buf"

definition rmcp_handle ::
  "'m Machine \<Rightarrow> bmcUserHolder \<Rightarrow> remoteManagementControlProtocolHeader \<Rightarrow> bytes \<Rightarrow> ('m bmc, bytes) act" where
  "rmcp_handle M users r buf =
     (if rmcp_Class r = RmcpClassIpmi then
        bindA (liftA (newIPMISession buf)) (\<lambda>(authType, buf).
        bindA (ipmiSession_handle M users authType buf) (\<lambda>res.
        retA (appendRMCPHeader res)))
      else
        let cls = (if rmcp_Class r = RmcpClassAsf then ''ASF''
                   else if rmcp_Class r = RmcpClassOem then ''OEM'' else '''')
        in failA (ErrNew (''unsupported Class: '' @ cls @ '' '' @ fmt_d (unat (rmcp_Class r)))))"

definition handleRMCPRequest :: "'m Machine \<Rightarrow> bmcUserHolder \<Rightarrow> bytes \<Rightarrow> ('m bmc, bytes) act" where
  "handleRMCPRequest M users buf =
     bindA (liftA (newRMCP buf)) (\<lambda>(rmcp, buf). rmcp_handle M users rmcp buf)"

subsection \<open>The receive loop\<close>

text \<open>
  What the packet connection delivers: a datagram with its sender, or an error that ends
  the loop. \<open>ReadFrom\<close> overwrites the front of the buffer and leaves the rest; a datagram
  longer than the buffer is cut. The loop ends with the error of \<open>ReadFrom\<close> or with a
  panic; \<open>Waiting\<close> is the loop blocked in \<open>ReadFrom\<close> when the given events are used up.
  A failure of \<open>WriteTo\<close> is only logged, so the model records what is handed to \<open>WriteTo\<close>.
\<close>

datatype 'addr packet = Datagram 'addr bytes | ReadError err

datatype exit = Waiting | Returned err | Crashed string

record 'm ipmiServer =
  srv_buf :: bytes
  srv_bmc :: "'m bmc"

definition bufSize :: nat where "bufSize = 1024"

definition recvInto :: "bytes \<Rightarrow> bytes \<Rightarrow> bytes" where
  "recvInto d buf = take (length buf) d @ drop (length d) buf"

definition startIPMIServer_init :: "rng \<Rightarrow> 'm \<Rightarrow> 'm ipmiServer" where
  "startIPMIServer_init g m =
     \<lparr>srv_buf = replicate bufSize 0,
      srv_bmc = \<lparr>sessions = newRMCPPlusSessionHolder, entropy = g, mach = m\<rparr>\<rparr>"

fun ipmiServer_loop ::
  "'m Machine \<Rightarrow> 'addr packet list \<Rightarrow> 'm ipmiServer \<Rightarrow> ('addr \<times> bytes) list \<times> exit \<times> 'm ipmiServer" where
  "ipmiServer_loop M [] v = ([], Waiting, v)"
| "ipmiServer_loop M (ReadError e # ps) v = ([], Returned e, v)"
| "ipmiServer_loop M (Datagram a d # ps) v =
     (let buf = recvInto d (srv_buf v)
      in case handleRMCPRequest M bmcUsers buf (srv_bmc v) of
           (Ret res, b) \<Rightarrow>
             (let (out, x, v') = ipmiServer_loop M ps \<lparr>srv_buf = buf, srv_bmc = b\<rparr>
              in ((a, res) # out, x, v'))
         | (Fail e, b) \<Rightarrow> ipmiServer_loop M ps \<lparr>srv_buf = buf, srv_bmc = b\<rparr>
         | (Panic p, b) \<Rightarrow> ([], Crashed p, \<lparr>srv_buf = buf, srv_bmc = b\<rparr>))"

definition StartIPMIServer ::
  "'m Machine \<Rightarrow> rng \<Rightarrow> 'm \<Rightarrow> 'addr packet list \<Rightarrow> ('addr \<times> bytes) list \<times> exit \<times> 'm ipmiServer" where
  "StartIPMIServer M g m packets = ipmiServer_loop M packets (startIPMIServer_init g m)"

end
