(* ===== verification/SessionMachine.thy ===== *)
theory SessionMachine
  imports Rmcp
begin

text \<open>
  The abstract machine of the session table and its refinement. A session is opened under
  a fresh identifier, is challenged by RAKP message 1, which binds it to a registered user
  and to fresh random numbers, is authenticated by RAKP message 3, which derives its keys
  from the user's password, and is closed by an IPMI command. Every request to the server
  is one step of this machine or leaves the table alone.
\<close>

subsection \<open>The abstract machine\<close>

datatype sess_event =
    Stay
  | Opened u32 u32
  | Challenged u32 bytes
  | Authenticated u32 bytes
  | Closed u32

definition opened_session :: "u32 \<Rightarrow> u32 \<Rightarrow> rmcpPlusSession" where
  "opened_session i rc = zeroSession\<lparr>s_ManagedSystemSessionId := i, s_RemoteConsoleSessionId := rc\<rparr>"

definition challenged_session ::
  "bytes \<Rightarrow> bytes \<Rightarrow> bytes \<Rightarrow> byte \<Rightarrow> bytes \<Rightarrow> rmcpPlusSession \<Rightarrow> rmcpPlusSession" where
  "challenged_session rrnd mrnd guid priv uname x =
     x\<lparr>s_RemoteConsoleRandomNumber := rrnd, s_ManagedSystemRandomNumber := mrnd,
       s_ManagedSystemGuid := guid, s_RequestedPrivilegeLevel := priv,
       s_UserNameLength := of_nat (length uname), s_UserName := uname\<rparr>"

definition authenticated_session :: "string \<Rightarrow> rmcpPlusSession \<Rightarrow> rmcpPlusSession" where
  "authenticated_session password x =
     (let sik = generateSessionIntegrityKey x password
      in x\<lparr>s_SessionIntegrityKey := sik, s_IntegrityKey := generateK1 sik,
           s_ConfidentialityKey := generateK2 sik\<rparr>)"

inductive session_step ::
  "bmcUserHolder \<Rightarrow> sess_event \<Rightarrow> rmcpPlusSessionHolder \<Rightarrow> rmcpPlusSessionHolder \<Rightarrow> bool"
  for users :: bmcUserHolder where
  stay: "session_step users Stay ss ss"
| open_session: "ss i = None \<Longrightarrow> session_step users (Opened i rc) ss (ss(i \<mapsto> opened_session i rc))"
| challenge:
    "ss i = Some x \<Longrightarrow> length rrnd = 16 \<Longrightarrow> length mrnd = 16 \<Longrightarrow> length guid = 16 \<Longrightarrow>
     length uname \<le> 20 \<Longrightarrow> getBMCUser users (string_of_bytes uname) \<noteq> None \<Longrightarrow>
     session_step users (Challenged i uname) ss
       (ss(i \<mapsto> challenged_session rrnd mrnd guid priv uname x))"
| authenticate:
    "ss i = Some x \<Longrightarrow> getBMCUser users (string_of_bytes (s_UserName x)) = Some u \<Longrightarrow>
     code = hmac_sha1 (bytes_of_string (u_Password u)) (authCodeData x) \<Longrightarrow>
     session_step users (Authenticated i code) ss (ss(i \<mapsto> authenticated_session (u_Password u) x))"
| close: "session_step users (Closed i) ss (ss(i := None))"

inductive_simps session_step_simps [simp]:
  "session_step users Stay ss ss'"
  "session_step users (Opened i rc) ss ss'"
  "session_step users (Challenged i uname) ss ss'"
  "session_step users (Authenticated i code) ss ss'"
  "session_step users (Closed i) ss ss'"

inductive_cases session_stepE: "session_step users e ss ss'"

text \<open>Tables reached from the empty one.\<close>

inductive reachable_table :: "bmcUserHolder \<Rightarrow> rmcpPlusSessionHolder \<Rightarrow> bool" for users where
  init: "reachable_table users newRMCPPlusSessionHolder"
| step: "reachable_table users ss \<Longrightarrow> session_step users e ss ss' \<Longrightarrow> reachable_table users ss'"

subsection \<open>Invariants of the abstract machine\<close>

definition keys_ok :: "rmcpPlusSession \<Rightarrow> bool" where
  "keys_ok x \<longleftrightarrow>
     s_SessionIntegrityKey x = [] \<and> s_IntegrityKey x = [] \<and> s_ConfidentialityKey x = [] \<or>
     length (s_SessionIntegrityKey x) = 20 \<and> s_IntegrityKey x = generateK1 (s_SessionIntegrityKey x)
       \<and> s_ConfidentialityKey x = generateK2 (s_SessionIntegrityKey x)"

definition session_ok :: "bmcUserHolder \<Rightarrow> u32 \<Rightarrow> rmcpPlusSession \<Rightarrow> bool" where
  "session_ok users i x \<longleftrightarrow>
     s_ManagedSystemSessionId x = i \<and>
     length (s_RemoteConsoleRandomNumber x) = 16 \<and> length (s_ManagedSystemRandomNumber x) = 16 \<and>
     length (s_ManagedSystemGuid x) = 16 \<and>
     length (s_UserName x) = unat (s_UserNameLength x) \<and> length (s_UserName x) \<le> 20 \<and>
     (s_UserName x = [] \<or> getBMCUser users (string_of_bytes (s_UserName x)) \<noteq> None) \<and>
     keys_ok x"

definition table_ok :: "bmcUserHolder \<Rightarrow> rmcpPlusSessionHolder \<Rightarrow> bool" where
  "table_ok users ss \<longleftrightarrow> (\<forall>i x. ss i = Some x \<longrightarrow> session_ok users i x)"

lemma generateK_length [simp]: "length (generateK1 k) = 20" "length (generateK2 k) = 20"
  "length (generateSessionIntegrityKey x p) = 20"
  by (simp_all add: generateK1_def generateK2_def generateAdditionalKeyingMaterials_def
      generateSessionIntegrityKey_def)

lemma session_ok_opened: "session_ok users i (opened_session i rc)"
  by (simp add: session_ok_def opened_session_def zeroSession_def keys_ok_def)

lemma unat_of_nat_byte: "n < 256 \<Longrightarrow> unat (of_nat n :: byte) = n"
  by (simp add: unat_of_nat take_bit_eq_mod)

lemma session_ok_challenged:
  "session_ok users i x \<Longrightarrow> length rrnd = 16 \<Longrightarrow> length mrnd = 16 \<Longrightarrow> length guid = 16 \<Longrightarrow>
   length uname \<le> 20 \<Longrightarrow> getBMCUser users (string_of_bytes uname) \<noteq> None \<Longrightarrow>
   session_ok users i (challenged_session rrnd mrnd guid priv uname x)"
  by (simp add: session_ok_def challenged_session_def keys_ok_def unat_of_nat_byte)

lemma session_ok_authenticated: "session_ok users i x \<Longrightarrow> session_ok users i (authenticated_session p x)"
  by (simp add: session_ok_def authenticated_session_def keys_ok_def Let_def)

lemma session_step_table_ok: "session_step users e ss ss' \<Longrightarrow> table_ok users ss \<Longrightarrow> table_ok users ss'"
  by (induction rule: session_step.induct)
    (auto simp: table_ok_def session_ok_opened session_ok_challenged session_ok_authenticated)

lemma table_ok_empty: "table_ok users newRMCPPlusSessionHolder"
  by (simp add: table_ok_def newRMCPPlusSessionHolder_def)

lemma reachable_table_ok: "reachable_table users ss \<Longrightarrow> table_ok users ss"
  by (induction rule: reachable_table.induct) (blast intro: table_ok_empty session_step_table_ok)+

text \<open>Keys appear, or change, only by an authentication step on that session.\<close>

definition keys :: "rmcpPlusSession option \<Rightarrow> bytes \<times> bytes \<times> bytes" where
  "keys mx = (case mx of None \<Rightarrow> ([], [], [])
     | Some x \<Rightarrow> (s_SessionIntegrityKey x, s_IntegrityKey x, s_ConfidentialityKey x))"

lemma keys_opened: "keys (Some (opened_session i rc)) = ([], [], [])"
  by (simp add: keys_def opened_session_def zeroSession_def)

lemma keys_challenged: "keys (Some (challenged_session rrnd mrnd guid priv uname x)) = keys (Some x)"
  by (simp add: keys_def challenged_session_def)

lemma session_step_keys:
  assumes "session_step users e ss ss'" "keys (ss' i) \<noteq> keys (ss i)" "keys (ss' i) \<noteq> ([], [], [])"
  shows "\<exists>x u. ss i = Some x \<and> getBMCUser users (string_of_bytes (s_UserName x)) = Some u \<and>
    e = Authenticated i (hmac_sha1 (bytes_of_string (u_Password u)) (authCodeData x))"
  using assms
proof (cases rule: session_step.cases)
  case (open_session j rc)
  with assms show ?thesis by (cases "j = i") (simp_all add: keys_opened)
next
  case (challenge j x rrnd mrnd guid uname priv)
  with assms show ?thesis by (cases "j = i") (simp_all add: keys_challenged)
next
  case (authenticate j x u code)
  with assms show ?thesis by (cases "j = i") auto
next
  case (close j)
  with assms show ?thesis by (cases "j = i") (simp_all add: keys_def)
qed simp

subsection \<open>Refinement: the handlers\<close>

lemma getNewRMCPPlusSession_Ret:
  assumes "getNewRMCPPlusSession rc s = (r, s')"
  shows "(\<exists>i. sessions s i = None \<and> r = Ret (opened_session i rc) \<and> sessions s' = (sessions s)(i \<mapsto> opened_session i rc))
    \<or> (\<exists>e. r = Fail e \<and> sessions s' = sessions s)"
proof -
  obtain r1 g1 where u: "generateRandomUint32 (entropy s) = (r1, g1)" by fastforce
  show ?thesis
  proof (cases r1)
    case (Ret i0)
    obtain r2 g2 where f: "freshSessionId (sessions s) i0 g1 = (r2, g2)" by fastforce
    show ?thesis
    proof (cases r2)
      case (Ret i)
      then show ?thesis
        using assms u f \<open>r1 = _\<close> freshSessionId_fresh [of "sessions s" i0 g1 i g2]
        by (auto simp: getNewRMCPPlusSession_def bindA_def on_entropy_def act_defs opened_session_def Let_def)
    next
      case (Panic p)
      then show ?thesis using f freshSessionId_no_panic [of "sessions s" i0 g1 p] by simp
    qed (use assms u f \<open>r1 = _\<close> in \<open>auto simp: getNewRMCPPlusSession_def bindA_def on_entropy_def act_defs\<close>)
  next
    case (Panic p)
    then show ?thesis using u generateRandomUint32_no_panic [of "entropy s" p] by simp
  qed (use assms u in \<open>auto simp: getNewRMCPPlusSession_def bindA_def on_entropy_def act_defs\<close>)
qed

lemma handleOpenSessionRequest_step:
  "\<exists>e. session_step users e (sessions s) (sessions (snd (handleOpenSessionRequest buf s))) \<and>
     (e = Stay \<or> (\<exists>i rc. e = Opened i rc))"
proof (cases "deserializeOpenSessionRequestPayload buf")
  case (Ret p)
  obtain r s' where n: "getNewRMCPPlusSession (oq_RemoteConsoleSessionId (fst p)) s = (r, s')" by fastforce
  then have s': "sessions (snd (handleOpenSessionRequest buf s)) = sessions s'"
    using Ret by (auto simp: handleOpenSessionRequest_def Let_def bindA_def retA_def split: res.splits prod.splits)
  from getNewRMCPPlusSession_Ret [OF n] show ?thesis
  proof (elim disjE exE conjE)
    fix i assume "sessions s i = None"
      "sessions s' = (sessions s)(i \<mapsto> opened_session i (oq_RemoteConsoleSessionId (fst p)))"
    then show ?thesis
      unfolding s' by (intro exI [of _ "Opened i (oq_RemoteConsoleSessionId (fst p))"]) simp
  qed (auto simp: s' intro!: exI [of _ Stay])
qed (auto simp: handleOpenSessionRequest_def act_defs intro!: exI [of _ Stay])

lemma deserializeRAKPMessage1_lengths:
  "deserializeRAKPMessage1RequestPayload buf = Ret (p, rest) \<Longrightarrow>
     length (r1_RemoteConsoleRandomNumber p) = 16 \<and> length (r1_UserName p) = 20"
  by (auto simp: deserializeRAKPMessage1RequestPayload_def bindR_eq_Ret readFull_eq_Ret slice_def)

lemma someA_eq_Ret [simp]: "someA e x s = (Ret y, s') \<longleftrightarrow> x = Some y \<and> s' = s"
  by (cases x) (auto simp: act_defs)

lemma on_entropy_eq: "f (entropy s) = (r, g) \<Longrightarrow> on_entropy f s = (r, s\<lparr>entropy := g\<rparr>)"
  by (simp add: on_entropy_def)

lemma sessions_bind_on_entropy_Fail:
  "f (entropy s) = (Fail e, g) \<Longrightarrow> sessions (snd (bindA (on_entropy f) k s)) = sessions s"
  by (simp add: bindA_def on_entropy_def)

lemma handleRAKPMessage1Request_Ret:
  assumes p: "deserializeRAKPMessage1RequestPayload buf = Ret (p, rest)"
    and x: "sessions s (r1_ManagedSystemSessionId p) = Some x"
    and n: "uname = take (unat (r1_UserNameLength p)) (r1_UserName p)" "unat (r1_UserNameLength p) \<le> 20"
    and u: "getBMCUser users (string_of_bytes uname) = Some u"
    and g: "generateRandomNumber (entropy s) = (Ret mrnd, g1)" "generateRandomNumber g1 = (Ret guid, g2)"
  shows "handleRAKPMessage1Request users buf s =
    (Ret (writeSessionHeader (handshakeHeader payloadTypeRAKPMessage2 60) @
       rakpMessage2Response (r1_MessageTag p) (s_RemoteConsoleSessionId x) mrnd guid
        (generateAuthCode (s_RemoteConsoleSessionId x) (s_ManagedSystemSessionId x)
          (r1_RemoteConsoleRandomNumber p) mrnd guid (r1_RequestedMaximumPrivilegeLevelAndNameOnlyLookup p)
          (r1_UserNameLength p) uname (u_Password u))),
     putSession (r1_ManagedSystemSessionId p)
       (challenged_session (r1_RemoteConsoleRandomNumber p) mrnd guid
         (r1_RequestedMaximumPrivilegeLevelAndNameOnlyLookup p) uname x) (s\<lparr>entropy := g2\<rparr>))"
proof -
  have "(of_nat (length uname) :: byte) = r1_UserNameLength p"
    using n deserializeRAKPMessage1_lengths [OF p] by simp
  then show ?thesis using assms deserializeRAKPMessage1_lengths [OF p]
    by (simp add: handleRAKPMessage1Request_def getRMCPPlusSession_def Let_def bindA_Ret [OF on_entropy_eq]
        challenged_session_def retA_def)
qed

lemma handleRAKPMessage1Request_step:
  "\<exists>e. session_step users e (sessions s) (sessions (snd (handleRAKPMessage1Request users buf s))) \<and>
     (e = Stay \<or> (\<exists>i n. e = Challenged i n))"
proof (cases "deserializeRAKPMessage1RequestPayload buf")
  case (Ret pr)
  then obtain p rest where p: "deserializeRAKPMessage1RequestPayload buf = Ret (p, rest)" by (cases pr) auto
  note len = deserializeRAKPMessage1_lengths [OF p]
  let ?h = "handleRAKPMessage1Request users buf s"
  let ?i = "r1_ManagedSystemSessionId p" and ?n = "unat (r1_UserNameLength p)"
  let ?name = "take ?n (r1_UserName p)"
  have "sessions (snd ?h) = sessions s \<or>
    (\<exists>x mrnd guid. sessions s ?i = Some x \<and> ?n \<le> 20 \<and> getBMCUser users (string_of_bytes ?name) \<noteq> None \<and>
      length mrnd = 16 \<and> length guid = 16 \<and> sessions (snd ?h) = (sessions s)(?i \<mapsto>
       challenged_session (r1_RemoteConsoleRandomNumber p) mrnd guid
         (r1_RequestedMaximumPrivilegeLevelAndNameOnlyLookup p) ?name x))"
  proof (cases "\<exists>x u. sessions s ?i = Some x \<and> ?n \<le> 20 \<and> getBMCUser users (string_of_bytes ?name) = Some u")
    case True
    then obtain x u where x: "sessions s ?i = Some x" "?n \<le> 20" "getBMCUser users (string_of_bytes ?name) = Some u"
      by blast
    obtain r1 g1 where 1: "generateRandomNumber (entropy s) = (r1, g1)" by fastforce
    obtain r2 g2 where 2: "generateRandomNumber g1 = (r2, g2)" by fastforce
    show ?thesis
    proof (cases r1; cases r2)
      fix a b assume "r1 = Ret a" "r2 = Ret b"
      then show ?thesis
        using handleRAKPMessage1Request_Ret [OF p x(1) refl x(2,3), of a g1 b g2] 1 2 x
        by (intro disjI2 exI [of _ x] exI [of _ a] exI [of _ b]) simp
    qed (use p x len 1 2 in \<open>auto simp: handleRAKPMessage1Request_def getRMCPPlusSession_def Let_def
         bindA_Ret [OF on_entropy_eq] bindA_Fail [OF on_entropy_eq] bindA_Panic [OF on_entropy_eq]\<close>)
  next
    case False
    then show ?thesis using p len
      by (cases "sessions s ?i"; cases "getBMCUser users (string_of_bytes ?name)")
        (auto simp: handleRAKPMessage1Request_def getRMCPPlusSession_def Let_def act_defs)
  qed
  then show ?thesis
  proof (elim disjE exE conjE)
    fix x mrnd guid
    assume h: "sessions s ?i = Some x" "?n \<le> 20" "getBMCUser users (string_of_bytes ?name) \<noteq> None"
      "length mrnd = 16" "length guid = 16" "sessions (snd ?h) = (sessions s)(?i \<mapsto>
       challenged_session (r1_RemoteConsoleRandomNumber p) mrnd guid
         (r1_RequestedMaximumPrivilegeLevelAndNameOnlyLookup p) ?name x)"
    show ?thesis
      unfolding h(6) using h(1-5) len
      by (intro exI [of _ "Challenged ?i ?name"] conjI session_step.challenge) auto
  qed (auto intro!: exI [of _ Stay])
qed (auto simp: handleRAKPMessage1Request_def act_defs intro!: exI [of _ Stay])

lemma handleRAKPMessage3Request_step:
  "\<exists>e. session_step users e (sessions s) (sessions (snd (handleRAKPMessage3Request users buf s))) \<and>
     (e = Stay \<or> e = Authenticated (of_le32 (slice 4 4 buf)) (slice 8 20 buf))"
proof (cases "deserializeRAKPMessage3RequestPayload buf")
  case (Ret pr)
  then obtain p rest where p: "deserializeRAKPMessage3RequestPayload buf = Ret (p, rest)" by (cases pr) auto
  let ?i = "r3_ManagedSystemSessionId p" and ?c = "r3_KeyExchangeAuthenticationCode p"
  have sl: "?i = of_le32 (slice 4 4 buf)" "?c = slice 8 20 buf"
    using p by (auto simp: deserializeRAKPMessage3RequestPayload_def bindR_eq_Ret readFull_eq_Ret slice_def)
  show ?thesis
  proof (cases "\<exists>x u. sessions s ?i = Some x \<and> getBMCUser users (string_of_bytes (s_UserName x)) = Some u
      \<and> validateAuthCode ?c x (u_Password u)")
    case True
    then obtain x u where x: "sessions s ?i = Some x" "getBMCUser users (string_of_bytes (s_UserName x)) = Some u"
      "validateAuthCode ?c x (u_Password u)" by blast
    then have "sessions (snd (handleRAKPMessage3Request users buf s)) =
        (sessions s)(?i \<mapsto> authenticated_session (u_Password u) x)"
      using p by (simp add: handleRAKPMessage3Request_def getRMCPPlusSession_def Let_def
          authenticated_session_def retA_def)
    then show ?thesis using x
      by (intro exI [of _ "Authenticated ?i ?c"]) (auto simp: sl validateAuthCode_def)
  next
    case False
    have "handleRAKPMessage3Request users buf s = (fst (handleRAKPMessage3Request users buf s), s)"
    proof (cases "sessions s ?i")
      case (Some x)
      then show ?thesis using p False
        by (cases "getBMCUser users (string_of_bytes (s_UserName x))")
          (auto simp: handleRAKPMessage3Request_def getRMCPPlusSession_def act_defs)
    qed (use p in \<open>simp add: handleRAKPMessage3Request_def getRMCPPlusSession_def act_defs\<close>)
    then show ?thesis by (metis session_step.stay snd_conv)
  qed
qed (auto simp: handleRAKPMessage3Request_def act_defs intro!: exI [of _ Stay])

text \<open>The authentication code of an authentication step is at offset \<open>k + 8\<close> of the request.\<close>

definition code_at :: "nat \<Rightarrow> bytes \<Rightarrow> sess_event \<Rightarrow> bool" where
  "code_at k buf e \<longleftrightarrow>
     (\<forall>i c. e = Authenticated i c \<longrightarrow> i = of_le32 (slice (k + 4) 4 buf) \<and> c = slice (k + 8) 20 buf)"

lemma code_at_simps [simp]:
  "code_at k buf Stay" "code_at k buf (Opened i rc)" "code_at k buf (Challenged i n)" "code_at k buf (Closed i)"
  by (simp_all add: code_at_def)

lemma code_at_append: "length pre = j \<Longrightarrow> code_at (j + k) (pre @ buf) e = code_at k buf e"
  by (simp add: code_at_def slice_def add.assoc)

lemma ipmi_handle_step:
  "\<exists>e. session_step users e (sessions s) (sessions (snd (ipmi_handle M msg s))) \<and> code_at k buf e"
proof (cases "closes_session msg")
  case None
  then show ?thesis by (intro exI [of _ Stay]) (simp add: ipmi_handle_sessions)
next
  case (Some i)
  then show ?thesis by (intro exI [of _ "Closed i"]) (simp add: ipmi_handle_sessions)
qed

lemma sessions_bind_frame:
  "(\<And>x s. sessions (snd (f x s)) = sessions s) \<Longrightarrow> sessions (snd (bindA m f s)) = sessions (snd (m s))"
  by (auto simp: bindA_def split: prod.splits res.splits)

lemma act_frame [simp]: "snd (retA x s) = s" "snd (failA e s) = s" "snd (panicA p s) = s" "snd (liftA r s) = s"
  "snd (someA e y s) = s" "snd (getA g s) = s"
  by (cases y; simp add: act_defs)+

lemma snd_bind_cases:
  "snd (m s) = s \<Longrightarrow> snd (bindA m f s) = s \<or> (\<exists>x. m s = (Ret x, s) \<and> snd (bindA m f s) = snd (f x s))"
  by (cases "m s"; cases "fst (m s)") (auto simp: bindA_def)

lemma step_bind:
  assumes "snd (m s) = s" "P Stay"
    and "\<And>x. m s = (Ret x, s) \<Longrightarrow> \<exists>e. session_step users e (sessions s) (sessions (snd (f x s))) \<and> P e"
  shows "\<exists>e. session_step users e (sessions s) (sessions (snd (bindA m f s))) \<and> P e"
  using snd_bind_cases [of m s f] assms by (metis session_step.stay)

lemma step_ipmi_bind:
  "(\<And>x s. sessions (snd (f x s)) = sessions s) \<Longrightarrow>
   \<exists>e. session_step users e (sessions s) (sessions (snd (bindA (ipmi_handle M msg) f s))) \<and> code_at k b e"
  using ipmi_handle_step [of users s M msg k b] by (simp add: sessions_bind_frame [of f])

lemmas step_binds = step_bind [where P = "code_at k b" for k b]

lemma handleEncryptedRequest_step:
  "\<exists>e. session_step users e (sessions s) (sessions (snd (handleEncryptedRequest M users header buf s))) \<and> code_at k b e"
  unfolding handleEncryptedRequest_def getRMCPPlusSession_def split_beta
  by (rule step_binds step_ipmi_bind | simp add: sessions_bind_frame Let_def)+

lemma rmcpPlus_handle_step:
  "\<exists>e. session_step users e (sessions s) (sessions (snd (rmcpPlus_handle M users header buf s))) \<and> code_at 0 buf e"
proof -
  note A = handleEncryptedRequest_step [of users s M header buf 0 buf]
  note B = handleOpenSessionRequest_step [of users s buf]
  note C = handleRAKPMessage1Request_step [of users s buf]
  note D = handleRAKPMessage3Request_step [of users s buf]
  have D': "\<exists>e. session_step users e (sessions s) (sessions (snd (handleRAKPMessage3Request users buf s))) \<and> code_at 0 buf e"
    using D by (auto simp: code_at_def simp del: session_step_simps)
  have B': "\<exists>e. session_step users e (sessions s) (sessions (snd (handleOpenSessionRequest buf s))) \<and> code_at 0 buf e"
    using B by (metis code_at_simps(1,2))
  have C': "\<exists>e. session_step users e (sessions s) (sessions (snd (handleRAKPMessage1Request users buf s))) \<and> code_at 0 buf e"
    using C by (metis code_at_simps(1,3))
  have E: "\<exists>e. session_step users e (sessions s) (sessions s) \<and> code_at 0 buf e"
    by (intro exI [of _ Stay]) simp
  show ?thesis
    using A B' C' D' E by (simp add: rmcpPlus_handle_def Let_def del: session_step_simps)
qed

lemma newRMCPPlus_rest: "newRMCPPlus buf a = Ret (h, rest) \<Longrightarrow> \<exists>pre. length pre = 11 \<and> buf = pre @ rest"
  using hdr.dec_sound [of buf a h rest] hdr.enc_length [of h a] by (auto simp: newRMCPPlus_def)

lemma ipmiSession_handle_step:
  "\<exists>e. session_step users e (sessions s) (sessions (snd (ipmiSession_handle M users a buf s))) \<and> code_at 11 buf e"
proof -
  have "\<exists>e. session_step users e (sessions s) (sessions (snd (rmcpPlus_handle M users h rest s))) \<and> code_at 11 buf e"
    if n: "newRMCPPlus buf a = Ret (h, rest)" for h rest
  proof -
    obtain pre where "length pre = 11" "buf = pre @ rest" using newRMCPPlus_rest [OF n] by blast
    then show ?thesis
      using rmcpPlus_handle_step [of users s M h rest] code_at_append [of pre 11 0 rest] by simp
  qed
  then show ?thesis
    unfolding ipmiSession_handle_def split_beta
    by (intro step_binds) (auto intro!: step_binds step_ipmi_bind simp: act_defs simp del: session_step_simps)
qed

lemma handleRMCPRequest_step:
  "\<exists>e. session_step users e (sessions s) (sessions (snd (handleRMCPRequest M users buf s))) \<and> code_at 16 buf e"
proof (cases "\<exists>h rest a. newRMCP buf = Ret (h, a # rest) \<and> rmcp_Class h = RmcpClassIpmi")
  case True
  then obtain h a rest where h: "newRMCP buf = Ret (h, a # rest)" "rmcp_Class h = RmcpClassIpmi" by blast
  then obtain pre where pre: "length pre = 5" "buf = pre @ rest"
    by (auto simp: newRMCP_def deserializeRMCPHeader_def bindR_eq_Ret readFull_eq_Ret intro!: that [of "_ @ [a]"])
  have "sessions (snd (handleRMCPRequest M users buf s)) = sessions (snd (ipmiSession_handle M users a rest s))"
    using h by (simp add: handleRMCPRequest_def rmcp_handle_def newIPMISession_def sessions_bind_frame)
  then show ?thesis
    using ipmiSession_handle_step [of users s M a rest] code_at_append [of pre 5 11 rest] pre by simp
next
  case False
  have "snd (handleRMCPRequest M users buf s) = s"
  proof (cases "newRMCP buf")
    case (Ret p)
    with False show ?thesis
      by (cases p; cases "snd p")
        (auto simp: handleRMCPRequest_def rmcp_handle_def newIPMISession_def Let_def act_defs)
  qed (simp_all add: handleRMCPRequest_def act_defs)
  then show ?thesis by (intro exI [of _ Stay]) simp
qed

end
