(* ===== verification/Handshake.thy ===== *)
theory Handshake
  imports SessionMachine
begin

text \<open>
  A remote console that follows the RMCP+ protocol, as the peer of \<open>rmcp_plus.go\<close>: the
  packets it sends, what it reads from the responses, and the keys it derives on its own
  from the password. The theorems run the console against the server: the handshake
  succeeds for the right password, both sides hold the same keys, and an encrypted command
  is carried out and answered.
\<close>

subsection \<open>Request payloads\<close>

definition valid_oq :: "openSessionRequestPayload \<Rightarrow> bool" where
  "valid_oq p \<longleftrightarrow> length (oq_Reserved2 p) = 2 \<and> length (oq_AuthenticationPayload p) = 8
     \<and> length (oq_IntegrityPayload p) = 8 \<and> length (oq_ConfidentialityPayload p) = 8"

definition enc_oq :: "openSessionRequestPayload \<Rightarrow> bytes" where
  "enc_oq p = [oq_MessageTag p, oq_RequestedMaximumPrivilegeLevel p] @ oq_Reserved2 p
     @ le32 (oq_RemoteConsoleSessionId p) @ oq_AuthenticationPayload p @ oq_IntegrityPayload p
     @ oq_ConfidentialityPayload p"

definition valid_r1 :: "rakpMessage1Request \<Rightarrow> bool" where
  "valid_r1 p \<longleftrightarrow> length (r1_Reserved1 p) = 3 \<and> length (r1_RemoteConsoleRandomNumber p) = 16
     \<and> length (r1_Reserved3 p) = 2 \<and> length (r1_UserName p) = 20"

definition enc_r1 :: "rakpMessage1Request \<Rightarrow> bytes" where
  "enc_r1 p = [r1_MessageTag p] @ r1_Reserved1 p @ le32 (r1_ManagedSystemSessionId p)
     @ r1_RemoteConsoleRandomNumber p @ [r1_RequestedMaximumPrivilegeLevelAndNameOnlyLookup p]
     @ r1_Reserved3 p @ [r1_UserNameLength p] @ r1_UserName p"

definition valid_r3 :: "rakpMessage3Request \<Rightarrow> bool" where
  "valid_r3 p \<longleftrightarrow> length (r3_Reserved1 p) = 2 \<and> length (r3_KeyExchangeAuthenticationCode p) = 20"

definition enc_r3 :: "rakpMessage3Request \<Rightarrow> bytes" where
  "enc_r3 p = [r3_MessageTag p, r3_RmcpPlusStatusCode p] @ r3_Reserved1 p
     @ le32 (r3_ManagedSystemSessionId p) @ r3_KeyExchangeAuthenticationCode p"

lemma list2_conv: "length xs = 2 \<Longrightarrow> [xs ! 0, xs ! 1] = xs"
  by (cases xs; cases "tl xs") auto

lemma slice_join: "slice i m xs @ slice (i + m) n xs = slice i (m + n) xs"
  by (simp add: slice_def take_add add.commute)

lemma slice_all: "length xs = n \<Longrightarrow> slice 0 n xs = xs"
  by (simp add: slice_def)

lemma slice_nth: "i < length xs \<Longrightarrow> [xs ! i] = slice i 1 xs"
  by (simp add: slice_def hd_drop_conv_nth take_Suc)

lemma length_slice [simp]: "i + n \<le> length xs \<Longrightarrow> length (slice i n xs) = n"
  by (simp add: slice_def)

lemma le32_slice: "i + 4 \<le> length xs \<Longrightarrow> le32 (of_le32 (slice i 4 xs)) = slice i 4 xs"
  by (simp add: of_le_inverse)

lemma enc_r1_dec:
  assumes "length b = 48"
  shows "[b ! 0] @ slice 1 3 b @ slice 4 4 b @ slice 8 16 b @ [b ! 24] @ slice 25 2 b @ [b ! 27] @ slice 28 20 b = b"
proof -
  have "[b ! 0] @ slice 1 3 b @ slice 4 4 b @ slice 8 16 b @ [b ! 24] @ slice 25 2 b @ [b ! 27] @ slice 28 20 b
    = slice 0 48 b"
    using assms slice_join [of 27 1 b 20] slice_join [of 25 2 b 21] slice_join [of 24 1 b 23]
      slice_join [of 8 16 b 24] slice_join [of 4 4 b 40] slice_join [of 1 3 b 44] slice_join [of 0 1 b 47]
    by (simp add: slice_nth)
  then show ?thesis using assms by (simp add: slice_all)
qed

lemma enc_r3_dec:
  assumes "length b = 28"
  shows "[b ! 0] @ [b ! 1] @ slice 2 2 b @ slice 4 4 b @ slice 8 20 b = b"
proof -
  have "[b ! 0] @ [b ! 1] @ slice 2 2 b @ slice 4 4 b @ slice 8 20 b = slice 0 28 b"
    using assms slice_join [of 4 4 b 20] slice_join [of 2 2 b 24] slice_join [of 1 1 b 26] slice_join [of 0 1 b 27]
    by (simp add: slice_nth flip: numeral_2_eq_2)
  then show ?thesis using assms by (simp add: slice_all)
qed

lemma enc_oq_dec:
  assumes "length b = 32"
  shows "[b ! 0] @ [b ! 1] @ slice 2 2 b @ slice 4 4 b @ slice 8 8 b @ slice 16 8 b @ slice 24 8 b = b"
proof -
  have "[b ! 0] @ [b ! 1] @ slice 2 2 b @ slice 4 4 b @ slice 8 8 b @ slice 16 8 b @ slice 24 8 b = slice 0 32 b"
    using assms slice_join [of 16 8 b 8] slice_join [of 8 8 b 16] slice_join [of 4 4 b 24] slice_join [of 2 2 b 28]
      slice_join [of 1 1 b 30] slice_join [of 0 1 b 31]
    by (simp add: slice_nth flip: numeral_2_eq_2)
  then show ?thesis using assms by (simp add: slice_all)
qed

interpretation r1: codec 48 valid_r1 enc_r1 deserializeRAKPMessage1RequestPayload
proof (unfold_locales, goal_cases)
  case (3 x rest)
  then have "readFull 48 (enc_r1 x @ rest) = Ret (enc_r1 x, rest)"
    by (intro readFull_append) (simp add: valid_r1_def enc_r1_def)
  with 3 show ?case
    by (simp add: deserializeRAKPMessage1RequestPayload_def valid_r1_def) (simp add: enc_r1_def slice_def nth_append)
next
  case (4 bs x rest)
  then show ?case
    by (auto intro: enc_r1_dec [simplified, symmetric] simp: deserializeRAKPMessage1RequestPayload_def bindR_eq_Ret readFull_eq_Ret valid_r1_def enc_r1_def
        le32_slice)
next
  case (5 bs)
  then show ?case by (auto simp: deserializeRAKPMessage1RequestPayload_def readFull_Ret)
next
  case (6 bs p)
  then show ?case by (auto simp: deserializeRAKPMessage1RequestPayload_def bindR_eq_Panic)
qed (simp_all add: valid_r1_def enc_r1_def)

interpretation r3: codec 28 valid_r3 enc_r3 deserializeRAKPMessage3RequestPayload
proof (unfold_locales, goal_cases)
  case (3 x rest)
  then have "readFull 28 (enc_r3 x @ rest) = Ret (enc_r3 x, rest)"
    by (intro readFull_append) (simp add: valid_r3_def enc_r3_def)
  with 3 show ?case
    by (simp add: deserializeRAKPMessage3RequestPayload_def valid_r3_def) (simp add: enc_r3_def slice_def nth_append)
next
  case (4 bs x rest)
  then show ?case
    by (auto intro: enc_r3_dec [simplified, symmetric] simp: deserializeRAKPMessage3RequestPayload_def bindR_eq_Ret readFull_eq_Ret valid_r3_def enc_r3_def
        le32_slice)
next
  case (5 bs)
  then show ?case by (auto simp: deserializeRAKPMessage3RequestPayload_def readFull_Ret)
next
  case (6 bs p)
  then show ?case by (auto simp: deserializeRAKPMessage3RequestPayload_def bindR_eq_Panic)
qed (simp_all add: valid_r3_def enc_r3_def)

interpretation oq: codec 32 valid_oq enc_oq deserializeOpenSessionRequestPayload
proof (unfold_locales, goal_cases)
  case (3 x rest)
  then have "readFull 32 (enc_oq x @ rest) = Ret (enc_oq x, rest)"
    by (intro readFull_append) (simp add: valid_oq_def enc_oq_def)
  with 3 show ?case
    by (simp add: deserializeOpenSessionRequestPayload_def valid_oq_def) (simp add: enc_oq_def slice_def nth_append)
next
  case (4 bs x rest)
  then show ?case
    by (auto intro: enc_oq_dec [simplified, symmetric] simp: deserializeOpenSessionRequestPayload_def bindR_eq_Ret readFull_eq_Ret valid_oq_def enc_oq_def
        le32_slice)
next
  case (5 bs)
  then show ?case by (auto simp: deserializeOpenSessionRequestPayload_def readFull_Ret)
next
  case (6 bs p)
  then show ?case by (auto simp: deserializeOpenSessionRequestPayload_def bindR_eq_Panic)
qed (simp_all add: valid_oq_def enc_oq_def)

subsection \<open>The console\<close>

definition rmcp_packet :: "byte \<Rightarrow> u32 \<Rightarrow> u32 \<Rightarrow> bytes \<Rightarrow> bytes" where
  "rmcp_packet pt sid seq payload =
     [0x06, 0, 0xff, 0x07] @ writeSessionHeader
       \<lparr>h_AuthenticationType = authTypeRMCPPlus, h_PayloadType = pt, h_SessionId = sid,
        h_SessionSequenceNumber = seq, h_IpmiPayloadLen = of_nat (length payload)\<rparr> @ payload"

definition console_open :: "byte \<Rightarrow> u32 \<Rightarrow> bytes" where
  "console_open tag rc = rmcp_packet payloadTypeRMCPPlusOpenSessionRequest 0 0
     (enc_oq \<lparr>oq_MessageTag = tag, oq_RequestedMaximumPrivilegeLevel = 4, oq_Reserved2 = [0, 0],
        oq_RemoteConsoleSessionId = rc, oq_AuthenticationPayload = [0, 0, 0, 8, 1, 0, 0, 0],
        oq_IntegrityPayload = [1, 0, 0, 8, 1, 0, 0, 0], oq_ConfidentialityPayload = [2, 0, 0, 8, 1, 0, 0, 0]\<rparr>)"

text \<open>The managed system's session identifier in an open-session response.\<close>

definition console_session_id :: "bytes \<Rightarrow> u32" where
  "console_session_id resp = of_le32 (slice 24 4 resp)"

definition console_rakp1 :: "byte \<Rightarrow> u32 \<Rightarrow> bytes \<Rightarrow> byte \<Rightarrow> string \<Rightarrow> bytes" where
  "console_rakp1 tag i rnd priv name = rmcp_packet payloadTypeRAKPMessage1 0 0
     (enc_r1 \<lparr>r1_MessageTag = tag, r1_Reserved1 = [0, 0, 0], r1_ManagedSystemSessionId = i,
        r1_RemoteConsoleRandomNumber = rnd, r1_RequestedMaximumPrivilegeLevelAndNameOnlyLookup = priv,
        r1_Reserved3 = [0, 0], r1_UserNameLength = of_nat (length name),
        r1_UserName = bytes_of_string name @ replicate (20 - length name) 0\<rparr>)"

text \<open>The random number, the identity and the code of a RAKP message 2.\<close>

definition console_mrnd :: "bytes \<Rightarrow> bytes" where "console_mrnd resp = slice 24 16 resp"
definition console_guid :: "bytes \<Rightarrow> bytes" where "console_guid resp = slice 40 16 resp"
definition console_code :: "bytes \<Rightarrow> bytes" where "console_code resp = slice 56 20 resp"

definition console_rakp3 :: "byte \<Rightarrow> u32 \<Rightarrow> u32 \<Rightarrow> bytes \<Rightarrow> byte \<Rightarrow> string \<Rightarrow> string \<Rightarrow> bytes" where
  "console_rakp3 tag i rc mrnd priv name password = rmcp_packet payloadTypeRAKPMessage3 0 0
     (enc_r3 \<lparr>r3_MessageTag = tag, r3_RmcpPlusStatusCode = 0, r3_Reserved1 = [0, 0],
        r3_ManagedSystemSessionId = i,
        r3_KeyExchangeAuthenticationCode = hmac_sha1 (bytes_of_string password)
          (mrnd @ le32 rc @ [priv, of_nat (length name)] @ bytes_of_string name)\<rparr>)"

definition console_sik :: "bytes \<Rightarrow> bytes \<Rightarrow> byte \<Rightarrow> string \<Rightarrow> string \<Rightarrow> bytes" where
  "console_sik rnd mrnd priv name password =
     hmac_sha1 (bytes_of_string password)
       (rnd @ mrnd @ [priv, of_nat (length name)] @ bytes_of_string name)"

definition console_encrypt :: "bytes \<Rightarrow> bytes \<Rightarrow> bytes \<Rightarrow> bytes" where
  "console_encrypt sik iv plain = iv @ cbc_encrypt (take 16 (generateK2 sik)) iv (padPKCS7 plain)"

definition console_command :: "u32 \<Rightarrow> u32 \<Rightarrow> bytes \<Rightarrow> bytes \<Rightarrow> bytes \<Rightarrow> bytes" where
  "console_command i seq sik iv plain =
     (let p = rmcp_packet 0xc0 i seq (console_encrypt sik iv plain) @ ipmiSessionTrailer
      in p @ generateIntegrityData (drop 4 p) (generateK1 sik))"

subsection \<open>The outer layers on a console's packet\<close>

lemma handleRMCPRequest_packet:
  "handleRMCPRequest M users (rmcp_packet pt sid seq payload @ rest) s =
     bindA (rmcpPlus_handle M users
       \<lparr>h_AuthenticationType = authTypeRMCPPlus, h_PayloadType = pt, h_SessionId = sid,
        h_SessionSequenceNumber = seq, h_IpmiPayloadLen = of_nat (length payload)\<rparr> (payload @ rest))
       (\<lambda>res. retA (appendRMCPHeader res)) s"
proof -
  let ?h = "\<lparr>h_AuthenticationType = authTypeRMCPPlus, h_PayloadType = pt, h_SessionId = sid,
        h_SessionSequenceNumber = seq, h_IpmiPayloadLen = of_nat (length payload)\<rparr>"
  let ?buf = "tl (writeSessionHeader ?h) @ payload @ rest"
  have p: "rmcp_packet pt sid seq payload @ rest = [0x06, 0, 0xff, 0x07] @ authTypeRMCPPlus # ?buf"
    using writeSessionHeader_Cons [of ?h] by (simp add: rmcp_packet_def)
  have "newRMCP (rmcp_packet pt sid seq payload @ rest) =
      Ret (\<lparr>rmcp_Version = 6, rmcp_Reserved = 0, rmcp_Sequence = 0xff, rmcp_Class = 7\<rparr>, authTypeRMCPPlus # ?buf)"
    unfolding p by (simp add: newRMCP_def deserializeRMCPHeader_def readFull_def)
  moreover have "newRMCPPlus ?buf authTypeRMCPPlus = Ret (?h, payload @ rest)"
    using newRMCPPlus_writeSessionHeader [of ?h "payload @ rest"] by simp
  ultimately show ?thesis
    by (simp add: handleRMCPRequest_def rmcp_handle_def RmcpClassIpmi_def newIPMISession_def
        ipmiSession_handle_def isRMCPPlusFormat_def)
qed

lemma appendRMCPHeader_bytes: "appendRMCPHeader r = [0x06, 0, 0xff, 0x07] @ r"
  by (simp add: appendRMCPHeader_def serializeRMCP_def buildUpRMCPForIPMI_def RmcpVersion1_def RmcpClassIpmi_def)

lemmas payload_consts = payloadTypeRMCPPlusOpenSessionRequest_def payloadTypeRMCPPlusOpenSessionResponse_def
  payloadTypeRAKPMessage1_def payloadTypeRAKPMessage2_def payloadTypeRAKPMessage3_def payloadTypeRAKPMessage4_def

lemma rmcpPlus_handle_dispatch:
  "h_PayloadType h = payloadTypeRMCPPlusOpenSessionRequest \<Longrightarrow> rmcpPlus_handle M users h buf = handleOpenSessionRequest buf"
  "h_PayloadType h = payloadTypeRAKPMessage1 \<Longrightarrow> rmcpPlus_handle M users h buf = handleRAKPMessage1Request users buf"
  "h_PayloadType h = payloadTypeRAKPMessage3 \<Longrightarrow> rmcpPlus_handle M users h buf = handleRAKPMessage3Request users buf"
  "h_PayloadType h = 0xc0 \<Longrightarrow> rmcpPlus_handle M users h buf = handleEncryptedRequest M users h buf"
  by (simp_all add: rmcpPlus_handle_def payload_consts)

subsection \<open>Opening a session\<close>

lemma getNewRMCPPlusSession_fresh:
  assumes "entropy s = Some b # g" "length b = 4" "sessions s (of_le32 b) = None"
  shows "getNewRMCPPlusSession rc s =
    (Ret (opened_session (of_le32 b) rc), putSession (of_le32 b) (opened_session (of_le32 b) rc) (s\<lparr>entropy := g\<rparr>))"
  using assms
  by (simp add: getNewRMCPPlusSession_def bindA_def on_entropy_def generateRandomUint32_def act_defs
      freshSessionId.simps [of _ "of_le32 b"] Let_def opened_session_def)

lemma console_open_ok:
  assumes "entropy s = Some b # g" "length b = 4" "sessions s (of_le32 b) = None"
  shows "\<exists>resp. handleRMCPRequest M users (console_open tag rc @ rest) s =
      (Ret resp, putSession (of_le32 b) (opened_session (of_le32 b) rc) (s\<lparr>entropy := g\<rparr>))
    \<and> length resp = 4 + 12 + 36 \<and> console_session_id resp = of_le32 b"
proof -
  let ?q = "\<lparr>oq_MessageTag = tag, oq_RequestedMaximumPrivilegeLevel = 4, oq_Reserved2 = [0, 0],
        oq_RemoteConsoleSessionId = rc, oq_AuthenticationPayload = [0, 0, 0, 8, 1, 0, 0, 0],
        oq_IntegrityPayload = [1, 0, 0, 8, 1, 0, 0, 0], oq_ConfidentialityPayload = [2, 0, 0, 8, 1, 0, 0, 0]\<rparr>"
  have "deserializeOpenSessionRequestPayload (enc_oq ?q @ rest) = Ret (?q, rest)"
    by (rule oq.dec_enc) (simp add: valid_oq_def)
  then show ?thesis
    unfolding console_open_def handleRMCPRequest_packet
    by (simp add: rmcpPlus_handle_dispatch handleOpenSessionRequest_def Let_def bindA_Ret retA_def
        getNewRMCPPlusSession_fresh [OF assms] appendRMCPHeader_bytes openSessionResponsePayload_def
        console_session_id_def slice_def) (simp add: opened_session_def)
qed


subsection \<open>The RAKP exchange\<close>

lemma console_rakp1_ok:
  assumes x: "sessions s i = Some x" and u: "getBMCUser users name = Some u" "length name \<le> 20"
    and rnd: "length rnd = 16"
    and g: "generateRandomNumber (entropy s) = (Ret mrnd, g1)" "generateRandomNumber g1 = (Ret guid, g2)"
  shows "\<exists>resp. handleRMCPRequest M users (console_rakp1 tag i rnd priv name @ rest) s =
      (Ret resp, putSession i (challenged_session rnd mrnd guid priv (bytes_of_string name) x) (s\<lparr>entropy := g2\<rparr>))
    \<and> length resp = 4 + 12 + 60 \<and> console_mrnd resp = mrnd \<and> console_guid resp = guid
    \<and> console_code resp = generateAuthCode (s_RemoteConsoleSessionId x) (s_ManagedSystemSessionId x) rnd mrnd guid
        priv (of_nat (length name)) (bytes_of_string name) (u_Password u)"
proof -
  let ?q = "\<lparr>r1_MessageTag = tag, r1_Reserved1 = [0, 0, 0], r1_ManagedSystemSessionId = i,
        r1_RemoteConsoleRandomNumber = rnd, r1_RequestedMaximumPrivilegeLevelAndNameOnlyLookup = priv,
        r1_Reserved3 = [0, 0], r1_UserNameLength = of_nat (length name),
        r1_UserName = bytes_of_string name @ replicate (20 - length name) 0\<rparr>"
  have d: "deserializeRAKPMessage1RequestPayload (enc_r1 ?q @ rest) = Ret (?q, rest)"
    using u rnd by (intro r1.dec_enc) (simp add: valid_r1_def)
  have n: "bytes_of_string name = take (unat (r1_UserNameLength ?q)) (r1_UserName ?q)"
    "unat (r1_UserNameLength ?q) \<le> 20"
    using u by (simp_all add: unat_of_nat_byte)
  have len: "length mrnd = 16" "length guid = 16" using g by auto
  have code: "length (generateAuthCode a b c d e f h j k) = 20" for a b c d e f h j k
    by (simp add: generateAuthCode_def)
  show ?thesis
    unfolding console_rakp1_def handleRMCPRequest_packet
    using handleRAKPMessage1Request_Ret [OF d _ n _ g, of x users u] x u len code
    by (simp add: rmcpPlus_handle_dispatch bindA_Ret retA_def appendRMCPHeader_bytes rakpMessage2Response_def
        console_mrnd_def console_guid_def console_code_def slice_def)
qed

lemma handleRAKPMessage3Request_Ret:
  assumes "deserializeRAKPMessage3RequestPayload buf = Ret (p, rest)"
    and "sessions s (r3_ManagedSystemSessionId p) = Some x"
    and "getBMCUser users (string_of_bytes (s_UserName x)) = Some u"
    and "validateAuthCode (r3_KeyExchangeAuthenticationCode p) x (u_Password u)"
  shows "handleRAKPMessage3Request users buf s =
    (Ret (writeSessionHeader (handshakeHeader payloadTypeRAKPMessage4 20) @
       rakpMessage4Response (r3_MessageTag p) (s_RemoteConsoleSessionId x)
        (generateSessionIntegrityCheckValue x (generateSessionIntegrityKey x (u_Password u)))),
     putSession (r3_ManagedSystemSessionId p) (authenticated_session (u_Password u) x) s)"
  using assms
  by (simp add: handleRAKPMessage3Request_def getRMCPPlusSession_def Let_def authenticated_session_def retA_def
      generateSessionIntegrityCheckValue_def)

lemma console_rakp3_ok:
  assumes x: "sessions s i = Some x" "s_RemoteConsoleSessionId x = rc" "s_ManagedSystemRandomNumber x = mrnd"
      "s_RequestedPrivilegeLevel x = priv" "s_UserName x = bytes_of_string name"
      "s_UserNameLength x = of_nat (length name)"
    and u: "getBMCUser users name = Some u"
  shows "\<exists>resp. handleRMCPRequest M users (console_rakp3 tag i rc mrnd priv name (u_Password u) @ rest) s =
      (Ret resp, putSession i (authenticated_session (u_Password u) x) s)
    \<and> length resp = 4 + 12 + 20"
proof -
  let ?q = "\<lparr>r3_MessageTag = tag, r3_RmcpPlusStatusCode = 0, r3_Reserved1 = [0, 0],
        r3_ManagedSystemSessionId = i,
        r3_KeyExchangeAuthenticationCode = hmac_sha1 (bytes_of_string (u_Password u))
          (mrnd @ le32 rc @ [priv, of_nat (length name)] @ bytes_of_string name)\<rparr>"
  have d: "deserializeRAKPMessage3RequestPayload (enc_r3 ?q @ rest) = Ret (?q, rest)"
    by (rule r3.dec_enc) (simp add: valid_r3_def)
  have v: "validateAuthCode (r3_KeyExchangeAuthenticationCode ?q) x (u_Password u)"
    by (simp add: validateAuthCode_def authCodeData_def x)
  show ?thesis
    unfolding console_rakp3_def handleRMCPRequest_packet
    using handleRAKPMessage3Request_Ret [OF d _ _ v, of s users] x u
    by (simp add: rmcpPlus_handle_dispatch bindA_Ret retA_def appendRMCPHeader_bytes rakpMessage4Response_def
        generateSessionIntegrityCheckValue_def)
qed

subsection \<open>Encrypted commands\<close>

lemma rmcp_packet_parts:
  "length (rmcp_packet pt sid seq payload) = 16 + length payload"
  by (simp add: rmcp_packet_def)

lemma console_encrypt_length:
  "length iv = 16 \<Longrightarrow> length plain \<le> 15 \<Longrightarrow> length (console_encrypt sik iv plain) = 32"
  unfolding console_encrypt_def by (rule length_ciphered) simp_all

lemma console_encrypt_decrypt:
  "length iv = 16 \<Longrightarrow> length plain \<le> 15 \<Longrightarrow> decryptByCBCMode (generateK2 sik) (console_encrypt sik iv plain) = Ret plain"
  unfolding console_encrypt_def by (rule decrypt_ciphered) simp_all

definition valid_answer :: "bytes \<Rightarrow> u32 \<Rightarrow> u32 \<Rightarrow> bytes \<Rightarrow> bytes \<Rightarrow> bool" where
  "valid_answer sik rc seq answer out \<longleftrightarrow>
     length out = 64 \<and>
     take 16 out = [0x06, 0, 0xff, 0x07] @ writeSessionHeader
       \<lparr>h_AuthenticationType = authTypeRMCPPlus, h_PayloadType = 0xc0, h_SessionId = rc,
        h_SessionSequenceNumber = seq, h_IpmiPayloadLen = 32\<rparr> \<and>
     decryptByCBCMode (generateK2 sik) (slice 16 32 out) = Ret answer \<and>
     drop 52 out = generateIntegrityData (slice 4 48 out) (generateK1 sik)"

lemma console_command_ok:
  assumes x: "sessions s i = Some x" "getBMCUser users (string_of_bytes (s_UserName x)) \<noteq> None"
      "s_IntegrityKey x = generateK1 sik" "s_ConfidentialityKey x = generateK2 sik"
    and iv: "length iv = 16" and plain: "length plain \<le> 15"
    and msg: "newIPMI plain (length plain) = Ret msg"
    and h: "ipmi_handle M msg s = (Ret answer, s')" "length answer \<le> 15"
    and g: "generateRandomNumber (entropy s) = (Ret iv', g')"
  shows "\<exists>out. handleRMCPRequest M users (console_command i seq sik iv plain @ rest) s = (Ret out, s'\<lparr>entropy := g'\<rparr>)
    \<and> valid_answer sik (s_RemoteConsoleSessionId x) seq answer out"
proof -
  let ?e = "console_encrypt sik iv plain"
  let ?r = "ipmiSessionTrailer @ generateIntegrityData (drop 4 (rmcp_packet 0xc0 i seq ?e @ ipmiSessionTrailer)) (generateK1 sik) @ rest"
  let ?c = "console_encrypt sik iv' answer"
  have cmd: "console_command i seq sik iv plain @ rest = rmcp_packet 0xc0 i seq ?e @ ?r"
    by (simp add: console_command_def Let_def)
  have el: "length ?e = 32" and cl: "length ?c = 32" and iv': "length iv' = 16"
    using iv plain h(2) g by (simp_all add: console_encrypt_length)
  have "entropy s' = entropy s" using ipmi_handle_entropy [of M msg s] h by simp
  then have enc: "on_entropy (encryptByCBCMode (generateK2 sik) answer) s' = (Ret ?c, s'\<lparr>entropy := g'\<rparr>)"
    using encryptByCBCMode_eq [of "generateK2 sik" answer "entropy s" iv' g'] h(2) g
    by (simp add: on_entropy_def console_encrypt_def)
  let ?h = "\<lparr>h_AuthenticationType = authTypeRMCPPlus, h_PayloadType = 0xc0, h_SessionId = i,
        h_SessionSequenceNumber = seq, h_IpmiPayloadLen = 32\<rparr>"
  let ?body = "writeSessionHeader (encryptedHeader (s_RemoteConsoleSessionId x) seq ?c) @ ?c @ ipmiSessionTrailer"
  obtain u where u: "getBMCUser users (string_of_bytes (s_UserName x)) = Some u" using x(2) by blast
  have "handleEncryptedRequest M users ?h (?e @ ?r) s =
      (Ret (?body @ generateIntegrityData ?body (generateK1 sik)), s'\<lparr>entropy := g'\<rparr>)"
    using el
    by (simp add: handleEncryptedRequest_def getRMCPPlusSession_def x(1,3,4) u msg console_encrypt_decrypt [OF iv plain]
        bindA_Ret [of "ipmi_handle M msg", OF h(1)] bindA_Ret [of "on_entropy (encryptByCBCMode (generateK2 sik) answer)", OF enc] Let_def retA_def)
  then have out: "handleRMCPRequest M users (console_command i seq sik iv plain @ rest) s =
      (Ret (appendRMCPHeader (?body @ generateIntegrityData ?body (generateK1 sik))), s'\<lparr>entropy := g'\<rparr>)"
    unfolding cmd handleRMCPRequest_packet by (simp add: rmcpPlus_handle_dispatch el bindA_Ret retA_def)
  have "length (generateIntegrityData d k) = 12" for d k by (simp add: generateIntegrityData_def)
  then show ?thesis
    unfolding out
    by (simp add: valid_answer_def appendRMCPHeader_bytes cl slice_def ipmiSessionTrailer_def encryptedHeader_def
        console_encrypt_decrypt [OF iv' h(2)])
qed

end
