(* ===== verification/Json.thy ===== *)
theory Json
  imports Prelude
begin

text \<open>
  What the program uses of \<open>encoding/json\<close>: the texts it accepts, and decoding into a
  struct. A text is parsed as Go's scanner does (white space, the number grammar, control
  characters refused in strings, escapes with surrogate pairs). Decoding into a struct
  matches an object key with a field name without regard to case, ignores other keys,
  leaves a field alone on \<open>null\<close>, lets a later key override an earlier one, and reports a
  value of another type as an error after the whole text has been decoded.
\<close>

datatype json =
    JNull
  | JBool bool
  | JNum string
  | JStr string
  | JArr "json list"
  | JObj "(string \<times> json) list"

subsection \<open>Lexical level\<close>

fun skip_ws :: "string \<Rightarrow> string" where
  "skip_ws [] = []"
| "skip_ws (c # cs) = (if c \<in> {CHR 0x20, CHR 0x09, CHR 0x0A, CHR 0x0D} then skip_ws cs else c # cs)"

lemma skip_ws_length [termination_simp]: "length (skip_ws s) \<le> length s"
  by (induction s) auto

lemma skip_ws_Cons: "skip_ws s = c # r \<Longrightarrow> length r < length s"
  using skip_ws_length [of s] by simp

definition is_digit :: "char \<Rightarrow> bool" where
  "is_digit c \<longleftrightarrow> 48 \<le> (of_char c :: nat) \<and> (of_char c :: nat) \<le> 57"

definition digits :: "string \<Rightarrow> (string \<times> string) option" where
  "digits s = (let d = takeWhile is_digit s in if d = [] then None else Some (d, dropWhile is_digit s))"

definition opt_prefix :: "char list \<Rightarrow> string \<Rightarrow> string \<times> string" where
  "opt_prefix cs s = (case s of c # r \<Rightarrow> if c \<in> set cs then ([c], r) else ([], s) | [] \<Rightarrow> ([], []))"

definition p_frac :: "string \<Rightarrow> (string \<times> string) option" where
  "p_frac s = (case s of
      c # r \<Rightarrow> if c = CHR ''.'' then map_option (apfst (Cons c)) (digits r) else Some ([], s)
    | [] \<Rightarrow> Some ([], []))"

definition p_exp :: "string \<Rightarrow> (string \<times> string) option" where
  "p_exp s = (case s of
      c # r \<Rightarrow>
        if c \<in> {CHR ''e'', CHR ''E''} then
          (let (sg, r') = opt_prefix [CHR ''+'', CHR ''-''] r
           in map_option (apfst (\<lambda>d. c # sg @ d)) (digits r'))
        else Some ([], s)
    | [] \<Rightarrow> Some ([], []))"

definition p_int :: "string \<Rightarrow> (string \<times> string) option" where
  "p_int s = (case s of
      c # r \<Rightarrow> if c = CHR ''0'' then Some ([c], r) else digits s
    | [] \<Rightarrow> None)"

definition p_num :: "string \<Rightarrow> (string \<times> string) option" where
  "p_num s =
     (let (sg, s1) = opt_prefix [CHR ''-''] s in
      case p_int s1 of None \<Rightarrow> None | Some (i, s2) \<Rightarrow>
      (case p_frac s2 of None \<Rightarrow> None | Some (f, s3) \<Rightarrow>
      (case p_exp s3 of None \<Rightarrow> None | Some (e, s4) \<Rightarrow> Some (sg @ i @ f @ e, s4))))"

definition hex_val :: "char \<Rightarrow> nat option" where
  "hex_val c =
     (let n = of_char c :: nat
      in if 48 \<le> n \<and> n \<le> 57 then Some (n - 48)
         else if 97 \<le> n \<and> n \<le> 102 then Some (n - 87)
         else if 65 \<le> n \<and> n \<le> 70 then Some (n - 55) else None)"

fun hex4 :: "string \<Rightarrow> nat option" where
  "hex4 [a, b, c, d] =
     (case (hex_val a, hex_val b, hex_val c, hex_val d) of
        (Some w, Some x, Some y, Some z) \<Rightarrow> Some (4096 * w + 256 * x + 16 * y + z)
      | _ \<Rightarrow> None)"
| "hex4 _ = None"

definition utf8 :: "nat \<Rightarrow> string" where
  "utf8 n =
     (if n < 0x80 then [char_of n]
      else if n < 0x800 then [char_of (0xC0 + n div 64), char_of (0x80 + n mod 64)]
      else if n < 0x10000 then
        [char_of (0xE0 + n div 4096), char_of (0x80 + n div 64 mod 64), char_of (0x80 + n mod 64)]
      else [char_of (0xF0 + n div 262144), char_of (0x80 + n div 4096 mod 64),
            char_of (0x80 + n div 64 mod 64), char_of (0x80 + n mod 64)])"

definition is_surrogate :: "nat \<Rightarrow> bool" where
  "is_surrogate n \<longleftrightarrow> 0xD800 \<le> n \<and> n < 0xE000"

text \<open>A pair of surrogates is one character; a lone one is the replacement character.\<close>

definition low_surrogate :: "nat \<Rightarrow> string \<Rightarrow> nat option" where
  "low_surrogate hi r =
     (if take 2 r = [CHR 0x5C, CHR ''u''] \<and> hi < 0xDC00 then
        (case hex4 (take 4 (drop 2 r)) of
           Some lo \<Rightarrow> if 0xDC00 \<le> lo \<and> lo < 0xE000 then Some lo else None
         | None \<Rightarrow> None)
      else None)"

definition escape_char :: "char \<Rightarrow> char option" where
  "escape_char c =
     (if c \<in> {CHR 0x22, CHR 0x5C, CHR ''/''} then Some c
      else if c = CHR ''b'' then Some (CHR 0x08) else if c = CHR ''f'' then Some (CHR 0x0C)
      else if c = CHR ''n'' then Some (CHR 0x0A) else if c = CHR ''r'' then Some (CHR 0x0D)
      else if c = CHR ''t'' then Some (CHR 0x09) else None)"

text \<open>The rest of a string after its opening quote.\<close>

function p_str :: "string \<Rightarrow> (string \<times> string) option" where
  "p_str [] = None"
| "p_str (c # cs) =
     (if c = CHR 0x22 then Some ([], cs)
      else if (of_char c :: nat) < 0x20 then None
      else if c \<noteq> CHR 0x5C then map_option (apfst (Cons c)) (p_str cs)
      else (case cs of
          [] \<Rightarrow> None
        | e # r \<Rightarrow>
            (case escape_char e of
               Some x \<Rightarrow> map_option (apfst (Cons x)) (p_str r)
             | None \<Rightarrow>
                 if e \<noteq> CHR ''u'' then None
                 else (case hex4 (take 4 r) of
                     None \<Rightarrow> None
                   | Some n \<Rightarrow>
                       if \<not> is_surrogate n then map_option (apfst (\<lambda>t. utf8 n @ t)) (p_str (drop 4 r))
                       else (case low_surrogate n (drop 4 r) of
                           Some lo \<Rightarrow> map_option (apfst (\<lambda>t. utf8 ((n - 0xD800) * 1024 + (lo - 0xDC00) + 0x10000) @ t))
                                        (p_str (drop 10 r))
                         | None \<Rightarrow> map_option (apfst (\<lambda>t. utf8 0xFFFD @ t)) (p_str (drop 4 r)))))))"
  by pat_completeness auto
termination by (relation "measure length") auto

subsection \<open>Values\<close>

definition p_lit :: "string \<Rightarrow> json \<Rightarrow> string \<Rightarrow> (json \<times> string) option" where
  "p_lit w v s = (if take (length w) s = w then Some (v, drop (length w) s) else None)"

text \<open>
  The recursive descent. The tests that the rest is shorter hold for every call; they only
  make the recursion visibly finite.
\<close>

function p_val :: "string \<Rightarrow> (json \<times> string) option"
  and p_elems :: "string \<Rightarrow> (json list \<times> string) option"
  and p_members :: "string \<Rightarrow> ((string \<times> json) list \<times> string) option" where
  "p_val s =
     (case skip_ws s of
        [] \<Rightarrow> None
      | c # r \<Rightarrow>
          if c = CHR ''{'' then
            (case skip_ws r of
               d # r' \<Rightarrow> if d = CHR ''}'' then Some (JObj [], r') else map_option (apfst JObj) (p_members (d # r'))
             | [] \<Rightarrow> None)
          else if c = CHR ''['' then
            (case skip_ws r of
               d # r' \<Rightarrow> if d = CHR '']'' then Some (JArr [], r') else map_option (apfst JArr) (p_elems (d # r'))
             | [] \<Rightarrow> None)
          else if c = CHR 0x22 then map_option (apfst JStr) (p_str r)
          else if c = CHR ''t'' then p_lit ''true'' (JBool True) (c # r)
          else if c = CHR ''f'' then p_lit ''false'' (JBool False) (c # r)
          else if c = CHR ''n'' then p_lit ''null'' JNull (c # r)
          else map_option (apfst JNum) (p_num (c # r)))"
| "p_elems s =
     (case p_val s of
        None \<Rightarrow> None
      | Some (v, r) \<Rightarrow>
          (case skip_ws r of
             c # r' \<Rightarrow>
               if c = CHR '']'' then Some ([v], r')
               else if c = CHR '','' \<and> length r' < length s then map_option (apfst (Cons v)) (p_elems r')
               else None
           | [] \<Rightarrow> None))"
| "p_members s =
     (case skip_ws s of
        q # r \<Rightarrow>
          if q \<noteq> CHR 0x22 then None
          else (case p_str r of
              None \<Rightarrow> None
            | Some (k, r1) \<Rightarrow>
                (case skip_ws r1 of
                   c # r2 \<Rightarrow>
                     if c = CHR '':'' \<and> length r2 < length s then
                       (case p_val r2 of
                          None \<Rightarrow> None
                        | Some (v, r3) \<Rightarrow>
                            (case skip_ws r3 of
                               d # r4 \<Rightarrow>
                                 if d = CHR ''}'' then Some ([(k, v)], r4)
                                 else if d = CHR '','' \<and> length r4 < length s
                                 then map_option (apfst (Cons (k, v))) (p_members r4)
                                 else None
                             | [] \<Rightarrow> None))
                     else None
                 | [] \<Rightarrow> None))
      | [] \<Rightarrow> None)"
  by pat_completeness auto

termination
proof (relation "measure (\<lambda>x. case x of Inl s \<Rightarrow> 2 * length s
      | Inr (Inl s) \<Rightarrow> 2 * length s + 1 | Inr (Inr s) \<Rightarrow> 2 * length s + 1)", goal_cases)
  case (2 s c r d r')
  then show ?case using skip_ws_Cons [of s c r] skip_ws_Cons [of r d r'] by simp
next
  case (3 s c r d r')
  then show ?case using skip_ws_Cons [of s c r] skip_ws_Cons [of r d r'] by simp
qed auto

definition parse_json :: "string \<Rightarrow> json option" where
  "parse_json s = (case p_val s of Some (v, r) \<Rightarrow> if skip_ws r = [] then Some v else None | None \<Rightarrow> None)"

subsection \<open>Field names\<close>

text \<open>
  Folding of field names: ASCII letters, and the two other characters that fold into ASCII,
  the long s and the Kelvin sign.
\<close>

fun fold_name :: "string \<Rightarrow> string" where
  "fold_name [] = []"
| "fold_name (a # cs) =
     (if a = CHR 0xC5 \<and> take 1 cs = [CHR 0xBF] then CHR ''s'' # fold_name (drop 1 cs)
      else if a = CHR 0xE2 \<and> take 2 cs = [CHR 0x84, CHR 0xAA] then CHR ''k'' # fold_name (drop 2 cs)
      else (if 65 \<le> (of_char a :: nat) \<and> (of_char a :: nat) \<le> 90
            then char_of ((of_char a :: nat) + 32) else a) # fold_name cs)"

definition field :: "string \<Rightarrow> string \<Rightarrow> bool" where
  "field name key \<longleftrightarrow> fold_name key = name"

end
