(* ===== verification/Qmp.thy ===== *)
theory Qmp
  imports Machine Json
begin

text \<open>
  The QMP client of a virtual machine, \<open>v2/pkg/vm/node.go\<close>: \<open>PowerStatus\<close>, \<open>PowerOn\<close> and
  \<open>PowerOff\<close> of \<open>vm\<close>, with \<open>read\<close>, \<open>writeCommand\<close> and the decoding of the status.
  QEMU and the socket to it are not part of the program: they are the parameter \<open>qmp\<close>,
  whose documented behaviour is the locale \<open>qmp_peer\<close>. A peer that keeps it gives the
  program a machine in the sense of \<open>Machine\<close>. The theory ends with an executable QEMU
  that keeps the contract.
\<close>

subsection \<open>The client\<close>

text \<open>
  A connection to the QMP socket. A read that gets no line before the deadline, or the end of the
  stream, is an error.
\<close>

record 'q qmp =
  q_dial :: "('q, unit) act"
  q_setDeadline :: "('q, unit) act"
  q_readLine :: "('q, string) act"
  q_write :: "string \<Rightarrow> ('q, unit) act"
  q_close :: "'q \<Rightarrow> 'q"

definition deferClose :: "'q qmp \<Rightarrow> ('q, 'a) act \<Rightarrow> ('q, 'a) act" where
  "deferClose Q m q = (case m q of (r, q') \<Rightarrow> (r, q_close Q q'))"

definition qmp_read :: "'q qmp \<Rightarrow> ('q, string) act" where
  "qmp_read Q = q_readLine Q"

text \<open>\<open>json.Marshal(ExecuteCommand{...})\<close>: the command names need no escaping.\<close>

definition marshalExecute :: "string \<Rightarrow> string" where
  "marshalExecute command = [CHR ''{'', CHR 0x22] @ ''execute'' @ [CHR 0x22, CHR '':'', CHR 0x22] @ command
     @ [CHR 0x22, CHR ''}'']"

definition writeCommand :: "'q qmp \<Rightarrow> string \<Rightarrow> ('q, unit) act" where
  "writeCommand Q command = q_write Q (marshalExecute command)"

text \<open>
  Decoding into \<open>QueryStatusResponse\<close>: the pair is the field \<open>Running\<close> and whether every
  value so far had the type of its field.
\<close>

fun set_status :: "string \<times> json \<Rightarrow> bool \<times> bool \<Rightarrow> bool \<times> bool" where
  "set_status (k, v) (running, ok) =
     (if field ''running'' k then
        (case v of JBool b \<Rightarrow> (b, ok) | JNull \<Rightarrow> (running, ok) | _ \<Rightarrow> (running, False))
      else if field ''singlestep'' k then
        (case v of JBool b \<Rightarrow> (running, ok) | JNull \<Rightarrow> (running, ok) | _ \<Rightarrow> (running, False))
      else if field ''status'' k then
        (case v of JStr t \<Rightarrow> (running, ok) | JNull \<Rightarrow> (running, ok) | _ \<Rightarrow> (running, False))
      else (running, ok))"

fun set_response :: "string \<times> json \<Rightarrow> bool \<times> bool \<Rightarrow> bool \<times> bool" where
  "set_response (k, v) (running, ok) =
     (if field ''return'' k then
        (case v of JObj kvs \<Rightarrow> fold set_status kvs (running, ok) | JNull \<Rightarrow> (running, ok)
         | _ \<Rightarrow> (running, False))
      else (running, ok))"

definition unmarshalRunning :: "string \<Rightarrow> bool res" where
  "unmarshalRunning text =
     (case parse_json text of
        None \<Rightarrow> Fail (ErrNew ''invalid JSON'')
      | Some JNull \<Rightarrow> Ret False
      | Some (JObj kvs) \<Rightarrow>
          (let (running, ok) = fold set_response kvs (False, True)
           in if ok then Ret running else Fail (ErrNew ''json: cannot unmarshal into Go value''))
      | Some _ \<Rightarrow> Fail (ErrNew ''json: cannot unmarshal into Go value''))"

text \<open>\<open>defer conn.Close()\<close> stands after \<open>SetDeadline\<close>: a connection whose deadline cannot be set stays open.\<close>

definition vm_PowerStatus :: "'q qmp \<Rightarrow> ('q, PowerStatus) act" where
  "vm_PowerStatus Q =
     bindA (q_dial Q) (\<lambda>_.
     bindA (q_setDeadline Q) (\<lambda>_.
     deferClose Q (
       bindA (qmp_read Q) (\<lambda>_.
       bindA (writeCommand Q ''qmp_capabilities'') (\<lambda>_.
       bindA (qmp_read Q) (\<lambda>_.
       bindA (writeCommand Q ''query-status'') (\<lambda>_.
       bindA (qmp_read Q) (\<lambda>res.
       bindA (liftA (unmarshalRunning res)) (\<lambda>running.
       retA (if running then PowerStatusOn else PowerStatusOff))))))))))"

definition vm_PowerOn :: "'q qmp \<Rightarrow> ('q, unit) act" where
  "vm_PowerOn Q =
     bindA (q_dial Q) (\<lambda>_.
     bindA (q_setDeadline Q) (\<lambda>_.
     deferClose Q (
       bindA (qmp_read Q) (\<lambda>_.
       bindA (writeCommand Q ''qmp_capabilities'') (\<lambda>_.
       bindA (qmp_read Q) (\<lambda>_.
       bindA (writeCommand Q ''system_reset'') (\<lambda>_.
       bindA (qmp_read Q) (\<lambda>_.
       bindA (qmp_read Q) (\<lambda>_.
       bindA (writeCommand Q ''cont'') (\<lambda>_.
       bindA (qmp_read Q) (\<lambda>_.
       bindA (qmp_read Q) (\<lambda>_.
       retA ()))))))))))))"

definition vm_PowerOff :: "'q qmp \<Rightarrow> ('q, unit) act" where
  "vm_PowerOff Q =
     bindA (q_dial Q) (\<lambda>_.
     bindA (q_setDeadline Q) (\<lambda>_.
     deferClose Q (
       bindA (qmp_read Q) (\<lambda>_.
       bindA (writeCommand Q ''qmp_capabilities'') (\<lambda>_.
       bindA (qmp_read Q) (\<lambda>_.
       bindA (writeCommand Q ''stop'') (\<lambda>_.
       bindA (qmp_read Q) (\<lambda>_.
       bindA (qmp_read Q) (\<lambda>_.
       retA ())))))))))"

definition vm_machine :: "'q qmp \<Rightarrow> 'q Machine" where
  "vm_machine Q =
     \<lparr>PowerStatus_m = vm_PowerStatus Q, PowerOn_m = vm_PowerOn Q, PowerOff_m = vm_PowerOff Q\<rparr>"

subsection \<open>The contract of the peer\<close>

text \<open>
  The documented protocol. A connection starts with a greeting in negotiation mode, where
  only \<open>qmp_capabilities\<close> works; every command is answered by one line; \<open>system_reset\<close>,
  a \<open>cont\<close> that resumes and a \<open>stop\<close> that stops are followed by one event line; the answer
  to \<open>query-status\<close> says whether the guest runs. The state of a peer is seen as a phase:
  no connection, or a connection with its mode and the lines not yet read.
\<close>

datatype qmode = Negotiation | CommandMode

datatype phase = Idle bool | Connected qmode "string list" bool

locale qmp_peer =
  fixes Q :: "'q qmp" and ph :: "'q \<Rightarrow> phase"
  assumes dial_law: "ph q = Idle r \<Longrightarrow>
      \<exists>q' l. q_dial Q q = (Ret (), q') \<and> ph q' = Connected Negotiation [l] r"
    and deadline_law: "ph q = Connected m ls r \<Longrightarrow>
      \<exists>q'. q_setDeadline Q q = (Ret (), q') \<and> ph q' = Connected m ls r"
    and read_law: "ph q = Connected m (l # ls) r \<Longrightarrow>
      \<exists>q'. q_readLine Q q = (Ret l, q') \<and> ph q' = Connected m ls r"
    and capabilities_law: "ph q = Connected Negotiation ls r \<Longrightarrow>
      \<exists>q' l. q_write Q (marshalExecute ''qmp_capabilities'') q = (Ret (), q')
        \<and> ph q' = Connected CommandMode (ls @ [l]) r"
    and query_law: "ph q = Connected CommandMode ls r \<Longrightarrow>
      \<exists>q' l. q_write Q (marshalExecute ''query-status'') q = (Ret (), q')
        \<and> ph q' = Connected CommandMode (ls @ [l]) r \<and> unmarshalRunning l = Ret r"
    and reset_law: "ph q = Connected CommandMode ls r \<Longrightarrow>
      \<exists>q' l e. q_write Q (marshalExecute ''system_reset'') q = (Ret (), q')
        \<and> ph q' = Connected CommandMode (ls @ [l, e]) r"
    and cont_law: "ph q = Connected CommandMode ls False \<Longrightarrow>
      \<exists>q' l e. q_write Q (marshalExecute ''cont'') q = (Ret (), q')
        \<and> ph q' = Connected CommandMode (ls @ [l, e]) True"
    and stop_law: "ph q = Connected CommandMode ls True \<Longrightarrow>
      \<exists>q' l e. q_write Q (marshalExecute ''stop'') q = (Ret (), q')
        \<and> ph q' = Connected CommandMode (ls @ [l, e]) False"
    and close_law: "ph q = Connected m ls r \<Longrightarrow> ph (q_close Q q) = Idle r"
begin

definition leads :: "('q, 'a) act \<Rightarrow> 'q \<Rightarrow> ('a res \<Rightarrow> bool) \<Rightarrow> phase \<Rightarrow> bool" where
  "leads f q R p \<longleftrightarrow> (\<exists>x q'. f q = (x, q') \<and> R x \<and> ph q' = p)"

lemma leads_bind: "f q = (Ret x, q') \<Longrightarrow> leads (g x) q' R p \<Longrightarrow> leads (bindA f g) q R p"
  by (simp add: leads_def bindA_Ret)

lemma leads_ret: "ph q = p \<Longrightarrow> R (Ret x) \<Longrightarrow> leads (retA x) q R p"
  by (simp add: leads_def retA_def)

lemma leads_read:
  assumes "ph q = Connected m (l # ls) r"
    and "\<And>q'. ph q' = Connected m ls r \<Longrightarrow> leads (g l) q' R p"
  shows "leads (bindA (qmp_read Q) g) q R p"
  using read_law [OF assms(1)] assms(2) unfolding qmp_read_def by (blast intro: leads_bind)

lemma leads_open:
  assumes "ph q = Idle r"
    and "\<And>q' l. ph q' = Connected Negotiation [l] r \<Longrightarrow> leads f q' R (Connected m ls r')"
  shows "leads (bindA (q_dial Q) (\<lambda>_. bindA (q_setDeadline Q) (\<lambda>_. deferClose Q f))) q R (Idle r')"
proof -
  obtain q1 l where 1: "q_dial Q q = (Ret (), q1)" "ph q1 = Connected Negotiation [l] r"
    using dial_law [OF assms(1)] by blast
  obtain q2 where 2: "q_setDeadline Q q1 = (Ret (), q2)" "ph q2 = Connected Negotiation [l] r"
    using deadline_law [OF 1(2)] by blast
  obtain x q3 where 3: "f q2 = (x, q3)" "R x" "ph q3 = Connected m ls r'"
    using assms(2) [OF 2(2)] by (auto simp: leads_def)
  then have "leads (deferClose Q f) q2 R (Idle r')"
    by (simp add: leads_def deferClose_def close_law)
  with 1 2 show ?thesis by (blast intro: leads_bind)
qed

text \<open>The common prologue: read the greeting, negotiate, read the answer.\<close>

lemma leads_negotiate:
  assumes "ph q = Connected Negotiation [l] r"
    and "\<And>q'. ph q' = Connected CommandMode [] r \<Longrightarrow> leads g q' R p"
  shows "leads (bindA (qmp_read Q) (\<lambda>_. bindA (writeCommand Q ''qmp_capabilities'') (\<lambda>_.
    bindA (qmp_read Q) (\<lambda>_. g)))) q R p"
proof (rule leads_read [OF assms(1)])
  fix q' assume q': "ph q' = Connected Negotiation [] r"
  obtain q2 l2 where 2: "writeCommand Q ''qmp_capabilities'' q' = (Ret (), q2)" "ph q2 = Connected CommandMode [l2] r"
    using capabilities_law [OF q'] by (auto simp: writeCommand_def)
  have "leads (bindA (qmp_read Q) (\<lambda>_. g)) q2 R p"
    by (rule leads_read [OF 2(2)]) (rule assms(2))
  with 2 show "leads (bindA (writeCommand Q ''qmp_capabilities'') (\<lambda>_. bindA (qmp_read Q) (\<lambda>_. g))) q' R p"
    by (blast intro: leads_bind)
qed

lemma leads_two_lines:
  assumes "f q = (Ret (), q1)" "ph q1 = Connected m [l, e] r"
    and "\<And>q'. ph q' = Connected m [] r \<Longrightarrow> leads g q' R p"
  shows "leads (bindA f (\<lambda>_. bindA (qmp_read Q) (\<lambda>_. bindA (qmp_read Q) (\<lambda>_. g)))) q R p"
proof (rule leads_bind [of f q, OF assms(1)], rule leads_read [OF assms(2)])
  show "leads (bindA (qmp_read Q) (\<lambda>_. g)) q' R p" if q': "ph q' = Connected m [e] r" for q'
    by (rule leads_read [OF q']) (rule assms(3))
qed

lemma PowerStatus_leads:
  assumes "ph q = Idle r"
  shows "leads (vm_PowerStatus Q) q (\<lambda>x. x = Ret (if r then PowerStatusOn else PowerStatusOff)) (Idle r)"
  unfolding vm_PowerStatus_def
proof (rule leads_open [OF assms, where m = CommandMode and ls = "[]"], rule leads_negotiate, assumption)
  fix q1 assume q1: "ph q1 = Connected CommandMode [] r"
  obtain q2 l where 2: "writeCommand Q ''query-status'' q1 = (Ret (), q2)"
    "ph q2 = Connected CommandMode [l] r" "unmarshalRunning l = Ret r"
    using query_law [OF q1] by (auto simp: writeCommand_def)
  show "leads (bindA (writeCommand Q ''query-status'') (\<lambda>_. bindA (qmp_read Q) (\<lambda>res.
      bindA (liftA (unmarshalRunning res)) (\<lambda>running. retA (if running then PowerStatusOn else PowerStatusOff)))))
      q1 (\<lambda>x. x = Ret (if r then PowerStatusOn else PowerStatusOff)) (Connected CommandMode [] r)"
    by (rule leads_bind [of "writeCommand Q ''query-status''" q1, OF 2(1)], rule leads_read [OF 2(2)]) (auto simp: 2(3) intro: leads_ret)
qed

lemma PowerOff_leads:
  assumes "ph q = Idle True"
  shows "leads (vm_PowerOff Q) q (\<lambda>x. x = Ret ()) (Idle False)"
  unfolding vm_PowerOff_def
proof (rule leads_open [OF assms, where m = CommandMode and ls = "[]"], rule leads_negotiate, assumption)
  fix q1 assume q1: "ph q1 = Connected CommandMode [] True"
  obtain q2 l e where 2: "writeCommand Q ''stop'' q1 = (Ret (), q2)" "ph q2 = Connected CommandMode [l, e] False"
    using stop_law [OF q1] by (auto simp: writeCommand_def)
  show "leads (bindA (writeCommand Q ''stop'') (\<lambda>_. bindA (qmp_read Q) (\<lambda>_. bindA (qmp_read Q) (\<lambda>_. retA ()))))
      q1 (\<lambda>x. x = Ret ()) (Connected CommandMode [] False)"
    by (rule leads_two_lines [of "writeCommand Q ''stop''" q1, OF 2]) (rule leads_ret, simp_all)
qed

lemma PowerOn_leads:
  assumes "ph q = Idle False"
  shows "leads (vm_PowerOn Q) q (\<lambda>x. x = Ret ()) (Idle True)"
  unfolding vm_PowerOn_def
proof (rule leads_open [OF assms, where m = CommandMode and ls = "[]"], rule leads_negotiate, assumption)
  fix q1 assume q1: "ph q1 = Connected CommandMode [] False"
  obtain q2 l e where 2: "writeCommand Q ''system_reset'' q1 = (Ret (), q2)" "ph q2 = Connected CommandMode [l, e] False"
    using reset_law [OF q1] by (auto simp: writeCommand_def)
  have "leads (bindA (writeCommand Q ''cont'') (\<lambda>_. bindA (qmp_read Q) (\<lambda>_. bindA (qmp_read Q) (\<lambda>_. retA ()))))
      q3 (\<lambda>x. x = Ret ()) (Connected CommandMode [] True)" if q3: "ph q3 = Connected CommandMode [] False" for q3
  proof -
    obtain q4 l e where 4: "writeCommand Q ''cont'' q3 = (Ret (), q4)" "ph q4 = Connected CommandMode [l, e] True"
      using cont_law [OF q3] by (auto simp: writeCommand_def)
    show ?thesis by (rule leads_two_lines [of "writeCommand Q ''cont''" q3, OF 4]) (rule leads_ret, simp_all)
  qed
  then show "leads (bindA (writeCommand Q ''system_reset'') (\<lambda>_. bindA (qmp_read Q) (\<lambda>_. bindA (qmp_read Q) (\<lambda>_.
      bindA (writeCommand Q ''cont'') (\<lambda>_. bindA (qmp_read Q) (\<lambda>_. bindA (qmp_read Q) (\<lambda>_. retA ()))))))) 
      q1 (\<lambda>x. x = Ret ()) (Connected CommandMode [] True)"
    by (rule leads_two_lines [of "writeCommand Q ''system_reset''" q1, OF 2])
qed

end

sublocale qmp_peer \<subseteq> vmm: machine "vm_machine Q" "\<lambda>q. \<exists>r. ph q = Idle r" "\<lambda>q. ph q = Idle True"
proof (unfold_locales, goal_cases)
  case (1 m)
  then show ?case using PowerStatus_leads by (fastforce simp: leads_def vm_machine_def)
next
  case (2 m)
  then obtain r where "ph m = Idle r" "\<not> r" by auto
  then show ?case using PowerOn_leads [of m] by (auto simp: leads_def vm_machine_def)
next
  case (3 m)
  then show ?case using PowerOff_leads [of m] by (auto simp: leads_def vm_machine_def)
qed

subsection \<open>Commands without effect\<close>

text \<open>
  The rest of the protocol: \<open>cont\<close> in a running guest and \<open>stop\<close> in a stopped one are
  answered by one line and no event, and a read with no line to come ends at the deadline
  with an error.
\<close>

locale quiet_peer = qmp_peer +
  assumes cont_running: "ph q = Connected CommandMode ls True \<Longrightarrow>
      \<exists>q' l. q_write Q (marshalExecute ''cont'') q = (Ret (), q') \<and> ph q' = Connected CommandMode (ls @ [l]) True"
    and stop_stopped: "ph q = Connected CommandMode ls False \<Longrightarrow>
      \<exists>q' l. q_write Q (marshalExecute ''stop'') q = (Ret (), q') \<and> ph q' = Connected CommandMode (ls @ [l]) False"
    and timeout_law: "ph q = Connected m [] r \<Longrightarrow> \<exists>q' e. q_readLine Q q = (Fail e, q') \<and> ph q' = Connected m [] r"
begin

lemma leads_timeout:
  assumes "f q = (Ret (), q1)" "ph q1 = Connected m [l] r"
  shows "leads (bindA f (\<lambda>_. bindA (qmp_read Q) (\<lambda>_. bindA (qmp_read Q) (\<lambda>_. g)))) q (\<lambda>x. \<exists>e. x = Fail e) (Connected m [] r)"
proof (rule leads_bind [of f q, OF assms(1)], rule leads_read [OF assms(2)])
  fix q' assume "ph q' = Connected m [] r"
  from timeout_law [OF this] show "leads (bindA (qmp_read Q) (\<lambda>_. g)) q' (\<lambda>x. \<exists>e. x = Fail e) (Connected m [] r)"
    by (auto simp: leads_def qmp_read_def bindA_Fail)
qed

lemma PowerOff_again:
  assumes "ph q = Idle False"
  shows "leads (vm_PowerOff Q) q (\<lambda>x. \<exists>e. x = Fail e) (Idle False)"
  unfolding vm_PowerOff_def
proof (rule leads_open [OF assms, where m = CommandMode and ls = "[]"], rule leads_negotiate, assumption)
  fix q1 assume q1: "ph q1 = Connected CommandMode [] False"
  obtain q2 l where "writeCommand Q ''stop'' q1 = (Ret (), q2)" "ph q2 = Connected CommandMode [l] False"
    using stop_stopped [OF q1] by (auto simp: writeCommand_def)
  then show "leads (bindA (writeCommand Q ''stop'') (\<lambda>_. bindA (qmp_read Q) (\<lambda>_. bindA (qmp_read Q) (\<lambda>_. retA ()))))
      q1 (\<lambda>x. \<exists>e. x = Fail e) (Connected CommandMode [] False)"
    by (rule leads_timeout [of "writeCommand Q ''stop''" q1])
qed

lemma PowerOn_again:
  assumes "ph q = Idle True"
  shows "leads (vm_PowerOn Q) q (\<lambda>x. \<exists>e. x = Fail e) (Idle True)"
  unfolding vm_PowerOn_def
proof (rule leads_open [OF assms, where m = CommandMode and ls = "[]"], rule leads_negotiate, assumption)
  fix q1 assume q1: "ph q1 = Connected CommandMode [] True"
  obtain q2 l e where 2: "writeCommand Q ''system_reset'' q1 = (Ret (), q2)" "ph q2 = Connected CommandMode [l, e] True"
    using reset_law [OF q1] by (auto simp: writeCommand_def)
  have "leads (bindA (writeCommand Q ''cont'') (\<lambda>_. bindA (qmp_read Q) (\<lambda>_. bindA (qmp_read Q) (\<lambda>_. retA ()))))
      q3 (\<lambda>x. \<exists>e. x = Fail e) (Connected CommandMode [] True)" if q3: "ph q3 = Connected CommandMode [] True" for q3
  proof -
    obtain q4 l where 4: "writeCommand Q ''cont'' q3 = (Ret (), q4)" "ph q4 = Connected CommandMode [l] True"
      using cont_running [OF q3] by (auto simp: writeCommand_def)
    then show ?thesis by (rule leads_timeout [of "writeCommand Q ''cont''" q3])
  qed
  then show "leads (bindA (writeCommand Q ''system_reset'') (\<lambda>_. bindA (qmp_read Q) (\<lambda>_. bindA (qmp_read Q) (\<lambda>_.
      bindA (writeCommand Q ''cont'') (\<lambda>_. bindA (qmp_read Q) (\<lambda>_. bindA (qmp_read Q) (\<lambda>_. retA ())))))))
      q1 (\<lambda>x. \<exists>e. x = Fail e) (Connected CommandMode [] True)"
    by (rule leads_two_lines [of "writeCommand Q ''system_reset''" q1, OF 2])
qed

end

sublocale quiet_peer \<subseteq> vmm: strict_machine "vm_machine Q" "\<lambda>q. \<exists>r. ph q = Idle r" "\<lambda>q. ph q = Idle True"
proof (unfold_locales, goal_cases)
  case (1 m)
  then show ?case using PowerOn_again [of m] by (auto simp: leads_def vm_machine_def)
next
  case (2 m)
  then obtain r where "ph m = Idle r" "\<not> r" by auto
  then show ?case using PowerOff_again [of m] by (auto simp: leads_def vm_machine_def)
qed

subsection \<open>An executable peer\<close>

text \<open>
  A QEMU that keeps the protocol. A \<open>stop\<close> of a stopped guest and a \<open>cont\<close> of a running
  one are answered without an event, as QEMU does.
\<close>

record refqemu =
  rq_running :: bool
  rq_conn :: "(qmode \<times> string list) option"

definition greeting_line :: string where
  "greeting_line = ''{\"QMP\": {\"version\": {}, \"capabilities\": []}}'' @ [CHR 0x0A]"

definition ok_line :: string where
  "ok_line = ''{\"return\": {}}'' @ [CHR 0x0A]"

definition event_line :: "string \<Rightarrow> string" where
  "event_line e = ''{\"event\": \"'' @ e @ ''\"}'' @ [CHR 0x0A]"

definition status_line :: "bool \<Rightarrow> string" where
  "status_line r = (if r then ''{\"return\": {\"status\": \"running\", \"singlestep\": false, \"running\": true}}''
     else ''{\"return\": {\"status\": \"paused\", \"singlestep\": false, \"running\": false}}'') @ [CHR 0x0A]"

definition ref_answer :: "string \<Rightarrow> bool \<Rightarrow> bool \<times> string list" where
  "ref_answer cmd r =
     (if cmd = marshalExecute ''query-status'' then (r, [status_line r])
      else if cmd = marshalExecute ''system_reset'' then (r, [ok_line, event_line ''RESET''])
      else if cmd = marshalExecute ''cont'' then (True, if r then [ok_line] else [ok_line, event_line ''RESUME''])
      else if cmd = marshalExecute ''stop'' then (False, if r then [ok_line, event_line ''STOP''] else [ok_line])
      else (r, [''{\"error\": {}}'' @ [CHR 0x0A]]))"

definition ref_write :: "string \<Rightarrow> (refqemu, unit) act" where
  "ref_write cmd q =
     (case rq_conn q of
        None \<Rightarrow> (Fail (ErrNew ''broken pipe''), q)
      | Some (Negotiation, ls) \<Rightarrow>
          if cmd = marshalExecute ''qmp_capabilities'' then (Ret (), q\<lparr>rq_conn := Some (CommandMode, ls @ [ok_line])\<rparr>)
          else (Ret (), q\<lparr>rq_conn := Some (Negotiation, ls @ [''{\"error\": {}}'' @ [CHR 0x0A]])\<rparr>)
      | Some (CommandMode, ls) \<Rightarrow>
          (let (r, out) = ref_answer cmd (rq_running q)
           in (Ret (), q\<lparr>rq_running := r, rq_conn := Some (CommandMode, ls @ out)\<rparr>)))"

definition ref_read :: "(refqemu, string) act" where
  "ref_read q =
     (case rq_conn q of
        Some (m, l # ls) \<Rightarrow> (Ret l, q\<lparr>rq_conn := Some (m, ls)\<rparr>)
      | _ \<Rightarrow> (Fail (ErrNew ''i/o timeout''), q))"

definition refQmp :: "refqemu qmp" where
  "refQmp =
     \<lparr>q_dial = (\<lambda>q. case rq_conn q of
          None \<Rightarrow> (Ret (), q\<lparr>rq_conn := Some (Negotiation, [greeting_line])\<rparr>)
        | Some _ \<Rightarrow> (Fail (ErrNew ''connection refused''), q)),
      q_setDeadline = retA (),
      q_readLine = ref_read,
      q_write = ref_write,
      q_close = (\<lambda>q. q\<lparr>rq_conn := None\<rparr>)\<rparr>"

definition ref_phase :: "refqemu \<Rightarrow> phase" where
  "ref_phase q = (case rq_conn q of None \<Rightarrow> Idle (rq_running q) | Some (m, ls) \<Rightarrow> Connected m ls (rq_running q))"

lemma unmarshal_status_True: "unmarshalRunning (status_line True) = Ret True"
  by code_simp

lemma unmarshal_status_False: "unmarshalRunning (status_line False) = Ret False"
  by code_simp

lemma unmarshal_status_line: "unmarshalRunning (status_line r) = Ret r"
  by (cases r) (simp_all only: unmarshal_status_True unmarshal_status_False)

lemma ref_phase_iff:
  "ref_phase q = Idle r \<longleftrightarrow> rq_conn q = None \<and> rq_running q = r"
  "ref_phase q = Connected m ls r \<longleftrightarrow> rq_conn q = Some (m, ls) \<and> rq_running q = r"
  by (auto simp: ref_phase_def split: option.splits)

lemma command_distinct:
  "marshalExecute ''query-status'' \<noteq> marshalExecute ''system_reset''"
  "marshalExecute ''query-status'' \<noteq> marshalExecute ''cont''"
  "marshalExecute ''query-status'' \<noteq> marshalExecute ''stop''"
  "marshalExecute ''system_reset'' \<noteq> marshalExecute ''cont''"
  "marshalExecute ''system_reset'' \<noteq> marshalExecute ''stop''"
  "marshalExecute ''cont'' \<noteq> marshalExecute ''stop''"
  by (simp_all add: marshalExecute_def)

lemma ref_answer_simps:
  "ref_answer (marshalExecute ''query-status'') r = (r, [status_line r])"
  "ref_answer (marshalExecute ''system_reset'') r = (r, [ok_line, event_line ''RESET''])"
  "ref_answer (marshalExecute ''cont'') r = (True, if r then [ok_line] else [ok_line, event_line ''RESUME''])"
  "ref_answer (marshalExecute ''stop'') r = (False, if r then [ok_line, event_line ''STOP''] else [ok_line])"
  by (simp_all add: ref_answer_def command_distinct command_distinct [symmetric])

interpretation refqemu: quiet_peer refQmp ref_phase
  by unfold_locales
    (auto simp: refQmp_def ref_phase_iff retA_def ref_read_def ref_write_def ref_answer_simps unmarshal_status_line)

text \<open>The machine of every BMC, on the executable peer.\<close>

abbreviation refMachine :: "refqemu Machine" where
  "refMachine \<equiv> vm_machine refQmp"

end
