(* ===== verification/BmcServer.thy ===== *)
theory BmcServer
  imports Handshake Qmp
begin

text \<open>
  Properties of the whole IPMI server: the frame of every answer, the state over any
  sequence of datagrams, power control through the console's commands, and the requests
  that end the process.
\<close>

subsection \<open>Answers\<close>

lemma on_entropy_eq_Ret:
  "on_entropy f s = (Ret x, s') \<longleftrightarrow> (\<exists>g. f (entropy s) = (Ret x, g) \<and> s' = s\<lparr>entropy := g\<rparr>)"
  by (auto simp: on_entropy_def split: prod.splits)

lemma ipmi_handle_shape:
  assumes "ipmi_handle M msg s = (Ret out, s')"
  shows "\<exists>data code. out = appendIPMIMessageHeader msg data (netFunction msg OR 1) code \<and> length data \<le> 8 \<and>
    (code = completionCodeOK \<or> code = completionCodeCouldNotExecuteCommand \<and> data = [])"
proof -
  have app: "length r \<le> 8" if "handleIPMIApp msg s = (Ret r, s1)" for r s1
    using that
    by (auto simp: handleIPMIApp_def handleIPMIAuthenticationCapabilities_def handleIPMISetSessionPrivilegeLevel_def
        liftA_def failA_def retA_def bindA_eq_Ret bindR_eq_Ret split: if_splits)
  have ch: "length r \<le> 8" if "handleIPMIChassis M msg s = (Ret r, s1)" for r s1
    using that
    by (auto simp: handleIPMIChassis_def handleIPMIGetChassisStatus_def failA_def retA_def bindA_eq_Ret split: if_splits)
  consider "netFunction msg = ipmiNetFNApp" | "netFunction msg = ipmiNetFNChassis"
    using assms by (metis Pair_inject ipmi_handle_other res.distinct(1))
  then show ?thesis
  proof cases
    case 1
    then show ?thesis using assms app
      by (fastforce simp: ipmi_handle_app ipmiNetFNResponse_def withCompletionCode_def split: prod.splits res.splits)
  next
    case 2
    then show ?thesis using assms ch
      by (fastforce simp: ipmi_handle_chassis ipmiNetFNResponse_def withCompletionCode_def split: prod.splits res.splits)
  qed
qed

lemma bit_or_1: "bit ((a :: byte) OR 1) 0"
  by (simp add: bit_or_iff)

lemma ipmi_handle_length: "ipmi_handle M msg s = (Ret out, s') \<Longrightarrow> 8 \<le> length out \<and> length out \<le> 16"
  using ipmi_handle_shape [of M msg s out s'] length_appendIPMIMessageHeader [OF bit_or_1] by fastforce

definition well_framed :: "bytes \<Rightarrow> bool" where
  "well_framed out \<longleftrightarrow>
     take 4 out = [0x06, 0x00, 0xff, 0x07] \<and>
     (if out ! 4 = authTypeRMCPPlus
      then length out = 16 + unat (of_le16 (slice 14 2 out)) + (if out ! 5 = 0xc0 then 16 else 0)
      else out ! 4 = authTypeNone \<and>
        (let n = (if of_le32 (slice 9 4 out) = 0 then 14 else 30) in length out = n + unat (out ! (n - 1))))"

lemma well_framed_RMCPPlus:
  assumes "length payload = unat (h_IpmiPayloadLen h)" "h_AuthenticationType h = authTypeRMCPPlus"
    "length trailer = (if h_PayloadType h = 0xc0 then 16 else 0)"
  shows "well_framed (appendRMCPHeader (writeSessionHeader h @ payload @ trailer))"
proof -
  have "slice 14 2 (appendRMCPHeader (writeSessionHeader h @ payload @ trailer)) = le16 (h_IpmiPayloadLen h)"
    by (simp add: appendRMCPHeader_bytes slice_def writeSessionHeader_def)
  with assms show ?thesis
    by (simp add: well_framed_def appendRMCPHeader_bytes writeSessionHeader_def Let_def)
qed

lemma handleOpenSessionRequest_framed:
  "handleOpenSessionRequest buf s = (Ret out, s') \<Longrightarrow> well_framed (appendRMCPHeader out)"
  using well_framed_RMCPPlus [of _ "handshakeHeader payloadTypeRMCPPlusOpenSessionResponse 36" "[]"]
  by (auto simp: handleOpenSessionRequest_def bindA_eq_Ret Let_def retA_def handshakeHeader_def payload_consts
      openSessionResponsePayload_def split: prod.splits)

lemma handleRAKPMessage1Request_framed:
  assumes "handleRAKPMessage1Request users buf s = (Ret out, s')"
  shows "well_framed (appendRMCPHeader out)"
proof -
  have code: "length (rakpMessage2Response tag rc mrnd guid (generateAuthCode a b c mrnd guid d e f h)) = 60"
    if "generateRandomNumber g = (Ret mrnd, g1)" "generateRandomNumber g1 = (Ret guid, g2)"
    for tag rc mrnd guid a b c d e f h g g1 g2
    using that by (simp add: rakpMessage2Response_def generateAuthCode_def)
  have "\<exists>p. length p = 60 \<and> out = writeSessionHeader (handshakeHeader payloadTypeRAKPMessage2 60) @ p"
    using assms
    by (auto simp: handleRAKPMessage1Request_def bindA_eq_Ret Let_def retA_def on_entropy_eq_Ret liftA_def
        modifyA_def panicA_def code split: prod.splits if_splits)
  then show ?thesis
    using well_framed_RMCPPlus [of _ "handshakeHeader payloadTypeRAKPMessage2 60" "[]"]
    by (auto simp: handshakeHeader_def payload_consts)
qed

lemma handleRAKPMessage3Request_framed:
  assumes "handleRAKPMessage3Request users buf s = (Ret out, s')"
  shows "well_framed (appendRMCPHeader out)"
  using assms well_framed_RMCPPlus [of _ "handshakeHeader payloadTypeRAKPMessage4 20" "[]"]
  by (auto simp: handleRAKPMessage3Request_def bindA_eq_Ret Let_def retA_def failA_def liftA_def modifyA_def
      handshakeHeader_def payload_consts rakpMessage4Response_def generateSessionIntegrityCheckValue_def
      split: prod.splits if_splits)

lemma handleEncryptedRequest_framed:
  assumes "handleEncryptedRequest M users h buf s = (Ret out, s')"
  shows "well_framed (appendRMCPHeader out)"
proof -
  obtain key resp g c g' rc seq k where c: "encryptByCBCMode key resp g = (Ret c, g')"
    and out: "out = writeSessionHeader (encryptedHeader rc seq c) @ c @ ipmiSessionTrailer
      @ generateIntegrityData (writeSessionHeader (encryptedHeader rc seq c) @ c @ ipmiSessionTrailer) k"
    using assms
    by (auto simp: handleEncryptedRequest_def bindA_eq_Ret Let_def retA_def on_entropy_eq_Ret liftA_def split: prod.splits)
  have "length c = 32" using encryptByCBCMode_Ret [OF c] by simp
  then show ?thesis
    unfolding out
    using well_framed_RMCPPlus [of c "encryptedHeader rc seq c"]
    by (simp add: encryptedHeader_def ipmiSessionTrailer_def generateIntegrityData_def)
qed

lemma rmcpPlus_handle_framed:
  "rmcpPlus_handle M users h buf s = (Ret out, s') \<Longrightarrow> well_framed (appendRMCPHeader out)"
  by (auto simp: rmcpPlus_handle_def Let_def failA_def split: if_splits
      intro: handleOpenSessionRequest_framed handleRAKPMessage1Request_framed handleRAKPMessage3Request_framed
        handleEncryptedRequest_framed)

lemma well_framed_wrapper:
  assumes "length res \<le> 16"
  shows "well_framed (appendRMCPHeader (serializeIPMISessionWrapper
    \<lparr>w_AuthenticationType = authTypeNone, w_SequenceNumber = seq, w_SessionId = sid,
     w_AuthenticationCode = replicate 16 0, w_MessageLen = of_nat (length res)\<rparr> @ res))"
proof -
  let ?out = "appendRMCPHeader (serializeIPMISessionWrapper
    \<lparr>w_AuthenticationType = authTypeNone, w_SequenceNumber = seq, w_SessionId = sid,
     w_AuthenticationCode = replicate 16 0, w_MessageLen = of_nat (length res)\<rparr> @ res)"
  have "slice 9 4 ?out = le32 sid"
    by (simp add: appendRMCPHeader_bytes slice_def serializeIPMISessionWrapper_def)
  moreover have "unat (of_nat (length res) :: byte) = length res" using assms by (simp add: unat_of_nat_byte)
  ultimately show ?thesis
    by (simp add: well_framed_def appendRMCPHeader_bytes serializeIPMISessionWrapper_def authTypeNone_def
        authTypeRMCPPlus_def nth_append Let_def)
qed

lemma ipmiSession_handle_framed:
  assumes "ipmiSession_handle M users a buf s = (Ret out, s')"
  shows "well_framed (appendRMCPHeader out)"
proof (cases "a = authTypeRMCPPlus")
  case True
  then show ?thesis using assms
    by (auto simp: ipmiSession_handle_def isRMCPPlusFormat_def bindA_eq_Ret liftA_def split: prod.splits
        intro: rmcpPlus_handle_framed)
next
  case False
  then have a: "a = authTypeNone"
    using assms by (auto simp: ipmiSession_handle_def isRMCPPlusFormat_def failA_def split: if_splits)
  with False assms show ?thesis
    by (auto simp: ipmiSession_handle_def isRMCPPlusFormat_def bindA_eq_Ret liftA_def retA_def Let_def
        split: prod.splits dest!: ipmi_handle_length intro!: well_framed_wrapper)
qed

lemma handleRMCPRequest_framed:
  "handleRMCPRequest M users buf s = (Ret out, s') \<Longrightarrow> well_framed out"
  by (auto simp: handleRMCPRequest_def rmcp_handle_def bindA_eq_Ret liftA_def failA_def retA_def Let_def
      split: prod.splits if_splits intro: ipmiSession_handle_framed)

subsection \<open>Sequences of datagrams\<close>

lemma recvInto_length [simp]: "length (recvInto d buf) = length buf"
  by (simp add: recvInto_def)

lemma handleRMCPRequest_reachable:
  "reachable_table users (sessions s) \<Longrightarrow> reachable_table users (sessions (snd (handleRMCPRequest M users buf s)))"
  using handleRMCPRequest_step [of users s M buf] reachable_table.step by blast

lemma ipmiServer_loop_reachable:
  "reachable_table bmcUsers (sessions (srv_bmc v)) \<Longrightarrow>
   reachable_table bmcUsers (sessions (srv_bmc (snd (snd (ipmiServer_loop M ps v)))))
   \<and> length (srv_buf (snd (snd (ipmiServer_loop M ps v)))) = length (srv_buf v)"
proof (induction M ps v rule: ipmiServer_loop.induct)
  case (3 M a d ps v)
  let ?buf = "recvInto d (srv_buf v)"
  obtain r b where h: "handleRMCPRequest M bmcUsers ?buf (srv_bmc v) = (r, b)" by fastforce
  have b: "reachable_table bmcUsers (sessions b)"
    using handleRMCPRequest_reachable [OF 3(3), of M ?buf] h by simp
  show ?case
    using 3(1) [OF refl h [symmetric]] 3(2) [OF refl h [symmetric]] b h
    by (cases r) (auto simp: Let_def split: prod.splits)
qed auto

lemma ipmiServer_loop_framed:
  "(a, out) \<in> set (fst (ipmiServer_loop M ps v)) \<Longrightarrow> well_framed out"
proof (induction M ps v rule: ipmiServer_loop.induct)
  case (3 M a' d ps v)
  let ?buf = "recvInto d (srv_buf v)"
  obtain r b where h: "handleRMCPRequest M bmcUsers ?buf (srv_bmc v) = (r, b)" by fastforce
  show ?case
    using 3(1) [OF refl h [symmetric]] 3(2) [OF refl h [symmetric]] 3(3) h
    by (cases r) (auto simp: Let_def split: prod.splits dest: handleRMCPRequest_framed)
qed auto

subsection \<open>Panics\<close>

lemma deserialize_not_Panic [simp]:
  "deserializeRAKPMessage1RequestPayload buf \<noteq> Panic p" "deserializeRAKPMessage3RequestPayload buf \<noteq> Panic p"
  "deserializeOpenSessionRequestPayload buf \<noteq> Panic p"
  by (auto simp: r1.dec_no_panic r3.dec_no_panic oq.dec_no_panic)

lemma no_panic_on_entropy: "no_panic (f (entropy s)) \<Longrightarrow> no_panic (on_entropy f s)"
  by (cases "f (entropy s)") (simp add: on_entropy_def no_panic_def)

lemma no_panic_someA [simp]: "no_panic (someA e x s)"
  by (cases x) simp_all

lemma no_panic_act [simp]: "no_panic (getA f s)" "no_panic (modifyA k s)"
  by (simp_all add: no_panic_def act_defs)

lemma handleOpenSessionRequest_no_panic: "no_panic (handleOpenSessionRequest buf s)"
proof -
  have "no_panic (getNewRMCPPlusSession rc s')" for rc and s' :: "'a bmc"
    using getNewRMCPPlusSession_Ret [of rc s'] by (cases "getNewRMCPPlusSession rc s'") (auto simp: no_panic_def)
  then show ?thesis
    unfolding handleOpenSessionRequest_def
    by (auto intro!: no_panic_bindA no_panic_liftA simp: Let_def split: prod.splits)
qed

lemma handleRAKPMessage3Request_no_panic: "no_panic (handleRAKPMessage3Request users buf s)"
  unfolding handleRAKPMessage3Request_def getRMCPPlusSession_def
  by (auto intro!: no_panic_bindA no_panic_liftA simp: Let_def split: prod.splits simp del: bindA_simps)

text \<open>RAKP message 1 panics exactly when it names an open session and claims more than 20 bytes of name.\<close>

definition overlong_name :: "'m bmc \<Rightarrow> bytes \<Rightarrow> bool" where
  "overlong_name s buf \<longleftrightarrow> 48 \<le> length buf \<and> sessions s (of_le32 (slice 4 4 buf)) \<noteq> None \<and> 20 < unat (buf ! 27)"

lemma handleRAKPMessage1Request_panic:
  "no_panic (handleRAKPMessage1Request users buf s) \<longleftrightarrow> \<not> overlong_name s buf"
proof (cases "48 \<le> length buf")
  case True
  then obtain p where p: "deserializeRAKPMessage1RequestPayload buf = Ret (p, drop 48 buf)"
    "r1_ManagedSystemSessionId p = of_le32 (slice 4 4 buf)" "r1_UserNameLength p = buf ! 27"
    "length (r1_UserName p) = 20"
    by (simp add: deserializeRAKPMessage1RequestPayload_def readFull_Ret slice_def take_drop)
  show ?thesis
  proof (cases "sessions s (of_le32 (slice 4 4 buf))")
    case None
    then show ?thesis using p by (simp add: handleRAKPMessage1Request_def getRMCPPlusSession_def overlong_name_def)
  next
    case (Some x)
    show ?thesis
    proof (cases "20 < unat (buf ! 27)")
      case True
      then show ?thesis using p Some \<open>48 \<le> length buf\<close>
        by (simp add: handleRAKPMessage1Request_def getRMCPPlusSession_def overlong_name_def Let_def)
    next
      case False
      then have "no_panic (handleRAKPMessage1Request users buf s)"
        using p Some
        by (auto simp: handleRAKPMessage1Request_def getRMCPPlusSession_def Let_def simp del: bindA_simps(8)
            intro!: no_panic_bindA no_panic_on_entropy)
      with False show ?thesis by (simp add: overlong_name_def)
    qed
  qed
next
  case False
  then obtain e where "deserializeRAKPMessage1RequestPayload buf = Fail e"
    using r1.dec_short [of buf] by auto
  with False show ?thesis by (simp add: handleRAKPMessage1Request_def overlong_name_def)
qed

subsection \<open>Power control\<close>

text \<open>A Chassis Control request; the server does not check the two checksums.\<close>

definition chassis_request :: "byte \<Rightarrow> byte \<Rightarrow> byte \<Rightarrow> byte \<Rightarrow> bytes" where
  "chassis_request ck seqlun control dck = [0x20, 0x00, ck, 0x81, seqlun, ipmiCmdChassisControl, control, dck]"

definition chassis_message :: "byte \<Rightarrow> byte \<Rightarrow> byte \<Rightarrow> byte \<Rightarrow> ipmiMessage" where
  "chassis_message ck seqlun control dck =
     \<lparr>m_TargetAddress = 0x20, m_TargetLun = 0x00, m_Checksum = ck, m_SourceAddress = 0x81,
      m_SourceLun = seqlun, m_Command = ipmiCmdChassisControl, m_CompletionCode = 0,
      m_Data = [control], m_DataChecksum = dck\<rparr>"

text \<open>The answer to it: accepted, or the completion code of a command that could not be executed.\<close>

definition chassis_answer :: "byte \<Rightarrow> bool \<Rightarrow> bytes" where
  "chassis_answer seqlun accepted =
     (let lun = (seqlun AND 0x03) OR 4; code = (if accepted then 0x00 else 0xd5)
      in [0x81, lun, - (0x81 + lun), 0x20, seqlun AND 0xfc, 0x02, code,
          - (0x20 + (seqlun AND 0xfc) + 0x02 + code)])"

lemma newIPMI_chassis_request:
  "newIPMI (chassis_request ck seqlun c dck @ rest) 8 = Ret (chassis_message ck seqlun c dck)"
  using deserialize_request [of "0x20" 0 ck "0x81" seqlun ipmiCmdChassisControl "[c]" dck rest]
  by (simp add: newIPMI_def chassis_request_def chassis_message_def)

lemma chassis_answer_eq:
  "appendIPMIMessageHeader (chassis_message ck seqlun c dck) [] (ipmiNetFNChassis OR ipmiNetFNResponse)
     (if ok then completionCodeOK else completionCodeCouldNotExecuteCommand) = chassis_answer seqlun ok"
  by (simp add: appendIPMIMessageHeader_bytes ipmiNetFNChassis_def ipmiNetFNResponse_def chassis_message_def
      chassis_answer_def completionCodeOK_def completionCodeCouldNotExecuteCommand_def ipmiCmdChassisControl_def Let_def)

context machine
begin

lemma chassis_ipmi:
  assumes "ready (mach s)"
  shows "\<exists>s'. ipmi_handle ops (chassis_message ck seqlun c dck) s =
      (Ret (chassis_answer seqlun (fst (control_spec c (powered (mach s))))), s')
    \<and> ready (mach s') \<and> powered (mach s') = snd (control_spec c (powered (mach s))) \<and> sessions s' = sessions s"
proof -
  let ?m = "chassis_message ck seqlun c dck"
  obtain s' e where h: "handleIPMIChassisControl ops ?m s =
      (if fst (control_spec c (powered (mach s))) then Ret () else Fail e, s')"
    and s': "ready (mach s')" "powered (mach s') = snd (control_spec c (powered (mach s)))" "sessions s' = sessions s"
    using chassis_control [OF assms, of ?m c "[]"] by (auto simp: chassis_message_def)
  have n: "netFunction ?m = ipmiNetFNChassis" "m_Command ?m = ipmiCmdChassisControl"
    by (simp_all add: netFunction_def chassis_message_def ipmiNetFNChassis_def)
  have "handleIPMIChassis ops ?m s = (if fst (control_spec c (powered (mach s))) then Ret [] else Fail e, s')"
    using h n by (simp add: handleIPMIChassis_def ipmiCmdGetChassisStatus_def ipmiCmdChassisControl_def
        bindA_def retA_def)
  then have "ipmi_handle ops ?m s =
      (Ret (chassis_answer seqlun (fst (control_spec c (powered (mach s))))), s')"
    using chassis_answer_eq [of ck seqlun c dck "fst (control_spec c (powered (mach s)))"]
    by (simp add: ipmi_handle_chassis n withCompletionCode_def split: if_splits)
  with s' show ?thesis by blast
qed

end

lemma length_chassis_answer: "length (chassis_answer l a) = 8"
  by (simp add: chassis_answer_def Let_def)

context qmp_peer
begin

lemma chassis_power:
  assumes p: "ph (mach s) = Idle r"
  shows "\<exists>s'. ipmi_handle (vm_machine Q) (chassis_message ck seqlun c dck) s =
      (Ret (chassis_answer seqlun (fst (control_spec c r))), s')
    \<and> ph (mach s') = Idle (snd (control_spec c r)) \<and> sessions s' = sessions s"
proof -
  have "\<exists>r. ph (mach s) = Idle r" using p by blast
  from vmm.chassis_ipmi [OF this, of ck seqlun c dck] show ?thesis using p by auto
qed

lemma power_command:
  assumes p: "ph (mach s) = Idle r"
    and x: "sessions s i = Some x" "getBMCUser users (string_of_bytes (s_UserName x)) \<noteq> None"
      "s_IntegrityKey x = generateK1 sik" "s_ConfidentialityKey x = generateK2 sik"
    and iv: "length iv = 16" and g: "generateRandomNumber (entropy s) = (Ret iv', g')"
  shows "\<exists>out s'. handleRMCPRequest (vm_machine Q) users
        (console_command i seq sik iv (chassis_request ck seqlun c dck) @ rest) s = (Ret out, s')
    \<and> valid_answer sik (s_RemoteConsoleSessionId x) seq (chassis_answer seqlun (fst (control_spec c r))) out
    \<and> ph (mach s') = Idle (snd (control_spec c r)) \<and> sessions s' = sessions s"
proof -
  obtain s' where
    h: "ipmi_handle (vm_machine Q) (chassis_message ck seqlun c dck) s =
      (Ret (chassis_answer seqlun (fst (control_spec c r))), s')"
    and s': "ph (mach s') = Idle (snd (control_spec c r))" "sessions s' = sessions s"
    using chassis_power [OF p] by blast
  have m: "newIPMI (chassis_request ck seqlun c dck) (length (chassis_request ck seqlun c dck)) =
      Ret (chassis_message ck seqlun c dck)"
    using newIPMI_chassis_request [of ck seqlun c dck "[]"] by (simp add: chassis_request_def numeral_eq_Suc)
  then show ?thesis
    using console_command_ok [OF x iv _ m h _ g, of seq rest] s'
    by (auto simp: length_chassis_answer chassis_request_def)
qed

end

subsection \<open>Requests without a session\<close>

text \<open>An IPMI v1.5 packet outside any session.\<close>

definition v15_packet :: "u32 \<Rightarrow> bytes \<Rightarrow> bytes" where
  "v15_packet seq msg = [0x06, 0, 0xff, 0x07, authTypeNone] @ le32 seq @ le32 0 @ [of_nat (length msg)] @ msg"

lemma handleRMCPRequest_v15:
  assumes "length msg < 256" "newIPMI (msg @ rest) (length msg) = Ret message" "ipmi_handle M message s = (Ret res, s')"
  shows "\<exists>hd. length hd = 14 \<and> handleRMCPRequest M users (v15_packet seq msg @ rest) s = (Ret (hd @ res), s')"
proof -
  have n: "newRMCP (v15_packet seq msg @ rest) =
      Ret (\<lparr>rmcp_Version = 6, rmcp_Reserved = 0, rmcp_Sequence = 0xff, rmcp_Class = 7\<rparr>,
        authTypeNone # le32 seq @ le32 0 @ of_nat (length msg) # msg @ rest)"
    by (simp add: v15_packet_def newRMCP_def deserializeRMCPHeader_def readFull_def)
  have w: "deserializeIPMISessionWrapper (le32 seq @ le32 0 @ of_nat (length msg) # msg @ rest) authTypeNone =
     Ret (\<lparr>w_AuthenticationType = authTypeNone, w_SequenceNumber = seq, w_SessionId = 0,
       w_AuthenticationCode = replicate 16 0, w_MessageLen = of_nat (length msg)\<rparr>, msg @ rest)"
    using rd_int_append(3) [of 0 "of_nat (length msg) # msg @ rest"]
    by (simp add: deserializeIPMISessionWrapper_def del: le_zero)
  show ?thesis
    using assms n w
    by (simp add: handleRMCPRequest_def rmcp_handle_def RmcpClassIpmi_def newIPMISession_def ipmiSession_handle_def
        isRMCPPlusFormat_def authTypeNone_def authTypeRMCPPlus_def unat_of_nat_byte bindA_Ret Let_def retA_def
        serializeIPMISessionWrapper_def appendRMCPHeader_bytes)
qed

context qmp_peer
begin

lemma v15_power_command:
  assumes p: "ph (mach s) = Idle r"
  shows "\<exists>out s'. handleRMCPRequest (vm_machine Q) users (v15_packet seq (chassis_request ck seqlun c dck) @ rest) s
      = (Ret out, s') \<and> drop 14 out = chassis_answer seqlun (fst (control_spec c r)) \<and>
    ph (mach s') = Idle (snd (control_spec c r)) \<and> sessions s' = sessions s"
proof -
  obtain s' where
    h: "ipmi_handle (vm_machine Q) (chassis_message ck seqlun c dck) s =
      (Ret (chassis_answer seqlun (fst (control_spec c r))), s')"
    and s': "ph (mach s') = Idle (snd (control_spec c r))" "sessions s' = sessions s"
    using chassis_power [OF p] by blast
  have l: "length (chassis_request ck seqlun c dck) = 8" by (simp add: chassis_request_def)
  show ?thesis
    using handleRMCPRequest_v15 [of "chassis_request ck seqlun c dck" rest, OF _ _ h, of users seq] s'
      newIPMI_chassis_request [of ck seqlun c dck rest]
    by (auto simp: l)
qed

end

subsection \<open>Overlong user names\<close>

definition overlong_packet :: "u32 \<Rightarrow> byte \<Rightarrow> bytes" where
  "overlong_packet i n = rmcp_packet payloadTypeRAKPMessage1 0 0
     ([0, 0, 0, 0] @ le32 i @ replicate 16 0 @ [0, 0, 0, n] @ replicate 20 0)"

lemma recvInto_prefix: "length d \<le> length buf \<Longrightarrow> recvInto d buf = d @ drop (length d) buf"
  by (simp add: recvInto_def)

lemma recvInto_complete: "recvInto (d @ drop (length d) buf) buf = recvInto d buf"
  by (simp add: recvInto_def)

lemma overlong_packet_panics:
  assumes "sessions s i \<noteq> None" "20 < unat n"
  shows "\<exists>s'. handleRMCPRequest M users (overlong_packet i n @ rest) s = (Panic ''slice bounds out of range'', s')"
proof -
  obtain x where x: "sessions s i = Some x" using assms by blast
  let ?p = "\<lparr>r1_MessageTag = 0, r1_Reserved1 = [0, 0, 0], r1_ManagedSystemSessionId = i,
        r1_RemoteConsoleRandomNumber = replicate 16 0, r1_RequestedMaximumPrivilegeLevelAndNameOnlyLookup = 0,
        r1_Reserved3 = [0, 0], r1_UserNameLength = n, r1_UserName = replicate 20 0\<rparr>"
  have e: "[0, 0, 0, 0] @ le32 i @ replicate 16 0 @ [0, 0, 0, n] @ replicate 20 0 = enc_r1 ?p"
    by (simp add: enc_r1_def)
  have "deserializeRAKPMessage1RequestPayload (enc_r1 ?p @ rest) = Ret (?p, rest)"
    by (rule r1.dec_enc) (simp add: valid_r1_def)
  then have "handleRAKPMessage1Request users (enc_r1 ?p @ rest) s = (Panic ''slice bounds out of range'', s)"
    by (simp add: handleRAKPMessage1Request_def getRMCPPlusSession_def x assms Let_def panicA_def)
  then show ?thesis
    unfolding overlong_packet_def e handleRMCPRequest_packet by (simp add: rmcpPlus_handle_dispatch bindA_Panic)
qed

lemma overlong_packet_crashes:
  assumes "length b = 4" "20 < unat n"
  shows "fst (snd (StartIPMIServer M (Some b # g) m
     [Datagram a (console_open tag rc), Datagram a (overlong_packet (of_le32 b) n)]))
     = Crashed ''slice bounds out of range''"
proof -
  let ?i = "of_le32 b" and ?v = "startIPMIServer_init (Some b # g) m"
  let ?s1 = "putSession ?i (opened_session ?i rc) ((srv_bmc ?v)\<lparr>entropy := g\<rparr>)"
  have l: "length (console_open tag rc) \<le> 1024" "length (overlong_packet ?i n) \<le> 1024"
    by (simp_all add: console_open_def overlong_packet_def rmcp_packet_parts enc_oq_def)
  obtain rest1 where b1: "recvInto (console_open tag rc) (srv_buf ?v) = console_open tag rc @ rest1"
    using l by (simp add: recvInto_prefix startIPMIServer_init_def bufSize_def)
  let ?buf1 = "recvInto (console_open tag rc) (srv_buf ?v)"
  obtain rest2 where b2: "recvInto (overlong_packet ?i n) ?buf1 = overlong_packet ?i n @ rest2"
    using l by (simp add: recvInto_prefix startIPMIServer_init_def bufSize_def)
  obtain resp where o: "handleRMCPRequest M bmcUsers ?buf1 (srv_bmc ?v) = (Ret resp, ?s1)"
    using console_open_ok [of "srv_bmc ?v" b g M bmcUsers tag rc rest1] assms(1) unfolding b1
    by (auto simp: startIPMIServer_init_def newRMCPPlusSessionHolder_def)
  obtain s2 where "handleRMCPRequest M bmcUsers (recvInto (overlong_packet ?i n) ?buf1) ?s1 =
      (Panic ''slice bounds out of range'', s2)"
    using overlong_packet_panics [of ?s1 ?i n M bmcUsers rest2] assms(2) unfolding b2 by auto
  with o show ?thesis by (simp add: StartIPMIServer_def Let_def)
qed

subsection \<open>Opening sessions\<close>

lemma getNewRMCPPlusSession_progress:
  assumes "entropy s = ds @ Some b # g" "\<forall>d \<in> set ds. d \<noteq> None" "length b = 4" "sessions s (of_le32 b) = None"
  shows "\<exists>x s'. getNewRMCPPlusSession rc s = (Ret x, s') \<and> sessions s (s_ManagedSystemSessionId x) = None \<and>
    s_RemoteConsoleSessionId x = rc \<and> sessions s' = (sessions s)(s_ManagedSystemSessionId x \<mapsto> x) \<and> mach s' = mach s"
proof -
  obtain i0 g0 i g' where 1: "generateRandomUint32 (entropy s) = (Ret i0, g0)"
    and 2: "freshSessionId (sessions s) i0 g0 = (Ret i, g')" "sessions s i = None"
  proof (cases ds)
    case Nil
    then have "generateRandomUint32 (entropy s) = (Ret (of_le32 b), g)"
      using assms(1,3) by (simp add: generateRandomUint32_def bindA_def retA_def)
    moreover have "freshSessionId (sessions s) (of_le32 b) g = (Ret (of_le32 b), g)"
      using assms(4) by (simp add: freshSessionId.simps [of _ "of_le32 b"])
    ultimately show ?thesis using that assms(4) by blast
  next
    case (Cons d ds')
    then obtain x where "d = Some x" using assms(2) by auto
    then have "generateRandomUint32 (entropy s) = (Ret (of_le32 (take 4 (x @ replicate 4 0))), ds' @ Some b # g)"
      using assms(1) Cons by (simp add: generateRandomUint32_def bindA_def retA_def)
    moreover have "\<forall>d \<in> set ds'. \<exists>b. d = Some b" using assms(2) Cons by auto
    ultimately show ?thesis
      using that freshSessionId_progress [of "sessions s" b ds', OF assms(4,3)] by blast
  qed
  then show ?thesis
    by (simp add: getNewRMCPPlusSession_def bindA_Ret [OF on_entropy_eq] Let_def retA_def)
qed

subsection \<open>A server to run\<close>

text \<open>A fresh server with a running guest, and with one authenticated session.\<close>

definition exampleMachine :: refqemu where
  "exampleMachine = \<lparr>rq_running = True, rq_conn = None\<rparr>"

definition exampleEntropy :: rng where
  "exampleEntropy =
     [Some [1, 0, 0, 0], Some (replicate 16 0xab), Some (replicate 16 0xcd), Some (replicate 16 0x11)]"

definition exampleBmc :: "refqemu bmc" where
  "exampleBmc = \<lparr>sessions = newRMCPPlusSessionHolder, entropy = exampleEntropy, mach = exampleMachine\<rparr>"

definition exampleSik :: bytes where
  "exampleSik = replicate 20 0x5a"

definition exampleSession :: rmcpPlusSession where
  "exampleSession = (opened_session 1 7)
     \<lparr>s_UserName := bytes_of_string ''cybozu'', s_UserNameLength := 6, s_SessionIntegrityKey := exampleSik,
      s_IntegrityKey := generateK1 exampleSik, s_ConfidentialityKey := generateK2 exampleSik\<rparr>"

definition exampleAuthenticated :: "refqemu bmc" where
  "exampleAuthenticated = exampleBmc\<lparr>sessions := newRMCPPlusSessionHolder(1 \<mapsto> exampleSession)\<rparr>"

definition exampleChallenged :: "refqemu bmc" where
  "exampleChallenged = exampleBmc\<lparr>sessions := newRMCPPlusSessionHolder(1 \<mapsto>
     challenged_session (replicate 16 0x22) (replicate 16 0x41) (replicate 16 0x42) 0x14
       (bytes_of_string ''cybozu'') (opened_session 1 7))\<rparr>"

end
