(* ===== verification/Redfish.thy ===== *)
theory Redfish
  imports Qmp
begin

text \<open>
  The Redfish server of a BMC: \<open>v2/pkg/virtualbmc/redfish.go\<close>, \<open>redfish_chassis.go\<close>,
  \<open>redfish_system.go\<close> and the routes of \<open>prepareRouter\<close> in \<open>bmc_server.go\<close>. The structs of
  the answers only ever leave the program as JSON; they are modelled as the JSON documents
  they marshal to, field by field. The web framework is not part of the program: whether
  its basic authentication lets a request pass and how it decodes a request body are
  arguments of the router.
\<close>

subsection \<open>Documents\<close>

fun power_string :: "PowerStatus \<Rightarrow> string" where
  "power_string PowerStatusOn = ''On''"
| "power_string PowerStatusPoweringOn = ''PoweringOn''"
| "power_string PowerStatusOff = ''Off''"
| "power_string PowerStatusPoweringOff = ''PoweringOff''"
| "power_string PowerStatusUnknown = ''Unknown''"

definition systemID :: string where "systemID = ''System.Embedded.1''"

definition ResetTypeOn :: string where "ResetTypeOn = ''On''"
definition ResetTypeForceOff :: string where "ResetTypeForceOff = ''ForceOff''"
definition ResetTypeForceRestart :: string where "ResetTypeForceRestart = ''ForceRestart''"
definition ResetTypeGracefulShutdown :: string where "ResetTypeGracefulShutdown = ''GracefulShutdown''"
definition ResetTypePushPowerButton :: string where "ResetTypePushPowerButton = ''PushPowerButton''"
definition ResetTypeNmi :: string where "ResetTypeNmi = ''Nmi''"

definition serviceRootResponse :: "json" where
  "serviceRootResponse =
     JObj [
       (''@odata.context'', JStr ''/redfish/v1/$metadata#ServiceRoot.ServiceRoot''),
       (''@odata.id'', JStr ''/redfish/v1''),
       (''@odata.type'', JStr ''#ServiceRoot.v1_3_0.ServiceRoot''),
       (''AccountService'',
         JObj [(''@odata.id'', JStr ''/redfish/v1/Managers/Embedded.1/AccountService'')]),
       (''Chassis'', JObj [(''@odata.id'', JStr ''/redfish/v1/Chassis'')]),
       (''Description'', JStr ''Root Service''),
       (''EventService'', JObj [(''@odata.id'', JStr ''/redfish/v1/EventService'')]),
       (''Fabrics'', JObj [(''@odata.id'', JStr ''/redfish/v1/Fabrics'')]),
       (''Id'', JStr ''RootService''),
       (''JsonSchemas'', JObj [(''@odata.id'', JStr ''/redfish/v1/JSONSchemas'')]),
       (''Links'', JObj [(''Sessions'', JObj [(''@odata.id'', JStr ''/redfish/v1/Sessions'')])]),
       (''Managers'', JObj [(''@odata.id'', JStr ''/redfish/v1/Managers'')]),
       (''Name'', JStr ''Root Service''),
       (''Oem'', JObj []),
       (''Product'', JStr ''Placemat''),
       (''ProtocolFeaturesSupported'',
         JObj [
           (''ExpandQuery'',
             JObj [
               (''ExpandAll'', JBool True),
               (''Levels'', JBool True),
               (''Links'', JBool True),
               (''MaxLevels'', JNum ''1''),
               (''NoLinks'', JBool True)]),
           (''FilterQuery'', JBool True),
           (''SelectQuery'', JBool True)]),
       (''RedfishVersion'', JStr ''1.4.0''),
       (''Registries'', JObj [(''@odata.id'', JStr ''/redfish/v1/Registries'')]),
       (''SessionService'', JObj [(''@odata.id'', JStr ''/redfish/v1/SessionService'')]),
       (''Systems'', JObj [(''@odata.id'', JStr ''/redfish/v1/Systems'')]),
       (''Tasks'', JObj [(''@odata.id'', JStr ''/redfish/v1/TaskService'')]),
       (''UpdateService'', JObj [(''@odata.id'', JStr ''/redfish/v1/UpdateService'')])]"

definition chassisCollectionResponse :: "json" where
  "chassisCollectionResponse =
     JObj [
       (''@odata.context'', JStr ''/redfish/v1/$metadata#ChassisCollection.ChassisCollection''),
       (''@odata.id'', JStr ''/redfish/v1/Chassis/''),
       (''@odata.type'', JStr ''#ChassisCollection.ChassisCollection''),
       (''Description'', JStr ''Collection of Chassis''),
       (''Members'', JArr [JObj [(''@odata.id'', JStr (''/redfish/v1/Chassis/'' @ systemID))]]),
       (''Members@odata.count'', JNum ''1''),
       (''Name'', JStr ''Chassis Collection'')]"

definition createChassisResponse :: "string \<Rightarrow> PowerStatus \<Rightarrow> json" where
  "createChassisResponse chassisID powerState =
     JObj [
       (''@odata.context'', JStr ''/redfish/v1/$metadata#Chassis.Chassis''),
       (''@odata.id'', JStr (''/redfish/v1/Chassis/'' @ chassisID)),
       (''@odata.type'', JStr ''#Chassis.v1_6_0.Chassis''),
       (''Actions'',
         JObj [
           (''#Chassis.Reset'',
             JObj [
               (''ResetType@Redfish.AllowableValues'', JArr [JStr ResetTypeOn, JStr ResetTypeForceOff]),
               (''target'', JStr (''/redfish/v1/Chassis/'' @ chassisID @ ''/Actions/Chassis.Reset''))])]),
       (''Assembly'',
         JObj [(''@odata.id'', JStr (''/redfish/v1/Chassis/'' @ chassisID @ ''/Assembly''))]),
       (''AssetTag'', JNull),
       (''ChassisType'', JStr ''RackMount''),
       (''Description'',
         JStr ''It represents the properties for physical components for any system.It represent racks, rackmount servers, blades, standalone, modular systems,enclosures, and all other containers.The non-cpu/device centric parts of the schema are all accessed either directly or indirectly through this resource.''),
       (''Id'', JStr chassisID),
       (''IndicatorLED'', JStr ''Off''),
       (''Links'',
         JObj [
           (''ComputerSystems'',
             JArr [JObj [(''@odata.id'', JStr (''/redfish/v1/Systems/'' @ chassisID))]]),
           (''ComputerSystems@odata.count'', JNum ''1''),
           (''Contains'', JArr []),
           (''Contains@odata.count'', JNum ''0''),
           (''CooledBy'',
             JArr [
               JObj [
                 (''@odata.id'', JStr (''/redfish/v1/Chassis/'' @ chassisID @ ''/Sensors/Fans/1A''))],
               JObj [
                 (''@odata.id'', JStr (''/redfish/v1/Chassis/'' @ chassisID @ ''/Sensors/Fans/1B''))]]),
           (''CooledBy@odata.count'', JNum ''2''),
           (''Drives'', JArr []),
           (''Drives@odata.count'', JNum ''0''),
           (''ManagedBy'', JArr [JObj [(''@odata.id'', JStr ''/redfish/v1/Managers/1'')]]),
           (''ManagedBy@odata.count'', JNum ''1''),
           (''ManagersInChassis'', JArr [JObj [(''@odata.id'', JStr ''/redfish/v1/Managers/1'')]]),
           (''ManagersInChassis@odata.count'', JNum ''1''),
           (''PCIeDevices'',
             JArr [
               JObj [
                 (''@odata.id'', JStr (''/redfish/v1/Systems/'' @ chassisID @ ''/PCIeDevice/0-31''))]]),
           (''PCIeDevices@odata.count'', JNum ''1''),
           (''PoweredBy'',
             JArr [
               JObj [
                 (''@odata.id'',
                   JStr (''/redfish/v1/Chassis/'' @ chassisID @ ''/Power/PowerSupplies/PSU.Slot.1''))]]),
           (''PoweredBy@odata.count'', JNum ''1''),
           (''Storage'',
             JArr [
               JObj [(''@odata.id'', JStr (''/redfish/v1/Systems/'' @ chassisID @ ''/Storage/CPU.1''))]]),
           (''Storage@odata.count'', JNum ''1'')]),
       (''Location'',
         JObj [
           (''Info'', JStr '';;;;1''),
           (''InfoFormat'', JStr ''DataCenter;RoomName;Aisle;RackName;RackSlot''),
           (''Placement'', JObj [(''Rack'', JStr ''''), (''Row'', JStr '''')]),
           (''PostalAddress'', JObj [(''Building'', JStr ''''), (''Room'', JStr '''')])]),
       (''Manufacturer'', JStr ''Placemat Inc.''),
       (''Model'', JStr ''Placemat XXX''),
       (''Name'', JStr ''Computer System Chassis''),
       (''NetworkAdapters'',
         JObj [(''@odata.id'', JStr (''/redfish/v1/Systems/'' @ chassisID @ ''/NetworkAdapters''))]),
       (''PartNumber'', JStr ''0000''),
       (''PhysicalSecurity'',
         JObj [
           (''IntrusionSensor'', JStr ''XXX''),
           (''IntrusionSensorNumber'', JNum ''111''),
           (''IntrusionSensorReArm'', JStr ''XXX'')]),
       (''Power'', JObj [(''@odata.id'', JStr (''/redfish/v1/Chassis/'' @ chassisID @ ''/Power''))]),
       (''PowerState'', JStr (power_string powerState)),
       (''SKU'', JStr ''XXXXXX''),
       (''SerialNumber'', JStr ''XXXXXX''),
       (''Status'',
         JObj [
           (''Health'', JStr ''OK''),
           (''HealthRollup'', JStr ''OK''),
           (''State'', JStr ''Enabled'')]),
       (''Thermal'', JObj [(''@odata.id'', JStr (''/redfish/v1/Chassis/'' @ chassisID @ ''/Thermal''))])]"

definition createChassisNotFoundErrorResponse :: "string \<Rightarrow> json" where
  "createChassisNotFoundErrorResponse chassisID =
     JObj [
       (''error'',
         JObj [
           (''@Message.ExtendedInfo'',
             JArr [
               JObj [
                 (''Message'',
                   JStr (''Unable to complete the operation because the resource '' @ chassisID @ '' entered in not found.'')),
                 (''MessageArgs'', JArr [JStr chassisID]),
                 (''MessageArgs@odata.count'', JNum ''1''),
                 (''MessageId'', JStr ''X.X.X''),
                 (''RelatedProperties'', JArr []),
                 (''RelatedProperties@odata.count'', JNum ''0''),
                 (''Resolution'',
                   JStr ''Enter the correct resource and retry the operation. For information about valid resource, see the Redfish Users Guide available on the support site.''),
                 (''Severity'', JStr ''Critical'')],
               JObj [
                 (''Message'', JStr (''The resource at the URI '' @ chassisID @ '' was not found.'')),
                 (''MessageArgs'', JArr [JStr chassisID]),
                 (''MessageArgs@odata.count'', JNum ''1''),
                 (''MessageId'', JStr ''Base.X.X.ResourceMissingAtURI''),
                 (''RelatedProperties'', JArr [JStr '''']),
                 (''RelatedProperties@odata.count'', JNum ''1''),
                 (''Resolution'',
                   JStr ''Place a valid resource at the URI or correct the URI and resubmit the request.''),
                 (''Severity'', JStr ''Critical'')]]),
           (''code'', JStr ''Base.X.X.GeneralError''),
           (''message'', JStr ''A general error has occurred. See ExtendedInfo for more information'')])]"

definition computerSystemCollectionResponse :: "json" where
  "computerSystemCollectionResponse =
     JObj [
       (''@odata.context'',
         JStr ''/redfish/v1/$metadata#ComputerSystemCollection.ComputerSystemCollection''),
       (''@odata.id'', JStr ''/redfish/v1/Systems''),
       (''@odata.type'', JStr ''#ComputerSystemCollection.ComputerSystemCollection''),
       (''Description'', JStr ''Collection of Computer Systems''),
       (''Members'', JArr [JObj [(''@odata.id'', JStr (''/redfish/v1/Systems/'' @ systemID))]]),
       (''Members@odata.count'', JNum ''1''),
       (''Name'', JStr ''Computer System Collection'')]"

definition serverIsAlreadyPoweredOffResponse :: "json" where
  "serverIsAlreadyPoweredOffResponse =
     JObj [
       (''error'',
         JObj [
           (''@Message.ExtendedInfo'',
             JArr [
               JObj [
                 (''Message'', JStr ''Server is already powered OFF''),
                 (''MessageArgs'', JArr []),
                 (''MessageArgs@odata.count'', JNum ''0''),
                 (''MessageId'', JStr ''X.X.X''),
                 (''RelatedProperties'', JArr []),
                 (''RelatedProperties@odata.count'', JNum ''0''),
                 (''Resolution'', JStr ''No response action is required.''),
                 (''Severity'', JStr ''Informational'')]]),
           (''code'', JStr ''Base.X.X.GeneralError''),
           (''message'', JStr ''A general error has occurred. See ExtendedInfo for more information'')])]"

definition serverIsAlreadyPoweredOnResponse :: "json" where
  "serverIsAlreadyPoweredOnResponse =
     JObj [
       (''error'',
         JObj [
           (''@Message.ExtendedInfo'',
             JArr [
               JObj [
                 (''Message'', JStr ''Server is already powered ON''),
                 (''MessageArgs'', JArr []),
                 (''MessageArgs@odata.count'', JNum ''0''),
                 (''MessageId'', JStr ''X.X.X''),
                 (''RelatedProperties'', JArr []),
                 (''RelatedProperties@odata.count'', JNum ''0''),
                 (''Resolution'', JStr ''No response action is required.''),
                 (''Severity'', JStr ''Informational'')]]),
           (''code'', JStr ''Base.X.X.GeneralError''),
           (''message'', JStr ''A general error has occurred. See ExtendedInfo for more information'')])]"

definition createComputerSystemResponse :: "string \<Rightarrow> PowerStatus \<Rightarrow> json" where
  "createComputerSystemResponse sysID powerState =
     JObj [
       (''@odata.context'', JStr ''/redfish/v1/$metadata#ComputerSystem.ComputerSystem''),
       (''@odata.id'', JStr (''/redfish/v1/Systems/'' @ sysID)),
       (''@odata.type'', JStr ''#ComputerSystem.v1_5_0.ComputerSystem''),
       (''Actions'',
         JObj [
           (''#ComputerSystem.Reset'',
             JObj [
               (''ResetType@Redfish.AllowableValues'',
                 JArr [
                   JStr ResetTypeOn,
                   JStr ResetTypeForceOff,
                   JStr ResetTypeForceRestart,
                   JStr ResetTypeGracefulShutdown,
                   JStr ResetTypePushPowerButton,
                   JStr ResetTypeNmi]),
               (''target'', JStr (''/redfish/v1/Systems/'' @ sysID @ ''/Actions/ComputerSystem.Reset''))])]),
       (''AssetTag'', JStr ''''),
       (''Bios'', JObj [(''@odata.id'', JStr (''/redfish/v1/Systems/'' @ sysID @ ''/Bios''))]),
       (''BiosVersion'', JStr ''X.X.X''),
       (''Boot'',
         JObj [
           (''BootOptions'',
             JObj [(''@odata.id'', JStr (''/redfish/v1/Systems/'' @ sysID @ ''/BootOptions''))]),
           (''BootOrder'', JArr [JStr ''Boot0000'', JStr ''Boot0001'']),
           (''BootOrder@odata.count'', JNum ''2''),
           (''BootSourceOverrideEnabled'', JStr ''Once''),
           (''BootSourceOverrideMode'', JStr ''UEFI''),
           (''BootSourceOverrideTarget'', JStr ''None''),
           (''BootSourceOverrideTarget@Redfish.AllowableValues'',
             JArr [
               JStr ''None'',
               JStr ''Pxe'',
               JStr ''Floppy'',
               JStr ''Cd'',
               JStr ''Hdd'',
               JStr ''BiosSetup'',
               JStr ''Utilities'',
               JStr ''UefiTarget'',
               JStr ''SDCard'',
               JStr ''UefiHttp'']),
           (''UefiTargetBootSourceOverride'', JStr '''')]),
       (''Description'',
         JStr ''Computer System which represents a machine (physical or virtual) and the local resources such as memory, cpu and other devices that can be accessed from that machine.''),
       (''EthernetInterfaces'',
         JObj [(''@odata.id'', JStr (''/redfish/v1/Systems/'' @ sysID @ ''/EthernetInterfaces''))]),
       (''HostName'', JStr ''''),
       (''HostWatchdogTimer'',
         JObj [
           (''FunctionEnabled'', JBool False),
           (''Status'', JObj [(''State'', JStr ''Disabled'')]),
           (''TimeoutAction'', JStr ''None'')]),
       (''HostingRoles'', JArr []),
       (''HostingRoles@odata.count'', JNum ''0''),
       (''Id'', JStr sysID),
       (''IndicatorLED'', JStr ''Off''),
       (''Links'',
         JObj [
           (''Chassis'', JArr [JObj [(''@odata.id'', JStr (''/redfish/v1/Chassis/'' @ sysID))]]),
           (''Chassis@odata.count'', JNum ''1''),
           (''CooledBy'',
             JArr [
               JObj [
                 (''@odata.id'',
                   JStr (''/redfish/v1/Chassis/'' @ sysID @ ''/Sensors/Fans/Fan.Embedded.1A''))],
               JObj [
                 (''@odata.id'',
                   JStr (''/redfish/v1/Chassis/'' @ sysID @ ''/Sensors/Fans/Fan.Embedded.1B''))]]),
           (''CooledBy@odata.count'', JNum ''2''),
           (''ManagedBy'', JArr [JObj [(''@odata.id'', JStr ''/redfish/v1/Managers/1'')]]),
           (''ManagedBy@odata.count'', JNum ''1''),
           (''Oem'', JObj []),
           (''PoweredBy'',
             JArr [
               JObj [
                 (''@odata.id'',
                   JStr (''/redfish/v1/Chassis/'' @ sysID @ ''/Power/PowerSupplies/PSU.Slot.1''))]]),
           (''PoweredBy@odata.count'', JNum ''1'')]),
       (''Manufacturer'', JStr ''Placemat''),
       (''Memory'', JObj [(''@odata.id'', JStr (''/redfish/v1/Systems/'' @ sysID @ ''/Memory''))]),
       (''MemorySummary'',
         JObj [
           (''MemoryMirroring'', JStr ''System''),
           (''Status'',
             JObj [
               (''Health'', JStr ''OK''),
               (''HealthRollup'', JStr ''OK''),
               (''State'', JStr ''Enabled'')]),
           (''TotalSystemMemoryGiB'', JNum ''300'')]),
       (''Model'', JStr ''XXX''),
       (''Name'', JStr ''System''),
       (''NetworkInterfaces'',
         JObj [(''@odata.id'', JStr (''/redfish/v1/Systems/'' @ sysID @ ''/NetworkInterfaces''))]),
       (''Oem'', JObj []),
       (''PCIeDevices'',
         JArr [JObj [(''@odata.id'', JStr (''/redfish/v1/Systems/'' @ sysID @ ''/PCIeDevice/0-31''))]]),
       (''PCIeDevices@odata.count'', JNum ''1''),
       (''PCIeFunctions'',
         JArr [
           JObj [(''@odata.id'', JStr (''/redfish/v1/Systems/'' @ sysID @ ''/PCIeFunction/0-31-4''))]]),
       (''PCIeFunctions@odata.count'', JNum ''1''),
       (''PartNumber'', JStr ''XXXX''),
       (''PowerState'', JStr (power_string powerState)),
       (''ProcessorSummary'',
         JObj [
           (''Count'', JNum ''2''),
           (''LogicalProcessorCount'', JNum ''28''),
           (''Model'', JStr ''XXXX''),
           (''Status'',
             JObj [
               (''Health'', JStr ''OK''),
               (''HealthRollup'', JStr ''OK''),
               (''State'', JStr ''Enabled'')])]),
       (''Processors'',
         JObj [(''@odata.id'', JStr (''/redfish/v1/Systems/'' @ sysID @ ''/Processors''))]),
       (''SKU'', JStr ''XXXX''),
       (''SecureBoot'',
         JObj [(''@odata.id'', JStr (''/redfish/v1/Systems/'' @ sysID @ ''/SecureBoot''))]),
       (''SerialNumber'', JStr ''XXXX''),
       (''SimpleStorage'',
         JObj [
           (''@odata.id'', JStr (''/redfish/v1/Systems/'' @ sysID @ ''/SimpleStorage/Controllers''))]),
       (''Status'',
         JObj [
           (''Health'', JStr ''OK''),
           (''HealthRollup'', JStr ''OK''),
           (''State'', JStr ''Enabled'')]),
       (''Storage'', JObj [(''@odata.id'', JStr (''/redfish/v1/Systems/'' @ sysID @ ''/Storage''))]),
       (''SystemType'', JStr ''Virtual''),
       (''TrustedModules'',
         JArr [
           JObj [
             (''FirmwareVersion'', JStr ''X.X.X.X''),
             (''InterfaceType'', JStr ''TPM2_0''),
             (''Status'', JObj [(''State'', JStr ''Enabled'')])]]),
       (''UUID'', JStr ''XXXX'')]"

subsection \<open>Handlers\<close>

record response =
  status :: nat
  body :: "json option"

text \<open>\<open>c.JSON\<close>; an answer with status 204 has no body.\<close>

definition c_JSON :: "nat \<Rightarrow> json \<Rightarrow> response" where
  "c_JSON code v = \<lparr>status = code, body = (if code = 204 then None else Some v)\<rparr>"

definition StatusOK :: nat where "StatusOK = 200"
definition StatusNoContent :: nat where "StatusNoContent = 204"
definition StatusBadRequest :: nat where "StatusBadRequest = 400"
definition StatusUnauthorized :: nat where "StatusUnauthorized = 401"
definition StatusNotFound :: nat where "StatusNotFound = 404"
definition StatusConflict :: nat where "StatusConflict = 409"
definition StatusInternalServerError :: nat where "StatusInternalServerError = 500"

definition error_body :: "err \<Rightarrow> json" where
  "error_body e = JObj [(''error'', JStr (err_string e))]"

text \<open>\<open>if err := f(); err != nil { c.JSON(...); return }\<close>\<close>

definition callOr :: "('m, 'a) act \<Rightarrow> (err \<Rightarrow> response) \<Rightarrow> ('a \<Rightarrow> ('m, response) act) \<Rightarrow> ('m, response) act" where
  "callOr f h k m =
     (case f m of
        (Ret x, m') \<Rightarrow> k x m'
      | (Fail e, m') \<Rightarrow> (Ret (h e), m')
      | (Panic p, m') \<Rightarrow> (Panic p, m'))"

definition systemIDs :: "string list" where "systemIDs = [systemID]"

definition handleServiceRoot :: "('m, response) act" where
  "handleServiceRoot = retA (c_JSON StatusOK serviceRootResponse)"

definition handleChassisCollection :: "('m, response) act" where
  "handleChassisCollection = retA (c_JSON StatusOK chassisCollectionResponse)"

definition handleComputerSystemCollection :: "('m, response) act" where
  "handleComputerSystemCollection = retA (c_JSON StatusOK computerSystemCollectionResponse)"

definition handleChassis :: "'m Machine \<Rightarrow> string \<Rightarrow> ('m, response) act" where
  "handleChassis M i =
     (if i \<notin> set systemIDs then retA (c_JSON StatusNotFound (createChassisNotFoundErrorResponse i))
      else callOr (PowerStatus_m M) (\<lambda>_. c_JSON StatusInternalServerError JNull) (\<lambda>st.
        retA (c_JSON StatusOK (createChassisResponse i st))))"

definition handleComputerSystem :: "'m Machine \<Rightarrow> string \<Rightarrow> ('m, response) act" where
  "handleComputerSystem M i =
     (if i \<notin> set systemIDs then retA (c_JSON StatusNotFound JNull)
      else callOr (PowerStatus_m M) (\<lambda>_. c_JSON StatusInternalServerError JNull) (\<lambda>st.
        retA (c_JSON StatusOK (createComputerSystemResponse i st))))"

text \<open>The argument is what \<open>ShouldBindJSON\<close> makes of the body: the field \<open>ResetType\<close>, or an error.\<close>

definition handleChassisActionsReset :: "'m Machine \<Rightarrow> string res \<Rightarrow> ('m, response) act" where
  "handleChassisActionsReset M json =
     callOr (liftA json) (\<lambda>e. c_JSON StatusBadRequest (error_body e)) (\<lambda>resetType.
     if resetType \<noteq> ResetTypeOn \<and> resetType \<noteq> ResetTypeForceOff
     then retA (c_JSON StatusBadRequest (JObj [(''error'', JStr '''')]))
     else if resetType = ResetTypeOn then
       callOr (PowerStatus_m M) (\<lambda>_. c_JSON StatusInternalServerError JNull) (\<lambda>powerStatus.
       if is_on powerStatus then retA (c_JSON StatusConflict JNull)
       else callOr (PowerOn_m M) (\<lambda>e. c_JSON StatusInternalServerError (error_body e)) (\<lambda>_.
         retA (c_JSON StatusNoContent JNull)))
     else
       callOr (PowerStatus_m M) (\<lambda>_. c_JSON StatusInternalServerError JNull) (\<lambda>powerStatus.
       if is_off powerStatus then retA (c_JSON StatusConflict JNull)
       else callOr (PowerOff_m M) (\<lambda>e. c_JSON StatusInternalServerError (error_body e)) (\<lambda>_.
         retA (c_JSON StatusNoContent JNull))))"

definition handleComputerSystemActionsReset :: "'m Machine \<Rightarrow> string res \<Rightarrow> ('m, response) act" where
  "handleComputerSystemActionsReset M json =
     callOr (liftA json) (\<lambda>e. c_JSON StatusBadRequest (error_body e)) (\<lambda>resetType.
     if resetType = ResetTypeOn then
       callOr (PowerStatus_m M) (\<lambda>_. c_JSON StatusInternalServerError JNull) (\<lambda>powerStatus.
       if is_on powerStatus then retA (c_JSON StatusConflict serverIsAlreadyPoweredOnResponse)
       else callOr (PowerOn_m M) (\<lambda>e. c_JSON StatusInternalServerError (error_body e)) (\<lambda>_.
         retA (c_JSON StatusNoContent JNull)))
     else if resetType = ResetTypeForceOff then
       callOr (PowerStatus_m M) (\<lambda>_. c_JSON StatusInternalServerError JNull) (\<lambda>powerStatus.
       if is_off powerStatus then retA (c_JSON StatusConflict serverIsAlreadyPoweredOffResponse)
       else callOr (PowerOff_m M) (\<lambda>e. c_JSON StatusInternalServerError (error_body e)) (\<lambda>_.
         retA (c_JSON StatusNoContent JNull)))
     else if resetType = ResetTypeGracefulShutdown then
       callOr (PowerStatus_m M) (\<lambda>_. c_JSON StatusInternalServerError JNull) (\<lambda>powerStatus.
       if is_off powerStatus then retA (c_JSON StatusConflict serverIsAlreadyPoweredOffResponse)
       else callOr (PowerOff_m M) (\<lambda>e. c_JSON StatusInternalServerError (error_body e)) (\<lambda>_.
         retA (c_JSON StatusNoContent JNull)))
     else if resetType = ResetTypeForceRestart then
       callOr (PowerStatus_m M) (\<lambda>_. c_JSON StatusInternalServerError JNull) (\<lambda>powerStatus.
       if is_off powerStatus then retA (c_JSON StatusConflict serverIsAlreadyPoweredOffResponse)
       else callOr (PowerOff_m M) (\<lambda>e. c_JSON StatusInternalServerError (error_body e)) (\<lambda>_.
         callOr (PowerOn_m M) (\<lambda>e. c_JSON StatusInternalServerError (error_body e)) (\<lambda>_.
         retA (c_JSON StatusNoContent JNull))))
     else retA (c_JSON StatusNoContent JNull))"

subsection \<open>Routes\<close>

text \<open>The routes by their patterns; \<open>:id\<close> is an argument.\<close>

datatype route =
    GetRoot
  | GetServiceRoot
  | GetChassisCollection
  | GetChassis string
  | PostChassisReset string
  | GetSystemCollection
  | GetSystem string
  | PostSystemReset string

fun public :: "route \<Rightarrow> bool" where
  "public GetRoot = True"
| "public GetServiceRoot = True"
| "public _ = False"

definition prepareRouter :: "'m Machine \<Rightarrow> bool \<Rightarrow> string res \<Rightarrow> route \<Rightarrow> ('m, response) act" where
  "prepareRouter M authorized json r =
     (if \<not> public r \<and> \<not> authorized then retA \<lparr>status = StatusUnauthorized, body = None\<rparr>
      else (case r of
          GetRoot \<Rightarrow> retA (c_JSON StatusOK JNull)
        | GetServiceRoot \<Rightarrow> handleServiceRoot
        | GetChassisCollection \<Rightarrow> handleChassisCollection
        | GetChassis i \<Rightarrow> handleChassis M i
        | PostChassisReset i \<Rightarrow> handleChassisActionsReset M json
        | GetSystemCollection \<Rightarrow> handleComputerSystemCollection
        | GetSystem i \<Rightarrow> handleComputerSystem M i
        | PostSystemReset i \<Rightarrow> handleComputerSystemActionsReset M json))"

subsection \<open>Specification of the reset actions\<close>

text \<open>The status code of the answer and the power state afterwards.\<close>

definition system_reset_spec :: "string \<Rightarrow> bool \<Rightarrow> nat \<times> bool" where
  "system_reset_spec t p =
     (if t = ResetTypeOn then (if p then (409, True) else (204, True))
      else if t = ResetTypeForceOff \<or> t = ResetTypeGracefulShutdown then (if p then (204, False) else (409, False))
      else if t = ResetTypeForceRestart then (if p then (204, True) else (409, False))
      else (204, p))"

definition chassis_reset_spec :: "string \<Rightarrow> bool \<Rightarrow> nat \<times> bool" where
  "chassis_reset_spec t p =
     (if t = ResetTypeOn then (if p then (409, True) else (204, True))
      else if t = ResetTypeForceOff then (if p then (204, False) else (409, False))
      else (400, p))"

lemmas reset_types = ResetTypeOn_def ResetTypeForceOff_def ResetTypeGracefulShutdown_def ResetTypeForceRestart_def
lemmas status_codes = StatusOK_def StatusNoContent_def StatusBadRequest_def StatusUnauthorized_def
  StatusNotFound_def StatusConflict_def StatusInternalServerError_def

lemma reset_types_distinct:
  "ResetTypeOn \<noteq> ResetTypeForceOff" "ResetTypeOn \<noteq> ResetTypeGracefulShutdown" "ResetTypeOn \<noteq> ResetTypeForceRestart"
  "ResetTypeForceOff \<noteq> ResetTypeForceRestart" "ResetTypeForceOff \<noteq> ResetTypeGracefulShutdown"
  "ResetTypeGracefulShutdown \<noteq> ResetTypeForceRestart"
  by (simp_all add: reset_types)

lemma callOr_Ret: "f m = (Ret x, m') \<Longrightarrow> callOr f h k m = k x m'"
  by (simp add: callOr_def)

lemma callOr_liftA [simp]:
  "callOr (liftA (Ret x)) h k = k x" "callOr (liftA (Fail e)) h k = retA (h e)"
  by (auto simp: callOr_def liftA_def retA_def)

text \<open>An answer with a status, after which the machine is ready in a power state.\<close>

context machine
begin

definition answers :: "('m, response) act \<Rightarrow> 'm \<Rightarrow> nat \<times> bool \<Rightarrow> bool" where
  "answers f m x \<longleftrightarrow> (\<exists>r m'. f m = (Ret r, m') \<and> status r = fst x \<and> ready m' \<and> powered m' = snd x)"

lemma answers_retA: "ready m \<Longrightarrow> status r = c \<Longrightarrow> powered m = p \<Longrightarrow> answers (retA r) m (c, p)"
  by (simp add: answers_def retA_def)

lemma answers_status:
  assumes "ready m"
    and "\<And>m'. ready m' \<Longrightarrow> powered m' = powered m \<Longrightarrow>
      answers (k (if powered m then PowerStatusOn else PowerStatusOff)) m' x"
  shows "answers (callOr (PowerStatus_m ops) h k) m x"
proof -
  obtain m' where "PowerStatus_m ops m = (Ret (if powered m then PowerStatusOn else PowerStatusOff), m')"
    "ready m'" "powered m' = powered m"
    using status_law [OF assms(1)] by blast
  then show ?thesis using assms(2) by (simp add: answers_def callOr_Ret)
qed

lemma answers_on:
  assumes "ready m" "\<not> powered m" "\<And>m'. ready m' \<Longrightarrow> powered m' \<Longrightarrow> answers (k ()) m' x"
  shows "answers (callOr (PowerOn_m ops) h k) m x"
  using on_law [OF assms(1,2)] assms(3) by (auto simp: answers_def callOr_Ret)

lemma answers_off:
  assumes "ready m" "powered m" "\<And>m'. ready m' \<Longrightarrow> \<not> powered m' \<Longrightarrow> answers (k ()) m' x"
  shows "answers (callOr (PowerOff_m ops) h k) m x"
  using off_law [OF assms(1,2)] assms(3) by (auto simp: answers_def callOr_Ret)

lemmas answers_intros = answers_status answers_on answers_off answers_retA

lemma chassis_reset:
  assumes "ready m"
  shows "answers (handleChassisActionsReset ops (Ret t)) m (chassis_reset_spec t (powered m))"
  using assms unfolding handleChassisActionsReset_def chassis_reset_spec_def
  by (cases "powered m")
    (auto simp: status_codes c_JSON_def reset_types_distinct reset_types_distinct [symmetric]
      intro!: answers_intros)

lemma system_reset:
  assumes "ready m"
  shows "answers (handleComputerSystemActionsReset ops (Ret t)) m (system_reset_spec t (powered m))"
  using assms unfolding handleComputerSystemActionsReset_def system_reset_spec_def
  by (cases "powered m")
    (auto simp: status_codes c_JSON_def reset_types_distinct reset_types_distinct [symmetric]
      intro!: answers_intros)

end

subsection \<open>Counts in the documents\<close>

definition count_suffix :: string where "count_suffix = ''@odata.count''"

definition counted :: "string \<Rightarrow> string option" where
  "counted k = (let n = length k - length count_suffix
     in if drop n k = count_suffix then Some (take n k) else None)"

text \<open>Beside every list \<open>k\<close> its length stands under \<open>k@odata.count\<close>, and nothing else does.\<close>

definition counts_ok :: "(string \<times> json) list \<Rightarrow> bool" where
  "counts_ok kvs = list_all (\<lambda>(k, v). case counted k of
      None \<Rightarrow> True
    | Some l \<Rightarrow> (case map_of kvs l of Some (JArr vs) \<Rightarrow> v = JNum (fmt_d (length vs)) | _ \<Rightarrow> False)) kvs"

fun odata_ok :: "json \<Rightarrow> bool" and odata_list :: "json list \<Rightarrow> bool" and odata_kvs :: "(string \<times> json) list \<Rightarrow> bool" where
  "odata_ok (JArr vs) = odata_list vs"
| "odata_ok (JObj kvs) = (counts_ok kvs \<and> odata_kvs kvs)"
| "odata_ok _ = True"
| "odata_list [] = True"
| "odata_list (v # vs) = (odata_ok v \<and> odata_list vs)"
| "odata_kvs [] = True"
| "odata_kvs ((k, v) # kvs) = (odata_ok v \<and> odata_kvs kvs)"

lemma fmt_d_small: "fmt_d 0 = ''0''" "fmt_d 1 = ''1''" "fmt_d 2 = ''2''" "fmt_d (Suc 0) = ''1''" "fmt_d (Suc (Suc 0)) = ''2''"
  by code_simp+

lemma odata_ServiceRoot: "odata_ok serviceRootResponse"
  by (simp add: serviceRootResponse_def counts_ok_def counted_def count_suffix_def fmt_d_small)

lemma odata_Chassis: "odata_ok (createChassisResponse i p)"
  by (simp add: createChassisResponse_def counts_ok_def counted_def count_suffix_def fmt_d_small)

lemma odata_System: "odata_ok (createComputerSystemResponse i p)"
  by (simp add: createComputerSystemResponse_def counts_ok_def counted_def count_suffix_def fmt_d_small)

lemma odata_Collections: "odata_ok chassisCollectionResponse" "odata_ok computerSystemCollectionResponse"
  by (simp_all add: chassisCollectionResponse_def computerSystemCollectionResponse_def counts_ok_def counted_def
      count_suffix_def fmt_d_small)

lemma odata_errors: "odata_ok serverIsAlreadyPoweredOffResponse" "odata_ok serverIsAlreadyPoweredOnResponse"
  "odata_ok (createChassisNotFoundErrorResponse i)"
  by (simp_all add: serverIsAlreadyPoweredOffResponse_def serverIsAlreadyPoweredOnResponse_def
      createChassisNotFoundErrorResponse_def counts_ok_def counted_def count_suffix_def fmt_d_small)

subsection \<open>Properties\<close>

definition json_field :: "string \<Rightarrow> json \<Rightarrow> json option" where
  "json_field k j = (case j of JObj kvs \<Rightarrow> map_of kvs k | _ \<Rightarrow> None)"

lemma PowerState_field:
  "json_field ''PowerState'' (createChassisResponse i p) = Some (JStr (power_string p))"
  "json_field ''PowerState'' (createComputerSystemResponse i p) = Some (JStr (power_string p))"
  by (simp_all add: json_field_def createChassisResponse_def createComputerSystemResponse_def)

lemma systemID_in [simp]: "systemID \<in> set systemIDs"
  by (simp add: systemIDs_def)

context qmp_peer
begin

lemma redfish_reset:
  assumes "ph m = Idle r"
  shows "\<exists>resp m'. handleComputerSystemActionsReset (vm_machine Q) (Ret t) m = (Ret resp, m')
      \<and> status resp = fst (system_reset_spec t r) \<and> ph m' = Idle (snd (system_reset_spec t r))"
    and "\<exists>resp m'. handleChassisActionsReset (vm_machine Q) (Ret t) m = (Ret resp, m')
      \<and> status resp = fst (chassis_reset_spec t r) \<and> ph m' = Idle (snd (chassis_reset_spec t r))"
proof -
  have a: "\<exists>r. ph m = Idle r" and p: "(ph m = Idle True) = r" using assms by auto
  show "\<exists>resp m'. handleComputerSystemActionsReset (vm_machine Q) (Ret t) m = (Ret resp, m')
      \<and> status resp = fst (system_reset_spec t r) \<and> ph m' = Idle (snd (system_reset_spec t r))"
    using vmm.system_reset [OF a, of t] p by (auto simp: vmm.answers_def)
  show "\<exists>resp m'. handleChassisActionsReset (vm_machine Q) (Ret t) m = (Ret resp, m')
      \<and> status resp = fst (chassis_reset_spec t r) \<and> ph m' = Idle (snd (chassis_reset_spec t r))"
    using vmm.chassis_reset [OF a, of t] p by (auto simp: vmm.answers_def)
qed

lemma redfish_get:
  assumes "ph m = Idle r"
  shows "\<exists>m'. handleChassis (vm_machine Q) systemID m =
      (Ret (c_JSON StatusOK (createChassisResponse systemID (if r then PowerStatusOn else PowerStatusOff))), m') \<and> ph m' = Idle r"
    and "\<exists>m'. handleComputerSystem (vm_machine Q) systemID m =
      (Ret (c_JSON StatusOK (createComputerSystemResponse systemID (if r then PowerStatusOn else PowerStatusOff))), m')
        \<and> ph m' = Idle r"
  using PowerStatus_leads [OF assms]
  by (auto simp: leads_def handleChassis_def handleComputerSystem_def vm_machine_def callOr_Ret retA_def)

end

text \<open>
  C15. Over a QEMU that keeps the QMP protocol, an authorized reset request is answered
  with the specified status and takes the guest to the specified power state: for a
  computer system On, ForceOff, GracefulShutdown and ForceRestart, for a chassis On and
  ForceOff. Any other type is a bad request for a chassis, and is accepted without effect
  for a computer system. The identifier in the path does not matter.
\<close>

theorem redfish_reset_actions:
  assumes "qmp_peer Q ph" "ph m = Idle r"
  shows "(\<exists>resp m'. prepareRouter (vm_machine Q) True (Ret t) (PostSystemReset i) m = (Ret resp, m')
      \<and> status resp = fst (system_reset_spec t r) \<and> ph m' = Idle (snd (system_reset_spec t r))) \<and>
    (\<exists>resp m'. prepareRouter (vm_machine Q) True (Ret t) (PostChassisReset i) m = (Ret resp, m')
      \<and> status resp = fst (chassis_reset_spec t r) \<and> ph m' = Idle (snd (chassis_reset_spec t r)))"
  using qmp_peer.redfish_reset [OF assms] by (simp add: prepareRouter_def)

theorem redfish_reset_actions_witness:
  "\<exists>resp m'. prepareRouter refMachine True (Ret ''ForceRestart'') (PostSystemReset ''x'')
      \<lparr>rq_running = True, rq_conn = None\<rparr> = (Ret resp, m') \<and> status resp = 204 \<and> ref_phase m' = Idle True"
  using redfish_reset_actions [OF refqemu.qmp_peer_axioms, of "\<lparr>rq_running = True, rq_conn = None\<rparr>" True "''ForceRestart''" "''x''"]
  by (auto simp: ref_phase_def system_reset_spec_def reset_types)


text \<open>
  C17. The chassis and the computer system report the power state of the guest, and no
  other identifier is known.
\<close>

theorem redfish_reports_power:
  assumes "qmp_peer Q ph" "ph m = Idle r"
  shows "(\<exists>resp m'. prepareRouter (vm_machine Q) True json (GetChassis i) m = (Ret resp, m') \<and>
      (if i = systemID then status resp = 200 \<and> ph m' = Idle r \<and>
         Option.bind (body resp) (json_field ''PowerState'') = Some (JStr (if r then ''On'' else ''Off''))
       else status resp = 404 \<and> m' = m)) \<and>
    (\<exists>resp m'. prepareRouter (vm_machine Q) True json (GetSystem i) m = (Ret resp, m') \<and>
      (if i = systemID then status resp = 200 \<and> ph m' = Idle r \<and>
         Option.bind (body resp) (json_field ''PowerState'') = Some (JStr (if r then ''On'' else ''Off''))
       else status resp = 404 \<and> m' = m))"
  using qmp_peer.redfish_get [OF assms]
  by (auto simp: prepareRouter_def c_JSON_def status_codes PowerState_field handleChassis_def handleComputerSystem_def
      systemIDs_def retA_def)

theorem redfish_reports_power_witness:
  "\<exists>resp m'. prepareRouter refMachine True (Ret '''') (GetChassis systemID) \<lparr>rq_running = True, rq_conn = None\<rparr> = (Ret resp, m') \<and>
    status resp = 200 \<and> Option.bind (body resp) (json_field ''PowerState'') = Some (JStr ''On'')"
  using redfish_reports_power [OF refqemu.qmp_peer_axioms, of "\<lparr>rq_running = True, rq_conn = None\<rparr>" True "Ret ''''" systemID]
  by (auto simp: ref_phase_def)

text \<open>
  In every document of the Redfish server, each list is accompanied by its true length:
  the value under a key \<open>k@odata.count\<close> is the number of elements under \<open>k\<close>.
\<close>

theorem redfish_document_counts:
  "odata_ok serviceRootResponse \<and> odata_ok chassisCollectionResponse \<and> odata_ok computerSystemCollectionResponse \<and>
   odata_ok (createChassisResponse i p) \<and> odata_ok (createComputerSystemResponse i p) \<and>
   odata_ok (createChassisNotFoundErrorResponse i) \<and>
   odata_ok serverIsAlreadyPoweredOffResponse \<and> odata_ok serverIsAlreadyPoweredOnResponse"
  by (intro conjI odata_ServiceRoot odata_Collections odata_Chassis odata_System odata_errors)

end
