(* ===== verification/Types.thy ===== *)
theory Types
  imports Wire
begin

text \<open>
  Resource specifications, \<open>v2/pkg/types/cluster.go\<close>: the specs, their validators, and
  \<open>Parse\<close> with the reader of single YAML documents. A validator that fills in defaults
  returns the changed spec. The YAML decoder and the framing reader are third-party code:
  the decoder is the parameter \<open>yaml\<close>, the reader a function from the free space of the
  buffer to the bytes read and an optional error.
\<close>

subsection \<open>Specs\<close>

record NetworkSpec =
  net_Name :: string
  net_Type :: string
  net_UseNAT :: bool
  net_Address :: string

record NetNSInterfaceSpec =
  nif_Network :: string
  nif_Addresses :: "string list"

record NetNSAppSpec =
  app_Name :: string
  app_Command :: "string list"

text \<open>Elements of \<open>[]*T\<close> may be nil.\<close>

record NetNSSpec =
  ns_Name :: string
  ns_Interfaces :: "NetNSInterfaceSpec option list"
  ns_Apps :: "NetNSAppSpec option list"
  ns_InitScripts :: "string list"

record DeviceClassSpec =
  dc_Name :: string
  dc_Path :: string

record SMPSpec =
  smp_CPUs :: int
  smp_Cores :: int
  smp_Threads :: int
  smp_Dies :: int
  smp_Sockets :: int
  smp_MaxCPUs :: int

record SMBIOSConfigSpec =
  sb_Manufacturer :: string
  sb_Product :: string
  sb_Serial :: string

record NodeVolumeSpec =
  v_Kind :: string
  v_Name :: string
  v_Image :: string
  v_UserData :: string
  v_NetworkConfig :: string
  v_Size :: string
  v_Path :: string
  v_CopyOnWrite :: bool
  v_Cache :: string
  v_Format :: string
  v_VG :: string
  v_Writable :: bool
  v_DeviceClass :: string

record NodeSpec =
  node_Name :: string
  node_Interfaces :: "string list"
  node_Volumes :: "NodeVolumeSpec list"
  node_IgnitionFile :: string
  node_CPU :: int
  node_SMP :: "SMPSpec option"
  node_Memory :: string
  node_NUMA_Nodes :: int
  node_NetworkDeviceQueue :: int
  node_UEFI :: bool
  node_TPM :: bool
  node_SMBIOS :: SMBIOSConfigSpec

record ImageSpec =
  img_Name :: string
  img_URL :: string
  img_File :: string
  img_CompressionMethod :: string

record ClusterSpec =
  cs_Networks :: "NetworkSpec list"
  cs_NetNSs :: "NetNSSpec list"
  cs_DeviceClasses :: "DeviceClassSpec list"
  cs_Nodes :: "NodeSpec list"
  cs_Images :: "ImageSpec list"

definition emptyCluster :: ClusterSpec where
  "emptyCluster = \<lparr>cs_Networks = [], cs_NetNSs = [], cs_DeviceClasses = [], cs_Nodes = [], cs_Images = []\<rparr>"

definition ClusterSpec_Append :: "ClusterSpec \<Rightarrow> ClusterSpec \<Rightarrow> ClusterSpec" where
  "ClusterSpec_Append c other = c
     \<lparr>cs_Networks := cs_Networks c @ cs_Networks other,
      cs_NetNSs := cs_NetNSs c @ cs_NetNSs other,
      cs_Nodes := cs_Nodes c @ cs_Nodes other,
      cs_Images := cs_Images c @ cs_Images other,
      cs_DeviceClasses := cs_DeviceClasses c @ cs_DeviceClasses other\<rparr>"

subsection \<open>Validation\<close>

definition maxNetworkNameLen :: nat where "maxNetworkNameLen = 15"

definition NetworkInternal :: string where "NetworkInternal = ''internal''"
definition NetworkExternal :: string where "NetworkExternal = ''external''"
definition NetworkBMC :: string where "NetworkBMC = ''bmc''"

definition NetworkSpec_validate :: "NetworkSpec \<Rightarrow> unit res" where
  "NetworkSpec_validate n =
     (if maxNetworkNameLen < length (net_Name n) then Fail (ErrNew (''too long name: '' @ net_Name n))
      else if net_Type n = NetworkInternal then
        (if net_UseNAT n then Fail (ErrNew ''useNAT must be false for internal network'')
         else if 0 < length (net_Address n) then Fail (ErrNew ''address cannot be specified for internal network'')
         else Ret ())
      else if net_Type n = NetworkExternal then
        (if length (net_Address n) = 0 then Fail (ErrNew ''address must be specified for external network'')
         else Ret ())
      else if net_Type n = NetworkBMC then
        (if net_UseNAT n then Fail (ErrNew ''useNAT must be false for BMC network'')
         else if length (net_Address n) = 0 then Fail (ErrNew ''address must be specified for BMC network'')
         else Ret ())
      else Fail (ErrNew (''unknown type: '' @ net_Type n)))"

text \<open>A nil element of \<open>Apps\<close> is dereferenced.\<close>

fun checkApps :: "NetNSAppSpec option list \<Rightarrow> unit res" where
  "checkApps [] = Ret ()"
| "checkApps (None # apps) = Panic ''invalid memory address or nil pointer dereference''"
| "checkApps (Some app # apps) =
     (if length (app_Command app) = 0 then Fail (ErrNew (''no command for app '' @ app_Name app))
      else checkApps apps)"

definition NetNSSpec_validate :: "NetNSSpec \<Rightarrow> unit res" where
  "NetNSSpec_validate n =
     (if length (ns_Name n) = 0 then Fail (ErrNew ''network namespace is empty'')
      else if length (ns_Interfaces n) = 0 then Fail (ErrNew (''no interface for Network Namespace '' @ ns_Name n))
      else checkApps (ns_Apps n))"

definition filepath_IsAbs :: "string \<Rightarrow> bool" where
  "filepath_IsAbs p \<longleftrightarrow> p \<noteq> [] \<and> hd p = CHR ''/''"

definition DeviceClassSpec_validate :: "DeviceClassSpec \<Rightarrow> unit res" where
  "DeviceClassSpec_validate n =
     (if length (dc_Name n) = 0 then Fail (ErrNew ''device class name is empty'')
      else if dc_Path n = '''' then Fail (ErrNew ''device class path is empty'')
      else if \<not> filepath_IsAbs (dc_Path n) then Fail (ErrNew ''path should be absolute'')
      else Ret ())"

definition NodeVolumeCacheWriteback :: string where "NodeVolumeCacheWriteback = ''writeback''"
definition NodeVolumeCacheNone :: string where "NodeVolumeCacheNone = ''none''"
definition NodeVolumeCacheWritethrough :: string where "NodeVolumeCacheWritethrough = ''writethrough''"
definition NodeVolumeCacheDirectSync :: string where "NodeVolumeCacheDirectSync = ''directsync''"
definition NodeVolumeCacheUnsafe :: string where "NodeVolumeCacheUnsafe = ''unsafe''"

definition NodeVolumeKindImage :: string where "NodeVolumeKindImage = ''image''"
definition NodeVolumeKindLocalds :: string where "NodeVolumeKindLocalds = ''localds''"
definition NodeVolumeKindRaw :: string where "NodeVolumeKindRaw = ''raw''"
definition NodeVolumeKindHostPath :: string where "NodeVolumeKindHostPath = ''hostPath''"

definition NodeVolumeFormatQcow2 :: string where "NodeVolumeFormatQcow2 = ''qcow2''"
definition NodeVolumeFormatRaw :: string where "NodeVolumeFormatRaw = ''raw''"

definition knownCaches :: "string list" where
  "knownCaches = [NodeVolumeCacheWriteback, NodeVolumeCacheNone, NodeVolumeCacheWritethrough,
     NodeVolumeCacheDirectSync, NodeVolumeCacheUnsafe]"

definition NodeVolumeSpec_validate :: "NodeVolumeSpec \<Rightarrow> NodeVolumeSpec res" where
  "NodeVolumeSpec_validate n =
     bindR (if v_Cache n = '''' then Ret (n\<lparr>v_Cache := NodeVolumeCacheNone\<rparr>)
            else if v_Cache n \<in> set knownCaches then Ret n
            else Fail (ErrNew ''invalid cache type for volume'')) (\<lambda>n.
     if v_Kind n = NodeVolumeKindImage then
       (if v_Image n = '''' then Fail (ErrNew ''image volume must specify an image name'') else Ret n)
     else if v_Kind n = NodeVolumeKindLocalds then
       (if v_UserData n = '''' then Fail (ErrNew ''localds volume must specify user-data'') else Ret n)
     else if v_Kind n = NodeVolumeKindRaw then
       (if v_Size n = '''' then Fail (ErrNew ''raw volume must specify size'')
        else if v_Format n = '''' then Ret (n\<lparr>v_Format := NodeVolumeFormatQcow2\<rparr>)
        else if v_Format n = NodeVolumeFormatQcow2 \<or> v_Format n = NodeVolumeFormatRaw then Ret n
        else Fail (ErrNew ''invalid format for raw volume''))
     else if v_Kind n = NodeVolumeKindHostPath then
       (if v_Path n = '''' then Fail (ErrNew ''hostPath volume must specify a path name'')
        else if \<not> filepath_IsAbs (v_Path n) then Fail (ErrNew ''path should be absolute'')
        else Ret n)
     else Fail (ErrNew (''unknown volume kind: '' @ v_Kind n)))"

text \<open>
  The loop \<open>for _, volume := range n.Volumes\<close> validates a copy of each volume: what the
  validator fills in is lost, the node keeps the volumes it had.
\<close>

fun checkVolumes :: "NodeVolumeSpec list \<Rightarrow> unit res" where
  "checkVolumes [] = Ret ()"
| "checkVolumes (v # vs) = bindR (NodeVolumeSpec_validate v) (\<lambda>_. checkVolumes vs)"

definition NodeSpec_validate :: "NodeSpec \<Rightarrow> NodeSpec res" where
  "NodeSpec_validate n =
     (if node_Name n = '''' then Fail (ErrNew ''node name is empty'')
      else bindR (checkVolumes (node_Volumes n)) (\<lambda>_.
        if node_CPU n \<noteq> 0 \<and> node_SMP n \<noteq> None then Fail (ErrNew ''node cpu and smp are exclusive'')
        else if node_CPU n = 0 \<and> node_SMP n = None then Fail (ErrNew ''node cpu or smp is required'')
        else if node_CPU n \<noteq> 0 then
          Ret (n\<lparr>node_SMP := Some \<lparr>smp_CPUs = node_CPU n, smp_Cores = 0, smp_Threads = 0, smp_Dies = 0,
                    smp_Sockets = 0, smp_MaxCPUs = 0\<rparr>, node_CPU := 0\<rparr>)
        else Ret n))"

definition ImageSpec_validate :: "ImageSpec \<Rightarrow> unit res" where
  "ImageSpec_validate i =
     (if length (img_Name i) = 0 then Fail (ErrNew (''invalid image spec: '' @ img_Name i))
      else if length (img_URL i) = 0 \<and> length (img_File i) = 0 then
        Fail (ErrNew (''invalid image spec: '' @ img_Name i))
      else if 0 < length (img_URL i) \<and> 0 < length (img_File i) then
        Fail (ErrNew (''invalid image spec: '' @ img_Name i))
      else Ret ())"

subsection \<open>Reading documents\<close>

definition ErrShortBuffer :: err where "ErrShortBuffer = ErrNew ''short buffer''"

definition maxBytes :: nat where "maxBytes = 16 * 1024 * 1024"

text \<open>
  The frame reader: given the free space, what it writes there (cut to the space) and its
  error. The buffer starts with 1024 bytes and doubles; \<open>acc\<close> is what has been read.
\<close>

type_synonym 'f reader = "nat \<Rightarrow> 'f \<Rightarrow> (bytes \<times> err option) \<times> 'f"

function readDoc :: "'f reader \<Rightarrow> nat \<Rightarrow> bytes \<Rightarrow> 'f \<Rightarrow> bytes res \<times> 'f" where
  "readDoc rd capa acc f =
     (case rd (capa - length acc) f of
        ((d, e), f') \<Rightarrow>
          (let d = take (capa - length acc) d in
           if e = Some ErrShortBuffer then
             (if d = [] then (Fail (ErrNew (''got short buffer with n=0, base='' @ fmt_d (length acc) @ '', cap='' @ fmt_d capa)), f')
              else if 0 < capa \<and> capa < maxBytes then readDoc rd (capa + capa) (acc @ d) f'
              else (Fail (ErrNew ''yaml document is too large''), f'))
           else (case e of Some e \<Rightarrow> (Fail e, f') | None \<Rightarrow> (Ret (acc @ d), f'))))"
  by pat_completeness auto
termination by (relation "measure (\<lambda>(rd, capa, acc, f). maxBytes - capa)") auto

declare readDoc.simps [simp del]

definition readSingleYamlDoc :: "'f reader \<Rightarrow> 'f \<Rightarrow> bytes res \<times> 'f" where
  "readSingleYamlDoc rd f = readDoc rd 1024 [] f"

subsection \<open>Parsing\<close>

record yaml =
  y_Kind :: "bytes \<Rightarrow> string res"
  y_Network :: "bytes \<Rightarrow> NetworkSpec res"
  y_NetNS :: "bytes \<Rightarrow> NetNSSpec res"
  y_DeviceClass :: "bytes \<Rightarrow> DeviceClassSpec res"
  y_Node :: "bytes \<Rightarrow> NodeSpec res"
  y_Image :: "bytes \<Rightarrow> ImageSpec res"

definition parseDoc :: "yaml \<Rightarrow> bytes \<Rightarrow> ClusterSpec \<Rightarrow> ClusterSpec res" where
  "parseDoc Y y cluster =
     bindR (wrapR (''failed to unmarshal the yaml document '' @ string_of_bytes y) (y_Kind Y y)) (\<lambda>kind.
     if kind = ''Network'' then
       bindR (wrapR (''failed to unmarshal the Network yaml document '' @ string_of_bytes y) (y_Network Y y)) (\<lambda>n.
       bindR (wrapR ''invalid Network resource'' (NetworkSpec_validate n)) (\<lambda>_.
       Ret (cluster\<lparr>cs_Networks := cs_Networks cluster @ [n]\<rparr>)))
     else if kind = ''NetworkNamespace'' then
       bindR (wrapR (''failed to unmarshal the NetworkNamespace yaml document '' @ string_of_bytes y) (y_NetNS Y y)) (\<lambda>n.
       bindR (wrapR ''invalid NetworkNamespace resource'' (NetNSSpec_validate n)) (\<lambda>_.
       Ret (cluster\<lparr>cs_NetNSs := cs_NetNSs cluster @ [n]\<rparr>)))
     else if kind = ''DeviceClass'' then
       bindR (wrapR (''failed to unmarshal the DeviceClass yaml document '' @ string_of_bytes y) (y_DeviceClass Y y)) (\<lambda>n.
       bindR (wrapR ''invalid DeviceClass resource'' (DeviceClassSpec_validate n)) (\<lambda>_.
       Ret (cluster\<lparr>cs_DeviceClasses := cs_DeviceClasses cluster @ [n]\<rparr>)))
     else if kind = ''Node'' then
       bindR (wrapR (''failed to unmarshal the Node yaml document '' @ string_of_bytes y) (y_Node Y y)) (\<lambda>n.
       bindR (wrapR ''invalid Node resource'' (NodeSpec_validate n)) (\<lambda>n.
       Ret (cluster\<lparr>cs_Nodes := cs_Nodes cluster @ [n]\<rparr>)))
     else if kind = ''Image'' then
       bindR (wrapR (''failed to unmarshal the Image yaml document '' @ string_of_bytes y) (y_Image Y y)) (\<lambda>i.
       bindR (wrapR ''invalid Image resource'' (ImageSpec_validate i)) (\<lambda>_.
       Ret (cluster\<lparr>cs_Images := cs_Images cluster @ [i]\<rparr>)))
     else Fail (ErrNew (''unknown resource: '' @ kind)))"

text \<open>
  The loop of \<open>Parse\<close>. Only \<open>io.EOF\<close> ends it; with any other error of the reader the loop
  goes on with a nil document. The loop need not end, so it returns an option.
\<close>

partial_function (option) parseLoop :: "yaml \<Rightarrow> 'f reader \<Rightarrow> ClusterSpec \<Rightarrow> 'f \<Rightarrow> ClusterSpec res option" where
  "parseLoop Y rd cluster f =
     (case readSingleYamlDoc rd f of
        (Fail EOF, f') \<Rightarrow> Some (Ret cluster)
      | (Panic p, f') \<Rightarrow> Some (Panic p)
      | (r, f') \<Rightarrow>
          (case parseDoc Y (case r of Ret y \<Rightarrow> y | _ \<Rightarrow> []) cluster of
             Ret cluster' \<Rightarrow> parseLoop Y rd cluster' f'
           | Fail e \<Rightarrow> Some (Fail e)
           | Panic p \<Rightarrow> Some (Panic p)))"

definition Parse :: "yaml \<Rightarrow> 'f reader \<Rightarrow> 'f \<Rightarrow> ClusterSpec res option" where
  "Parse Y rd f = parseLoop Y rd emptyCluster f"

subsection \<open>What the validators accept\<close>

definition network_ok :: "NetworkSpec \<Rightarrow> bool" where
  "network_ok n \<longleftrightarrow> length (net_Name n) \<le> 15 \<and>
     (net_Type n = ''internal'' \<and> \<not> net_UseNAT n \<and> net_Address n = [] \<or>
      net_Type n = ''external'' \<and> net_Address n \<noteq> [] \<or>
      net_Type n = ''bmc'' \<and> \<not> net_UseNAT n \<and> net_Address n \<noteq> [])"

definition netns_ok :: "NetNSSpec \<Rightarrow> bool" where
  "netns_ok n \<longleftrightarrow> ns_Name n \<noteq> [] \<and> ns_Interfaces n \<noteq> [] \<and>
     (\<forall>a \<in> set (ns_Apps n). \<exists>app. a = Some app \<and> app_Command app \<noteq> [])"

definition deviceclass_ok :: "DeviceClassSpec \<Rightarrow> bool" where
  "deviceclass_ok n \<longleftrightarrow> dc_Name n \<noteq> [] \<and> filepath_IsAbs (dc_Path n)"

definition volume_ok :: "NodeVolumeSpec \<Rightarrow> bool" where
  "volume_ok v \<longleftrightarrow> (v_Cache v = [] \<or> v_Cache v \<in> set knownCaches) \<and>
     (v_Kind v = ''image'' \<and> v_Image v \<noteq> [] \<or>
      v_Kind v = ''localds'' \<and> v_UserData v \<noteq> [] \<or>
      v_Kind v = ''raw'' \<and> v_Size v \<noteq> [] \<and> v_Format v \<in> {[], ''qcow2'', ''raw''} \<or>
      v_Kind v = ''hostPath'' \<and> filepath_IsAbs (v_Path v))"

definition node_ok :: "NodeSpec \<Rightarrow> bool" where
  "node_ok n \<longleftrightarrow> node_Name n \<noteq> [] \<and> (\<forall>v \<in> set (node_Volumes n). volume_ok v) \<and>
     node_CPU n = 0 \<and> node_SMP n \<noteq> None"

definition image_ok :: "ImageSpec \<Rightarrow> bool" where
  "image_ok i \<longleftrightarrow> img_Name i \<noteq> [] \<and> (img_URL i = [] \<longleftrightarrow> img_File i \<noteq> [])"

definition cluster_ok :: "ClusterSpec \<Rightarrow> bool" where
  "cluster_ok c \<longleftrightarrow> list_all network_ok (cs_Networks c) \<and> list_all netns_ok (cs_NetNSs c) \<and>
     list_all deviceclass_ok (cs_DeviceClasses c) \<and> list_all node_ok (cs_Nodes c) \<and> list_all image_ok (cs_Images c)"

lemma NetworkSpec_validate_iff: "NetworkSpec_validate n = Ret () \<longleftrightarrow> network_ok n"
  by (auto simp: NetworkSpec_validate_def network_ok_def maxNetworkNameLen_def NetworkInternal_def
      NetworkExternal_def NetworkBMC_def)

lemma checkApps_iff: "checkApps apps = Ret () \<longleftrightarrow> (\<forall>a \<in> set apps. \<exists>app. a = Some app \<and> app_Command app \<noteq> [])"
  by (induction apps rule: checkApps.induct) auto

lemma NetNSSpec_validate_iff: "NetNSSpec_validate n = Ret () \<longleftrightarrow> netns_ok n"
  by (auto simp: NetNSSpec_validate_def netns_ok_def checkApps_iff)

lemma DeviceClassSpec_validate_iff: "DeviceClassSpec_validate n = Ret () \<longleftrightarrow> deviceclass_ok n"
  by (auto simp: DeviceClassSpec_validate_def deviceclass_ok_def filepath_IsAbs_def)

lemmas volume_kinds = NodeVolumeKindImage_def NodeVolumeKindLocalds_def NodeVolumeKindRaw_def
  NodeVolumeKindHostPath_def NodeVolumeFormatQcow2_def NodeVolumeFormatRaw_def

lemma NodeVolumeSpec_validate_iff: "(\<exists>v'. NodeVolumeSpec_validate v = Ret v') \<longleftrightarrow> volume_ok v"
  by (auto simp: NodeVolumeSpec_validate_def volume_ok_def volume_kinds filepath_IsAbs_def)

lemma checkVolumes_iff: "checkVolumes vs = Ret () \<longleftrightarrow> (\<forall>v \<in> set vs. volume_ok v)"
  by (induction vs) (auto simp: bindR_eq_Ret simp flip: NodeVolumeSpec_validate_iff)

lemma NodeSpec_validate_Ret:
  assumes "NodeSpec_validate n = Ret n'"
  shows "node_ok n'" "node_Volumes n' = node_Volumes n"
    "node_SMP n' = (if node_CPU n = 0 then node_SMP n else Some \<lparr>smp_CPUs = node_CPU n, smp_Cores = 0,
       smp_Threads = 0, smp_Dies = 0, smp_Sockets = 0, smp_MaxCPUs = 0\<rparr>)"
  using assms
  by (auto simp: NodeSpec_validate_def node_ok_def bindR_eq_Ret checkVolumes_iff split: if_splits)

lemma ImageSpec_validate_iff: "ImageSpec_validate i = Ret () \<longleftrightarrow> image_ok i"
  by (auto simp: ImageSpec_validate_def image_ok_def)

lemmas validate_iffs = NetworkSpec_validate_iff NetNSSpec_validate_iff DeviceClassSpec_validate_iff
  ImageSpec_validate_iff

lemma parseDoc_ok: "parseDoc Y y c = Ret c' \<Longrightarrow> cluster_ok c \<Longrightarrow> cluster_ok c'"
  by (auto simp: parseDoc_def bindR_eq_Ret validate_iffs cluster_ok_def split: if_splits
      dest: NodeSpec_validate_Ret(1))

subsection \<open>Documents in sequence\<close>

lemma bindR_cong: "(\<And>x. r = Ret x \<Longrightarrow> f x = g x) \<Longrightarrow> bindR r f = bindR r g"
  by (cases r) auto

fun parse_docs :: "yaml \<Rightarrow> ClusterSpec \<Rightarrow> bytes list \<Rightarrow> ClusterSpec res" where
  "parse_docs Y c [] = Ret c"
| "parse_docs Y c (d # ds) = bindR (parseDoc Y d c) (\<lambda>c'. parse_docs Y c' ds)"

lemma parse_docs_ok: "parse_docs Y c ds = Ret c' \<Longrightarrow> cluster_ok c \<Longrightarrow> cluster_ok c'"
  by (induction Y c ds rule: parse_docs.induct) (auto simp: bindR_eq_Ret intro: parseDoc_ok)

lemma Append_simps [simp]:
  "ClusterSpec_Append emptyCluster c = c" "ClusterSpec_Append c emptyCluster = c"
  "ClusterSpec_Append (ClusterSpec_Append a b) c = ClusterSpec_Append a (ClusterSpec_Append b c)"
  by (simp_all add: ClusterSpec_Append_def emptyCluster_def)

lemma bindR_if: "bindR (if b then r else r') f = (if b then bindR r f else bindR r' f)"
  by simp

lemma parseDoc_Append:
  "parseDoc Y y (ClusterSpec_Append a b) = bindR (parseDoc Y y b) (\<lambda>b'. Ret (ClusterSpec_Append a b'))"
  by (cases a; cases b) (simp add: parseDoc_def ClusterSpec_Append_def bindR_assoc bindR_if cong: if_cong)

lemma parse_docs_Append:
  "parse_docs Y (ClusterSpec_Append a b) ds = bindR (parse_docs Y b ds) (\<lambda>b'. Ret (ClusterSpec_Append a b'))"
  by (induction Y b ds rule: parse_docs.induct) (auto simp: parseDoc_Append bindR_assoc intro: bindR_cong)

lemma parse_docs_append:
  "parse_docs Y c (ds @ ds') = bindR (parse_docs Y c ds) (\<lambda>c'. parse_docs Y c' ds')"
  by (induction Y c ds rule: parse_docs.induct) (simp_all add: bindR_assoc)

subsection \<open>The frame reader\<close>

text \<open>
  The contract of the framing reader: it hands out one document after the other; a
  document that does not fit is delivered in pieces, each but the last with
  \<open>io.ErrShortBuffer\<close>; after the last document it reports \<open>io.EOF\<close>.
\<close>

locale frame_reader =
  fixes rd :: "'f reader" and docs :: "'f \<Rightarrow> bytes list"
  assumes eof_law: "docs f = [] \<Longrightarrow> \<exists>f'. rd n f = (([], Some EOF), f')"
    and fit_law: "docs f = d # ds \<Longrightarrow> length d \<le> n \<Longrightarrow> \<exists>f'. rd n f = ((d, None), f') \<and> docs f' = ds"
    and short_law: "docs f = d # ds \<Longrightarrow> n < length d \<Longrightarrow>
      \<exists>f'. rd n f = ((take n d, Some ErrShortBuffer), f') \<and> docs f' = drop n d # ds"
begin

lemma readDoc_doc:
  assumes "docs f = d # ds" "length acc < capa" "length acc + length d \<le> maxBytes"
  shows "\<exists>f'. readDoc rd capa acc f = (Ret (acc @ d), f') \<and> docs f' = ds"
  using assms
proof (induction "maxBytes - capa" arbitrary: capa acc d f rule: less_induct)
  case less
  show ?case
  proof (cases "length d \<le> capa - length acc")
    case True
    then obtain f' where "rd (capa - length acc) f = ((d, None), f')" "docs f' = ds"
      using fit_law [OF less.prems(1)] by blast
    with True show ?thesis by (simp add: readDoc.simps [of rd capa])
  next
    case False
    let ?n = "capa - length acc"
    obtain f' where f': "rd ?n f = ((take ?n d, Some ErrShortBuffer), f')" "docs f' = drop ?n d # ds"
      using short_law [OF less.prems(1), of ?n] False by auto
    have "capa < maxBytes" using False less.prems by simp
    moreover have "take ?n d \<noteq> []" using less.prems(2) False by auto
    moreover have "\<exists>f''. readDoc rd (capa + capa) (acc @ take ?n d) f' = (Ret ((acc @ take ?n d) @ drop ?n d), f'')
        \<and> docs f'' = ds"
      using \<open>capa < maxBytes\<close> less.prems False by (intro less.hyps f'(2)) auto
    ultimately show ?thesis
      using f'(1) less.prems(2) by (simp add: readDoc.simps [of rd capa])
  qed
qed

lemma readSingleYamlDoc_doc:
  assumes "docs f = d # ds" "length d \<le> maxBytes"
  shows "\<exists>f'. readSingleYamlDoc rd f = (Ret d, f') \<and> docs f' = ds"
  using readDoc_doc [OF assms(1), of "[]" 1024] assms(2) by (simp add: readSingleYamlDoc_def)

lemma readSingleYamlDoc_eof: "docs f = [] \<Longrightarrow> \<exists>f'. readSingleYamlDoc rd f = (Fail EOF, f')"
  using eof_law [of f 1024] by (auto simp: readSingleYamlDoc_def readDoc.simps [of rd 1024] ErrShortBuffer_def)

lemma parseLoop_docs:
  assumes "docs f = ds" "\<forall>d \<in> set ds. length d \<le> maxBytes"
  shows "parseLoop Y rd c f = Some (parse_docs Y c ds)"
  using assms
proof (induction ds arbitrary: c f)
  case Nil
  then show ?case using readSingleYamlDoc_eof [of f] by (auto simp: parseLoop.simps [of Y rd c f])
next
  case (Cons d ds)
  then obtain f' where "readSingleYamlDoc rd f = (Ret d, f')" "docs f' = ds"
    using readSingleYamlDoc_doc [of f d ds] by auto
  with Cons show ?case
    by (cases "parseDoc Y d c") (auto simp: parseLoop.simps [of Y rd c f])
qed

end

text \<open>A reader over a list of documents that keeps the contract.\<close>

fun list_reader :: "bytes list reader" where
  "list_reader n [] = (([], Some EOF), [])"
| "list_reader n (d # ds) =
     (if length d \<le> n then ((d, None), ds) else ((take n d, Some ErrShortBuffer), drop n d # ds))"

interpretation lst: frame_reader list_reader "\<lambda>ds. ds"
  by unfold_locales auto

subsection \<open>Properties\<close>

lemma parseLoop_ok:
  assumes "parseLoop Y rd c f = Some r"
  shows "cluster_ok c \<longrightarrow> (\<forall>c'. r = Ret c' \<longrightarrow> cluster_ok c')"
proof (rule parseLoop.raw_induct [where P = "\<lambda>Y rd c f r. cluster_ok c \<longrightarrow> (\<forall>c'. r = Ret c' \<longrightarrow> cluster_ok c')",
      OF _ assms])
  fix loop Y and rd :: "'b reader" and c f r
  assume IH: "\<And>Y rd c f r. loop Y rd c f = Some r \<Longrightarrow> cluster_ok c \<longrightarrow> (\<forall>c'. r = Ret c' \<longrightarrow> cluster_ok c')"
    and "(case readSingleYamlDoc rd f of (Fail EOF, f') \<Rightarrow> Some (Ret c) | (Panic p, f') \<Rightarrow> Some (Panic p)
      | (r, f') \<Rightarrow> (case parseDoc Y (case r of Ret y \<Rightarrow> y | _ \<Rightarrow> []) c of Ret c' \<Rightarrow> loop Y rd c' f'
         | Fail e \<Rightarrow> Some (Fail e) | Panic p \<Rightarrow> Some (Panic p))) = Some r"
  then show "cluster_ok c \<longrightarrow> (\<forall>c'. r = Ret c' \<longrightarrow> cluster_ok c')"
    by (auto split: prod.splits res.splits err.splits dest: parseDoc_ok IH)
qed

text \<open>
  Whatever the reader and the YAML decoder deliver, a cluster that \<open>Parse\<close> returns
  satisfies every rule of the resource documentation that the validators enforce: network
  names of at most 15 bytes with the address and NAT settings their type allows, network
  namespaces with interfaces and commands, absolute device class paths, nodes with a name,
  known volumes and an SMP setting in place of the old CPU count, images with exactly one
  of URL and file.
\<close>

lemma parsed_cluster_is_valid:
  assumes "Parse Y rd f = Some (Ret c)"
  shows "cluster_ok c"
  using parseLoop_ok [OF assms [unfolded Parse_def]]
  by (simp add: cluster_ok_def emptyCluster_def)

definition exampleNetwork :: NetworkSpec where
  "exampleNetwork = \<lparr>net_Name = ''net0'', net_Type = ''external'', net_UseNAT = True, net_Address = ''10.0.0.0/22''\<rparr>"

definition exampleYaml :: yaml where
  "exampleYaml =
     \<lparr>y_Kind = (\<lambda>y. Ret (if y = [1] then ''Network'' else '''')), y_Network = (\<lambda>_. Ret exampleNetwork),
      y_NetNS = (\<lambda>_. Fail EOF), y_DeviceClass = (\<lambda>_. Fail EOF), y_Node = (\<lambda>_. Fail EOF),
      y_Image = (\<lambda>_. Fail EOF)\<rparr>"

lemma exampleNetwork_valid: "NetworkSpec_validate exampleNetwork = Ret ()"
  by (simp add: NetworkSpec_validate_iff network_ok_def exampleNetwork_def)

lemma parse_example:
  "parse_docs exampleYaml emptyCluster [[1], [1]] = Ret (emptyCluster\<lparr>cs_Networks := [exampleNetwork, exampleNetwork]\<rparr>)"
  "parse_docs exampleYaml emptyCluster [[1]] = Ret (emptyCluster\<lparr>cs_Networks := [exampleNetwork]\<rparr>)"
  by (simp_all add: parseDoc_def exampleYaml_def exampleNetwork_valid emptyCluster_def)

lemma Parse_example:
  "Parse exampleYaml list_reader [[1], [1]] = Some (Ret (emptyCluster\<lparr>cs_Networks := [exampleNetwork, exampleNetwork]\<rparr>))"
  "Parse exampleYaml list_reader [[1]] = Some (Ret (emptyCluster\<lparr>cs_Networks := [exampleNetwork]\<rparr>))"
  using lst.parseLoop_docs [of "[[1], [1]]" "[[1], [1]]" exampleYaml emptyCluster]
    lst.parseLoop_docs [of "[[1]]" "[[1]]" exampleYaml emptyCluster]
  by (simp_all add: Parse_def parse_example maxBytes_def del: parse_docs.simps)

text \<open>
  On a reader that frames documents of at most 16 MiB, \<open>Parse\<close> ends, and its result is
  that of handling the documents one after the other: the first invalid document decides
  the error, otherwise the resources stand in document order.
\<close>

lemma parse_handles_documents_in_order:
  assumes "frame_reader rd docs" "\<forall>d \<in> set (docs f). length d \<le> maxBytes"
  shows "Parse Y rd f = Some (parse_docs Y emptyCluster (docs f))"
  using frame_reader.parseLoop_docs [OF assms(1) refl assms(2)] by (simp add: Parse_def)

text \<open>
  Splitting the documents of a cluster over two files and appending the two parsed
  clusters gives the cluster of the whole.
\<close>

lemma parse_of_parts_appends:
  assumes "frame_reader rd docs" "\<forall>d \<in> set (docs f). length d \<le> maxBytes" "docs f = docs f1 @ docs f2"
    and "Parse Y rd f1 = Some (Ret c1)" "Parse Y rd f2 = Some (Ret c2)"
  shows "Parse Y rd f = Some (Ret (ClusterSpec_Append c1 c2))"
proof -
  have p: "Parse Y rd g = Some (parse_docs Y emptyCluster (docs g))" if "\<forall>d \<in> set (docs g). length d \<le> maxBytes" for g
    using frame_reader.parseLoop_docs [OF assms(1) refl that] by (simp add: Parse_def)
  have "parse_docs Y emptyCluster (docs f1) = Ret c1" "parse_docs Y emptyCluster (docs f2) = Ret c2"
    using p [of f1] p [of f2] assms by auto
  then have "parse_docs Y emptyCluster (docs f) = Ret (ClusterSpec_Append c1 c2)"
    using parse_docs_Append [of Y c1 emptyCluster "docs f2"] by (simp add: assms(3) parse_docs_append)
  then show ?thesis using p [of f] assms(2) by simp
qed


end
