(* ===== verification/Paths.thy ===== *)
theory Paths
  imports Prelude
begin

text \<open>
  What the program uses of \<open>path/filepath\<close>, and the paths a \<open>Runtime\<close> gives to the files
  of a node (\<open>v2/pkg/vm/runtime.go\<close>). \<open>Clean\<close> works on the components between slashes:
  empty ones and \<open>.\<close> vanish, \<open>..\<close> removes the component before it.
\<close>

subsection \<open>filepath\<close>

fun split_slash :: "string \<Rightarrow> string list" where
  "split_slash [] = [[]]"
| "split_slash (c # cs) =
     (if c = CHR ''/'' then [] # split_slash cs
      else (case split_slash cs of [] \<Rightarrow> [[c]] | x # xs \<Rightarrow> (c # x) # xs))"

fun join_slash :: "string list \<Rightarrow> string" where
  "join_slash [] = []"
| "join_slash [x] = x"
| "join_slash (x # xs) = x @ CHR ''/'' # join_slash xs"

fun clean_comps :: "bool \<Rightarrow> string list \<Rightarrow> string list \<Rightarrow> string list" where
  "clean_comps rooted acc [] = rev acc"
| "clean_comps rooted acc (c # cs) =
     (if c = '''' \<or> c = ''.'' then clean_comps rooted acc cs
      else if c = ''..'' then
        (case acc of
           a # acc' \<Rightarrow> if a = ''..'' then clean_comps rooted (''..'' # acc) cs else clean_comps rooted acc' cs
         | [] \<Rightarrow> if rooted then clean_comps rooted [] cs else clean_comps rooted [''..''] cs)
      else clean_comps rooted (c # acc) cs)"

definition filepath_Clean :: "string \<Rightarrow> string" where
  "filepath_Clean p =
     (let rooted = (p \<noteq> [] \<and> hd p = CHR ''/'');
          out = join_slash (clean_comps rooted [] (split_slash p))
      in if rooted then CHR ''/'' # out else if out = [] then ''.'' else out)"

definition filepath_Join :: "string list \<Rightarrow> string" where
  "filepath_Join elems =
     (case dropWhile (\<lambda>e. e = []) elems of [] \<Rightarrow> [] | es \<Rightarrow> filepath_Clean (join_slash es))"

subsection \<open>Runtime\<close>

record Runtime =
  r_Force :: bool
  r_Graphic :: bool
  r_RunDir :: string
  r_DataDir :: string
  r_ListenAddr :: string
  r_ImageCacheDir :: string

definition socketPath :: "Runtime \<Rightarrow> string \<Rightarrow> string" where
  "socketPath r host = filepath_Join [r_RunDir r, host @ ''.socket'']"

definition qmpSocketPath :: "Runtime \<Rightarrow> string \<Rightarrow> string" where
  "qmpSocketPath r host = filepath_Join [r_RunDir r, host @ ''.qmp'']"

definition guestSocketPath :: "Runtime \<Rightarrow> string \<Rightarrow> string" where
  "guestSocketPath r host = filepath_Join [r_RunDir r, host @ ''.guest'']"

definition nvramPath :: "Runtime \<Rightarrow> string \<Rightarrow> string" where
  "nvramPath r host = filepath_Join [r_DataDir r, ''nvram'', host @ ''.fd'']"

definition swtpmSocketDirPath :: "Runtime \<Rightarrow> string \<Rightarrow> string" where
  "swtpmSocketDirPath r host = filepath_Join [r_RunDir r, host]"

definition swtpmSocketPath :: "Runtime \<Rightarrow> string \<Rightarrow> string" where
  "swtpmSocketPath r host = filepath_Join [r_RunDir r, host, ''swtpm.socket'']"

subsection \<open>Components\<close>

lemma split_slash_ne [simp]: "split_slash p \<noteq> []"
  by (induction p) (auto split: list.splits)

lemma split_slash_append: "split_slash (a @ CHR ''/'' # b) = split_slash a @ split_slash b"
  by (induction a) (auto split: list.splits)

lemma split_slash_plain: "CHR ''/'' \<notin> set c \<Longrightarrow> split_slash c = [c]"
  by (induction c) auto

lemma split_join:
  "xs \<noteq> [] \<Longrightarrow> \<forall>x \<in> set xs. CHR ''/'' \<notin> set x \<Longrightarrow> split_slash (join_slash xs) = xs"
  by (induction xs rule: join_slash.induct) (simp_all add: split_slash_plain split_slash_append)

lemma split_slash_no_slash: "x \<in> set (split_slash p) \<Longrightarrow> CHR ''/'' \<notin> set x"
  by (induction p arbitrary: x) (auto split: list.splits if_splits)

definition plain_comp :: "string \<Rightarrow> bool" where
  "plain_comp c \<longleftrightarrow> c \<noteq> [] \<and> c \<noteq> ''.'' \<and> c \<noteq> ''..'' \<and> CHR ''/'' \<notin> set c"

lemma clean_comps_snoc: "plain_comp c \<Longrightarrow> clean_comps rooted acc (xs @ [c]) = clean_comps rooted acc xs @ [c]"
  by (induction rooted acc xs rule: clean_comps.induct) (auto simp: plain_comp_def split: list.splits)

lemma clean_comps_no_slash:
  "x \<in> set (clean_comps rooted acc xs) \<Longrightarrow> \<forall>y \<in> set acc \<union> set xs. CHR ''/'' \<notin> set y \<Longrightarrow> CHR ''/'' \<notin> set x"
  by (induction rooted acc xs rule: clean_comps.induct) (auto split: if_splits list.splits)

text \<open>A path that ends in a plain component keeps it, and only it, as its last component.\<close>

lemma Clean_last:
  assumes "plain_comp c"
  shows "last (split_slash (filepath_Clean (d @ CHR ''/'' # c))) = c" "last (split_slash (filepath_Clean c)) = c"
proof -
  have ns: "CHR ''/'' \<notin> set c" using assms by (simp add: plain_comp_def)
  have key: "last (split_slash (join_slash (ys @ [c]))) = c \<and> join_slash (ys @ [c]) \<noteq> []"
    if "\<forall>y \<in> set ys. CHR ''/'' \<notin> set y" for ys
  proof -
    have "split_slash (join_slash (ys @ [c])) = ys @ [c]" using that ns by (intro split_join) auto
    moreover from this have "join_slash (ys @ [c]) \<noteq> []" using assms by (auto simp: plain_comp_def)
    ultimately show ?thesis by simp
  qed
  have cl: "clean_comps r [] (split_slash d @ [c]) = clean_comps r [] (split_slash d) @ [c]" for r
    by (rule clean_comps_snoc [OF assms])
  have nsd: "\<forall>y \<in> set (clean_comps r [] (split_slash d)). CHR ''/'' \<notin> set y" for r
    using clean_comps_no_slash [of _ r "[]" "split_slash d"] split_slash_no_slash by fastforce
  show "last (split_slash (filepath_Clean (d @ CHR ''/'' # c))) = c"
    using key [OF nsd] by (simp add: filepath_Clean_def Let_def split_slash_append split_slash_plain [OF ns] cl)
  have "hd c \<noteq> CHR ''/''" using ns assms hd_in_set [of c] by (metis plain_comp_def)
  then show "last (split_slash (filepath_Clean c)) = c"
    using assms by (simp add: filepath_Clean_def Let_def split_slash_plain [OF ns] plain_comp_def)
qed

lemma Join_last: "plain_comp c \<Longrightarrow> last (split_slash (filepath_Join [d, c])) = c"
  using Clean_last(1) [of c d] Clean_last(2) [of c] by (cases "d = []") (auto simp: filepath_Join_def plain_comp_def)

lemma plain_suffix: "CHR ''/'' \<notin> set h \<Longrightarrow> x \<in> {''.socket'', ''.qmp'', ''.guest''} \<Longrightarrow> plain_comp (h @ x)"
  by (auto simp: plain_comp_def append_eq_Cons_conv)

text \<open>
  For node names without a slash, the console, QMP and guest sockets of all nodes are
  pairwise different files, whatever the run directory.
\<close>

lemma socket_paths_distinct:
  assumes "CHR ''/'' \<notin> set h" "CHR ''/'' \<notin> set h'"
  shows "(socketPath r h = socketPath r h' \<longleftrightarrow> h = h') \<and> (qmpSocketPath r h = qmpSocketPath r h' \<longleftrightarrow> h = h') \<and>
    (guestSocketPath r h = guestSocketPath r h' \<longleftrightarrow> h = h') \<and> socketPath r h \<noteq> qmpSocketPath r h' \<and>
    socketPath r h \<noteq> guestSocketPath r h' \<and> qmpSocketPath r h \<noteq> guestSocketPath r h'"
proof -
  have l: "last (split_slash (socketPath r k)) = k @ ''.socket''" "last (split_slash (qmpSocketPath r k)) = k @ ''.qmp''"
    "last (split_slash (guestSocketPath r k)) = k @ ''.guest''" if "CHR ''/'' \<notin> set k" for k
    using that by (simp_all add: socketPath_def qmpSocketPath_def guestSocketPath_def Join_last plain_suffix)
  have d: "h @ ''.socket'' \<noteq> h' @ ''.qmp''" "h @ ''.socket'' \<noteq> h' @ ''.guest''" "h @ ''.qmp'' \<noteq> h' @ ''.guest''"
    by (auto dest: arg_cong [where f = rev])
  show ?thesis
    using l [OF assms(1)] l [OF assms(2)] d by (metis append_same_eq)
qed

end
