(* ===== verification/Qemu.thy ===== *)
theory Qemu
  imports Paths Hash Types
begin

text \<open>
  The QEMU command line of a node, \<open>v2/pkg/vm/qemu.go\<close>. The random bytes of MAC addresses
  come from the explicit entropy source; \<open>generate\<close> panics when it fails. Go's \<open>int\<close> is
  \<open>int\<close>: the numbers are those of a specification, far from the bounds of 64 bits.
\<close>

subsection \<open>Numbers as text\<close>

definition fmt_int :: "int \<Rightarrow> string" where
  "fmt_int i = (if i < 0 then CHR ''-'' # fmt_d (nat (- i)) else fmt_d (nat i))"

text \<open>Go's division truncates.\<close>

definition go_div :: "int \<Rightarrow> int \<Rightarrow> int" where
  "go_div a b = sgn a * sgn b * (\<bar>a\<bar> div \<bar>b\<bar>)"

subsection \<open>Volumes\<close>

datatype volumeArgs =
    ImageVolumeArgs string string
  | LocalDSVolumeArgs string string
  | RawVolumeArgs string string string
  | HostPathVolumeArgs string bool string

definition selectAIOforCache :: "string \<Rightarrow> string" where
  "selectAIOforCache cache = (if cache = NodeVolumeCacheNone then ''native'' else ''threads'')"

text \<open>The constructors hold path and cache; raw volumes also the format; host paths the path, whether
  it is writable, and the mount tag.\<close>

fun volume_args :: "volumeArgs \<Rightarrow> string list" where
  "volume_args (ImageVolumeArgs path cache) =
     [''-drive'', ''if=virtio,cache='' @ cache @ '',aio='' @ selectAIOforCache cache @ '',file='' @ path]"
| "volume_args (LocalDSVolumeArgs path cache) =
     [''-drive'', ''if=virtio,cache='' @ cache @ '',aio='' @ selectAIOforCache cache @ '',format=qcow2,file='' @ path]"
| "volume_args (RawVolumeArgs path cache format) =
     [''-drive'', ''if=virtio,cache='' @ cache @ '',aio='' @ selectAIOforCache cache @ '',format='' @ format @ '',file='' @ path]"
| "volume_args (HostPathVolumeArgs path writable mountTag) =
     [''-virtfs'', ''local,path='' @ path @ '',mount_tag='' @ mountTag @ '',security_model=none''
        @ (if writable then '''' else '',readonly'')]"

subsection \<open>The command\<close>

record tapInfo =
  ti_tap :: string
  ti_bridge :: string
  ti_mtu :: int

record smBIOSConfig =
  sm_manufacturer :: string
  sm_product :: string
  sm_serial :: string

record qemu =
  q_name :: string
  q_taps :: "tapInfo list"
  q_volumes :: "volumeArgs list"
  q_ignitionFile :: string
  q_smp :: SMPSpec
  q_memory :: string
  q_numa_nodes :: int
  q_networkDeviceQueue :: int
  q_uefi :: bool
  q_tpm :: bool
  q_smbios :: smBIOSConfig

definition newQemu ::
  "string \<Rightarrow> tapInfo list \<Rightarrow> volumeArgs list \<Rightarrow> string \<Rightarrow> SMPSpec \<Rightarrow> string \<Rightarrow> int \<Rightarrow> int \<Rightarrow> bool \<Rightarrow> bool
   \<Rightarrow> smBIOSConfig \<Rightarrow> qemu" where
  "newQemu nodeName taps volumes ignitionFile smp memory numa queue uefi tpm smbios =
     \<lparr>q_name = nodeName, q_taps = taps, q_volumes = volumes, q_ignitionFile = ignitionFile, q_smp = smp,
      q_memory = memory, q_numa_nodes = numa, q_networkDeviceQueue = queue, q_uefi = uefi, q_tpm = tpm,
      q_smbios = smbios\<rparr>"

definition defaultOVMFCodePath :: string where "defaultOVMFCodePath = ''/usr/share/OVMF/OVMF_CODE.fd''"
definition defaultOVMFVarsPath :: string where "defaultOVMFVarsPath = ''/usr/share/OVMF/OVMF_VARS.fd''"
definition defaultRebootTimeout_ms :: nat where "defaultRebootTimeout_ms = 30000"

definition mac_generate :: "(rng, string) act" where
  "mac_generate g =
     (case rand_read 3 g of
        (Ret b, g') \<Rightarrow>
          (Ret (''52:54:00:'' @ hex_byte (b ! 0) @ '':'' @ hex_byte (b ! 1) @ '':'' @ hex_byte (b ! 2)), g')
      | (Fail e, g') \<Rightarrow> (Panic (err_string e), g')
      | (Panic p, g') \<Rightarrow> (Panic p, g'))"

definition opt_num :: "string \<Rightarrow> int \<Rightarrow> string" where
  "opt_num key n = (if n \<noteq> 0 then key @ fmt_int n else '''')"

definition smpParams :: "SMPSpec \<Rightarrow> string" where
  "smpParams s = fmt_int (smp_CPUs s) @ opt_num '',cores='' (smp_Cores s) @ opt_num '',threads='' (smp_Threads s)
     @ opt_num '',dies='' (smp_Dies s) @ opt_num '',sockets='' (smp_Sockets s) @ opt_num '',maxcpus='' (smp_MaxCPUs s)"

definition numaParams :: "int \<Rightarrow> int \<Rightarrow> string list" where
  "numaParams cpus nodes =
     (let cpuPerNode = go_div cpus nodes
      in concat (map (\<lambda>i. [''-numa'', ''node,cpus='' @ fmt_int (cpuPerNode * int i) @ ''-''
           @ fmt_int (cpuPerNode * (int i + 1) - 1)]) [0..<nat nodes]))"

definition serialOf :: "string \<Rightarrow> string \<Rightarrow> string" where
  "serialOf name serial = (if serial = '''' then hex_string (sha1 (bytes_of_string name)) else serial)"

definition smbiosParam :: "qemu \<Rightarrow> string" where
  "smbiosParam c =
     ''type=1''
     @ (if sm_manufacturer (q_smbios c) \<noteq> '''' then '',manufacturer='' @ sm_manufacturer (q_smbios c) else '''')
     @ (if sm_product (q_smbios c) \<noteq> '''' then '',product='' @ sm_product (q_smbios c) else '''')
     @ '',serial='' @ serialOf (q_name c) (sm_serial (q_smbios c))"

definition qemuParams :: "qemu \<Rightarrow> Runtime \<Rightarrow> string list" where
  "qemuParams c r =
     [''-enable-kvm'']
     @ (if q_ignitionFile c \<noteq> '''' then [''-fw_cfg'', ''opt/com.coreos/config,file='' @ q_ignitionFile c] else [])
     @ (if smp_CPUs (q_smp c) \<noteq> 0 then [''-smp'', smpParams (q_smp c)] else [])
     @ (if q_memory c \<noteq> '''' then [''-m'', q_memory c] else [])
     @ (if q_numa_nodes c \<noteq> 0 then numaParams (smp_CPUs (q_smp c)) (q_numa_nodes c) else [])
     @ (if \<not> r_Graphic r
        then [''-nographic'', ''-serial'', ''unix:'' @ socketPath r (q_name c) @ '',server,nowait''] else [])
     @ (if q_uefi c
        then [''-drive'', ''if=pflash,file='' @ defaultOVMFCodePath @ '',format=raw,readonly'',
              ''-drive'', ''if=pflash,file='' @ nvramPath r (q_name c) @ '',format=raw''] else [])
     @ [''-smbios'', smbiosParam c]"

definition tapDevice :: "bool \<Rightarrow> qemu \<Rightarrow> tapInfo \<Rightarrow> string \<Rightarrow> string list" where
  "tapDevice vhostNetSupported c t mac =
     [''-netdev'',
        ''tap,id='' @ ti_bridge t @ '',ifname='' @ ti_tap t @ '',script=no,downscript=no''
        @ (if vhostNetSupported then '',vhost=on'' else '''')
        @ (if 1 < q_networkDeviceQueue c then '',queues='' @ fmt_int (q_networkDeviceQueue c) else ''''),
      ''-device'',
        ''virtio-net-pci,host_mtu='' @ fmt_int (ti_mtu t) @ '',netdev='' @ ti_bridge t @ '',mac='' @ mac
        @ (if 1 < q_networkDeviceQueue c
           then '',mq=on,vectors='' @ fmt_int (2 * q_networkDeviceQueue c + 2) else '''')
        @ (if q_uefi c then '',romfile='' else '''')]"

definition tapParams :: "bool \<Rightarrow> qemu \<Rightarrow> tapInfo \<Rightarrow> (rng, string list) act" where
  "tapParams vhostNetSupported c t = bindA mac_generate (\<lambda>mac. retA (tapDevice vhostNetSupported c t mac))"

fun tapsParams :: "bool \<Rightarrow> qemu \<Rightarrow> tapInfo list \<Rightarrow> (rng, string list) act" where
  "tapsParams vh c [] = retA []"
| "tapsParams vh c (t # ts) = bindA (tapParams vh c t) (\<lambda>p. bindA (tapsParams vh c ts) (\<lambda>ps. retA (p @ ps)))"

definition tailParams :: "qemu \<Rightarrow> Runtime \<Rightarrow> string list" where
  "tailParams c r =
     (if q_tpm c then
        [''-chardev'', ''socket,id=chrtpm,path='' @ swtpmSocketPath r (q_name c),
         ''-tpmdev'', ''emulator,id=tpm0,chardev=chrtpm'',
         ''-device'', ''tpm-tis,tpmdev=tpm0''] else [])
     @ [''-boot'', ''reboot-timeout='' @ fmt_d defaultRebootTimeout_ms,
        ''-chardev'', ''socket,id=char0,path='' @ guestSocketPath r (q_name c) @ '',server,nowait'',
        ''-device'', ''virtio-serial'',
        ''-device'', ''virtserialport,chardev=char0,name=placemat'',
        ''-qmp'', ''unix:'' @ qmpSocketPath r (q_name c) @ '',server,nowait'',
        ''-object'', ''rng-random,id=rng0,filename=/dev/urandom'',
        ''-device'', ''virtio-rng-pci,rng=rng0'',
        ''-cpu'', ''host'']"

definition qemu_command :: "bool \<Rightarrow> qemu \<Rightarrow> Runtime \<Rightarrow> (rng, string list) act" where
  "qemu_command vhostNetSupported c r =
     bindA (tapsParams vhostNetSupported c (q_taps c)) (\<lambda>nets.
     retA (''qemu-system-x86_64'' # qemuParams c r @ nets @ concat (map volume_args (q_volumes c)) @ tailParams c r))"

subsection \<open>NUMA nodes\<close>

definition numaRanges :: "int \<Rightarrow> int \<Rightarrow> (int \<times> int) list" where
  "numaRanges cpus nodes = map (\<lambda>i. (go_div cpus nodes * int i, go_div cpus nodes * (int i + 1) - 1)) [0..<nat nodes]"

lemma numaParams_ranges:
  "numaParams cpus nodes = concat (map (\<lambda>(a, b). [''-numa'', ''node,cpus='' @ fmt_int a @ ''-'' @ fmt_int b]) (numaRanges cpus nodes))"
  by (simp add: numaParams_def numaRanges_def Let_def comp_def)

lemma go_div_pos: "0 \<le> a \<Longrightarrow> 0 < b \<Longrightarrow> go_div a b = a div b"
  by (cases "a = 0") (simp_all add: go_div_def)

lemma range_split: "0 \<le> a \<Longrightarrow> 0 < (q :: int) \<Longrightarrow> {0 ..< a + q} = {0 ..< a} \<union> {a .. a + q - 1}"
  by auto

lemma range_cover: "0 < (q :: int) \<Longrightarrow> (\<Union>i \<in> {0..<n}. {q * int i .. q * (int i + 1) - 1}) = {0 ..< q * int n}"
proof (induction n)
  case (Suc n)
  have "{0 ..< q * int (Suc n)} = {0 ..< q * int n} \<union> {q * int n .. q * (int n + 1) - 1}"
    using range_split [of "q * int n" q] Suc.prems by (simp add: distrib_left add.commute)
  with Suc show ?case by (simp add: atLeast0_lessThan_Suc Un_commute)
qed simp

text \<open>
  C19. With at least as many CPUs as NUMA nodes, the \<open>-numa\<close> arguments give every node the
  same number of CPUs, in consecutive ranges that do not overlap and together cover the
  CPUs from 0 up to the largest multiple of the number of nodes; when the number of nodes
  divides the number of CPUs, that is all of them.
\<close>

theorem numa_ranges_partition:
  assumes "0 < nodes" "nodes \<le> cpus"
  shows "(\<Union>(a, b) \<in> set (numaRanges cpus nodes). {a .. b}) = {0 ..< cpus div nodes * nodes} \<and>
    length (numaRanges cpus nodes) = nat nodes \<and>
    (\<forall>(a, b) \<in> set (numaRanges cpus nodes). b - a + 1 = cpus div nodes) \<and>
    (nodes dvd cpus \<longrightarrow> cpus div nodes * nodes = cpus) \<and>
    numaParams cpus nodes = concat (map (\<lambda>(a, b). [''-numa'', ''node,cpus='' @ fmt_int a @ ''-'' @ fmt_int b]) (numaRanges cpus nodes))"
proof -
  let ?q = "cpus div nodes"
  have q: "go_div cpus nodes = ?q" "0 < ?q" using assms by (simp_all add: go_div_pos pos_imp_zdiv_pos_iff)
  have "(\<Union>(a, b) \<in> set (numaRanges cpus nodes). {a .. b}) = (\<Union>i \<in> {0..<nat nodes}. {?q * int i .. ?q * (int i + 1) - 1})"
    by (auto simp: numaRanges_def q(1))
  also have "\<dots> = {0 ..< ?q * nodes}" using range_cover [OF q(2), of "nat nodes"] assms(1) by simp
  finally show ?thesis
    using assms(1) by (simp add: numaParams_ranges) (auto simp: numaRanges_def q(1) algebra_simps)
qed

theorem numa_ranges_partition_witness:
  "(\<Union>(a, b) \<in> set (numaRanges 8 2). {a .. b}) = {0 ..< 8}"
  using numa_ranges_partition [of 2 8] by simp

subsection \<open>Networks and volumes\<close>

lemma mac_generate_Ret: "mac_generate g = (Ret m, g') \<Longrightarrow> length m = 17 \<and> take 9 m = ''52:54:00:'' \<and> length g = Suc (length g')"
  by (cases "(3 :: nat, g)" rule: rand_read.cases) (auto simp: mac_generate_def hex_byte_def)

definition mac_ok :: "string \<Rightarrow> bool" where
  "mac_ok m \<longleftrightarrow> length m = 17 \<and> take 9 m = ''52:54:00:''"

lemma tapsParams_Ret:
  "tapsParams vh c ts g = (Ret p, g') \<Longrightarrow>
   \<exists>macs. length macs = length ts \<and> list_all mac_ok macs \<and> p = concat (map2 (tapDevice vh c) ts macs) \<and>
     length g = length ts + length g'"
proof (induction ts arbitrary: g p)
  case Nil
  then show ?case by (auto simp: retA_def)
next
  case (Cons t ts)
  then obtain m g1 ps where m: "mac_generate g = (Ret m, g1)" and ps: "tapsParams vh c ts g1 = (Ret ps, g')"
    and p: "p = tapDevice vh c t m @ ps"
    by (auto simp: bindA_eq_Ret tapParams_def retA_def)
  from Cons.IH [OF ps] obtain macs where "length macs = length ts" "list_all mac_ok macs"
    "ps = concat (map2 (tapDevice vh c) ts macs)" "length g1 = length ts + length g'" by blast
  moreover have "mac_ok m" "length g = Suc (length g1)" using mac_generate_Ret [OF m] by (simp_all add: mac_ok_def)
  ultimately show ?case using p by (intro exI [of _ "m # macs"]) simp
qed


definition exampleQemu :: qemu where
  "exampleQemu = newQemu ''node1'' [\<lparr>ti_tap = ''pmtap0'', ti_bridge = ''net0'', ti_mtu = 1460\<rparr>]
     [RawVolumeArgs ''/data/d.img'' ''none'' ''qcow2''] '''' \<lparr>smp_CPUs = 2, smp_Cores = 0, smp_Threads = 0, smp_Dies = 0,
       smp_Sockets = 0, smp_MaxCPUs = 0\<rparr> ''2G'' 0 1 False False \<lparr>sm_manufacturer = '''', sm_product = '''', sm_serial = ''''\<rparr>"

definition exampleRuntime :: Runtime where
  "exampleRuntime = \<lparr>r_Force = False, r_Graphic = False, r_RunDir = ''/tmp'', r_DataDir = ''/var/scratch'',
     r_ListenAddr = '''', r_ImageCacheDir = ''''\<rparr>"


end
