(* ===== verification/Files.thy ===== *)
theory Files
  imports Paths Wire
begin

text \<open>
  What the program uses of \<open>os\<close> and \<open>io\<close> on files. The operating system is a parameter: the
  record \<open>files\<close> holds the calls, as actions on the state \<open>'w\<close> of the host. Open files and
  streams are numbered handles. The locale \<open>filesystem\<close> is the documented behaviour the
  proofs rely on, over a view of the regular files by path (cleaned paths, no links) and of
  the open streams; every call may fail. The theory ends with an executable host that keeps
  the contract and can be told which calls fail.
\<close>

named_theorems fs_simps \<open>evaluation of the reference file system\<close>

subsection \<open>Errors and deferred calls\<close>

text \<open>Absence is reported by an error for which \<open>os.IsNotExist\<close> holds.\<close>

definition ErrNotExist :: err where "ErrNotExist = ErrNew ''file does not exist''"

definition IsNotExist :: "err \<Rightarrow> bool" where "IsNotExist e \<longleftrightarrow> e = ErrNotExist"

text \<open>\<open>defer c\<close> before \<open>m\<close>: the result of the deferred call is dropped, a panic in it is not.\<close>

definition deferA :: "('w, 'a) act \<Rightarrow> ('w, 'b) act \<Rightarrow> ('w, 'a) act" where
  "deferA m c w =
     (case m w of (r, w1) \<Rightarrow>
        (case c w1 of (Panic p, w2) \<Rightarrow> (Panic p, w2) | (_, w2) \<Rightarrow> (r, w2)))"

text \<open>\<open>_, err := f()\<close> where the code goes on with the error as a value.\<close>

definition tryA :: "('w, 'a) act \<Rightarrow> ('w, err + 'a) act" where
  "tryA m w =
     (case m w of (Ret x, w') \<Rightarrow> (Ret (Inr x), w') | (Fail e, w') \<Rightarrow> (Ret (Inl e), w') | (Panic p, w') \<Rightarrow> (Panic p, w'))"

text \<open>\<open>fmt.Errorf("msg: %w", err)\<close> around the error of a call.\<close>

definition wrapA :: "string \<Rightarrow> ('w, 'a) act \<Rightarrow> ('w, 'a) act" where
  "wrapA msg m w = (case m w of (r, w') \<Rightarrow> (wrapR msg r, w'))"

subsection \<open>The calls\<close>

text \<open>
  \<open>f_Stat\<close> returns \<open>IsDir\<close>; \<open>f_OpenWrite\<close> is \<open>os.OpenFile\<close> with \<open>O_WRONLY|O_CREATE\<close>;
  \<open>f_CreateTemp\<close> returns the handle and the name; \<open>f_Copy\<close> takes destination and source;
  \<open>f_Gunzip\<close> and \<open>f_Bunzip2\<close> put a decompressing reader on a stream.
\<close>

record 'w files =
  f_Stat :: "string \<Rightarrow> ('w, bool) act"
  f_MkdirAll :: "string \<Rightarrow> ('w, unit) act"
  f_Mkdir :: "string \<Rightarrow> ('w, unit) act"
  f_Abs :: "string \<Rightarrow> ('w, string) act"
  f_Open :: "string \<Rightarrow> ('w, nat) act"
  f_Create :: "string \<Rightarrow> ('w, nat) act"
  f_OpenWrite :: "string \<Rightarrow> ('w, nat) act"
  f_CreateTemp :: "string \<Rightarrow> string \<Rightarrow> ('w, nat \<times> string) act"
  f_Copy :: "nat \<Rightarrow> nat \<Rightarrow> ('w, unit) act"
  f_Gunzip :: "nat \<Rightarrow> ('w, nat) act"
  f_Bunzip2 :: "nat \<Rightarrow> ('w, nat) act"
  f_Sync :: "nat \<Rightarrow> ('w, unit) act"
  f_Close :: "nat \<Rightarrow> ('w, unit) act"
  f_Remove :: "string \<Rightarrow> ('w, unit) act"
  f_RemoveAll :: "string \<Rightarrow> ('w, unit) act"
  f_Rename :: "string \<Rightarrow> string \<Rightarrow> ('w, unit) act"

lemma deferA_eq: "m w = (r, w1) \<Longrightarrow> c w1 = (r', w2) \<Longrightarrow> (\<And>p. r' \<noteq> Panic p) \<Longrightarrow> deferA m c w = (r, w2)"
  by (auto simp: deferA_def split: res.splits)

lemma tryA_simps:
  "m w = (Ret x, w') \<Longrightarrow> tryA m w = (Ret (Inr x), w')"
  "m w = (Fail e, w') \<Longrightarrow> tryA m w = (Ret (Inl e), w')"
  by (simp_all add: tryA_def)

lemma tryA_eq_Ret:
  "tryA m w = (Ret v, w') \<longleftrightarrow> (\<exists>x. m w = (Ret x, w') \<and> v = Inr x) \<or> (\<exists>e. m w = (Fail e, w') \<and> v = Inl e)"
  by (auto simp: tryA_def split: prod.splits res.splits)

lemma wrapA_eq_Ret [simp]: "wrapA msg m w = (Ret x, w') \<longleftrightarrow> m w = (Ret x, w')"
  by (auto simp: wrapA_def split: prod.splits)

lemma keeps_wrapA [keep_intros]: "keeps I m \<Longrightarrow> keeps I (wrapA msg m)"
  by (auto simp: keeps_def wrapA_def split: prod.splits)

lemma keeps_tryA [keep_intros]: "keeps I m \<Longrightarrow> keeps I (tryA m)"
  by (fastforce simp: keeps_def tryA_def split: prod.splits res.splits)

lemma keeps_ignoreA [keep_intros]: "keeps I m \<Longrightarrow> keeps I (ignoreA m)"
  by (fastforce simp: keeps_def ignoreA_def split: prod.splits res.splits)

lemma keeps_deferA [keep_intros]: "keeps I m \<Longrightarrow> keeps I c \<Longrightarrow> keeps I (deferA m c)"
  unfolding keeps_def deferA_def by (fastforce split: prod.splits res.splits)

lemma keeps_cases [keep_intros]:
  "(\<And>x. keeps I (f x)) \<Longrightarrow> (\<And>y. keeps I (g y)) \<Longrightarrow> keeps I (case v of Inl x \<Rightarrow> f x | Inr y \<Rightarrow> g y)"
  "keeps I m \<Longrightarrow> (\<And>z. keeps I (h z)) \<Longrightarrow> keeps I (case u of None \<Rightarrow> m | Some z \<Rightarrow> h z)"
  "(\<And>a b. keeps I (k a b)) \<Longrightarrow> keeps I (case p of (a, b) \<Rightarrow> k a b)"
  by (auto split: sum.splits option.splits prod.splits)

subsection \<open>The contract of the file system\<close>

record fview =
  fv_file :: "string \<rightharpoonup> bytes"
  fv_src :: "nat \<rightharpoonup> bytes"
  fv_dst :: "nat \<rightharpoonup> string"

text \<open>Calls that leave the files alone, whatever they return.\<close>

definition same_files :: "('w \<Rightarrow> fview) \<Rightarrow> ('w, 'a) act \<Rightarrow> bool" where
  "same_files view m \<longleftrightarrow> (\<forall>w r w'. m w = (r, w') \<longrightarrow> fv_file (view w') = fv_file (view w))"

text \<open>Calls that change at most the file at one path.\<close>

definition only_file :: "('w \<Rightarrow> fview) \<Rightarrow> string \<Rightarrow> ('w, 'a) act \<Rightarrow> bool" where
  "only_file view p m \<longleftrightarrow> (\<forall>w r w' q. m w = (r, w') \<longrightarrow> q \<noteq> p \<longrightarrow> fv_file (view w') q = fv_file (view w) q)"

locale filesystem =
  fixes F :: "'w files" and view :: "'w \<Rightarrow> fview"
  assumes stat_view: "f_Stat F p w = (d, w') \<Longrightarrow> view w' = view w"
    and stat_absent: "f_Stat F p w = (Fail ErrNotExist, w') \<Longrightarrow> fv_file (view w) p = None"
    and mkdir_view: "f_MkdirAll F p w = (r, w') \<Longrightarrow> view w' = view w"
      "f_Mkdir F p w = (r, w') \<Longrightarrow> view w' = view w"
    and abs_view: "f_Abs F p w = (a, w') \<Longrightarrow> view w' = view w"
    and open_law: "f_Open F p w = (Ret h, w') \<Longrightarrow>
      \<exists>c. fv_file (view w) p = Some c \<and> view w' = (view w)\<lparr>fv_src := (fv_src (view w))(h \<mapsto> c)\<rparr>"
    and open_files: "same_files view (f_Open F p)"
    and create_law: "f_Create F p w = (Ret h, w') \<Longrightarrow>
      view w' = (view w)\<lparr>fv_file := (fv_file (view w))(p \<mapsto> []), fv_dst := (fv_dst (view w))(h \<mapsto> p)\<rparr>"
    and create_files: "only_file view p (f_Create F p)"
    and openwrite_law: "f_OpenWrite F p w = (Ret h, w') \<Longrightarrow>
      view w' = (view w)\<lparr>fv_file := (fv_file (view w))(p \<mapsto> (case fv_file (view w) p of None \<Rightarrow> [] | Some c \<Rightarrow> c)),
        fv_dst := (fv_dst (view w))(h \<mapsto> p)\<rparr>"
    and openwrite_files: "only_file view p (f_OpenWrite F p)"
    and createtemp_law: "f_CreateTemp F dir pat w = (Ret (h, p), w') \<Longrightarrow>
      fv_file (view w) p = None \<and> (\<exists>x. last (split_slash p) = pat @ x) \<and>
      view w' = (view w)\<lparr>fv_file := (fv_file (view w))(p \<mapsto> []), fv_dst := (fv_dst (view w))(h \<mapsto> p)\<rparr>"
    and createtemp_fail: "f_CreateTemp F dir pat w = (Fail e, w') \<Longrightarrow> fv_file (view w') = fv_file (view w)"
      "f_CreateTemp F dir pat w = (Panic x, w') \<Longrightarrow> fv_file (view w') = fv_file (view w)"
    and copy_law: "f_Copy F h s w = (Ret (), w') \<Longrightarrow> fv_dst (view w) h = Some p \<Longrightarrow> fv_src (view w) s = Some c \<Longrightarrow>
      fv_file (view w) p = Some old \<Longrightarrow> fv_file (view w') = (fv_file (view w))(p \<mapsto> c @ drop (length c) old)"
    and copy_files: "f_Copy F h s w = (r, w') \<Longrightarrow> fv_dst (view w) h = Some p \<Longrightarrow> q \<noteq> p \<Longrightarrow>
      fv_file (view w') q = fv_file (view w) q"
    and unzip_files: "same_files view (f_Gunzip F h)" "same_files view (f_Bunzip2 F h)"
    and unzip_law: "f_Gunzip F h w = (Ret h', w') \<Longrightarrow> fv_src (view w') h' \<noteq> None \<and> fv_dst (view w') = fv_dst (view w)"
      "f_Bunzip2 F h w = (Ret h', w') \<Longrightarrow> fv_src (view w') h' \<noteq> None \<and> fv_dst (view w') = fv_dst (view w)"
    and close_files: "same_files view (f_Sync F h)" "same_files view (f_Close F h)"
    and close_no_panic: "f_Close F h w \<noteq> (Panic x, w')"
    and remove_law: "f_Remove F p w = (Ret (), w') \<Longrightarrow> fv_file (view w') = (fv_file (view w))(p := None)"
    and remove_fail: "f_Remove F p w = (r, w') \<Longrightarrow> r \<noteq> Ret () \<Longrightarrow> fv_file (view w') = fv_file (view w)"
    and remove_no_panic: "f_Remove F p w \<noteq> (Panic x, w')"
    and rename_law: "f_Rename F p q w = (Ret (), w') \<Longrightarrow>
      \<exists>c. fv_file (view w) p = Some c \<and> fv_file (view w') = (fv_file (view w))(p := None, q \<mapsto> c)"
    and rename_fail: "f_Rename F p q w = (r, w') \<Longrightarrow> r \<noteq> Ret () \<Longrightarrow> fv_file (view w') = fv_file (view w)"
begin

lemma remove_only: "only_file view p (f_Remove F p)"
  unfolding only_file_def using remove_law remove_fail by (metis (no_types, lifting) fun_upd_other)

lemma close_ok: "\<exists>r w'. f_Close F h w = (r, w') \<and> (\<forall>x. r \<noteq> Panic x) \<and> fv_file (view w') = fv_file (view w)"
  using close_no_panic [of h w] close_files(2) [of h] by (cases "f_Close F h w") (auto simp: same_files_def)

text \<open>A deferred \<open>Close\<close> changes neither the result nor the files.\<close>

lemma defer_close:
  assumes "deferA m (f_Close F h) w = (r, w')"
  shows "\<exists>w1. m w = (r, w1) \<and> fv_file (view w') = fv_file (view w1)"
proof -
  obtain r1 w1 where 1: "m w = (r1, w1)" by force
  obtain r2 w2 where 2: "f_Close F h w1 = (r2, w2)" "\<And>x. r2 \<noteq> Panic x" "fv_file (view w2) = fv_file (view w1)"
    using close_ok by blast
  from deferA_eq [of m w r1 w1 "f_Close F h" r2 w2, OF 1 2(1,2)] assms 1 2(3) show ?thesis by auto
qed

end

subsection \<open>An executable host\<close>

text \<open>
  Files in a map, handles from a counter, and a plan of faults: the head of the plan says
  whether the next call fails; past its end every call does its work.
\<close>

record refFs =
  rf_file :: "string \<rightharpoonup> bytes"
  rf_dirs :: "string list"
  rf_src :: "nat \<rightharpoonup> bytes"
  rf_dst :: "nat \<rightharpoonup> string"
  rf_next :: nat
  rf_faults :: "err option list"

definition faulty :: "('z refFs_scheme, 'a) act \<Rightarrow> ('z refFs_scheme, 'a) act" where
  "faulty m w =
     (case rf_faults w of
        [] \<Rightarrow> m w
      | None # fs \<Rightarrow> m (w\<lparr>rf_faults := fs\<rparr>)
      | Some e # fs \<Rightarrow> (Fail (Wrapped ''host'' e), w\<lparr>rf_faults := fs\<rparr>))"

definition ref_open :: "string \<Rightarrow> ('z refFs_scheme, nat) act" where
  "ref_open p w =
     (case rf_file w p of
        None \<Rightarrow> (Fail ErrNotExist, w)
      | Some c \<Rightarrow> (Ret (rf_next w), w\<lparr>rf_src := (rf_src w)(rf_next w \<mapsto> c), rf_next := Suc (rf_next w)\<rparr>))"

definition ref_writer :: "string \<Rightarrow> bytes \<Rightarrow> ('z refFs_scheme, nat) act" where
  "ref_writer p c w =
     (Ret (rf_next w),
      w\<lparr>rf_file := (rf_file w)(p \<mapsto> c), rf_dst := (rf_dst w)(rf_next w \<mapsto> p), rf_next := Suc (rf_next w)\<rparr>)"

definition ref_createtemp :: "string \<Rightarrow> string \<Rightarrow> ('z refFs_scheme, nat \<times> string) act" where
  "ref_createtemp dir pat w =
     (let p = dir @ CHR ''/'' # pat @ fmt_d (rf_next w)
      in if CHR ''/'' \<in> set pat \<or> rf_file w p \<noteq> None then (Fail (ErrNew ''createtemp''), w)
         else bindA (ref_writer p []) (\<lambda>h. retA (h, p)) w)"

definition ref_copy :: "nat \<Rightarrow> nat \<Rightarrow> ('z refFs_scheme, unit) act" where
  "ref_copy h s w =
     (case (rf_dst w h, rf_src w s) of
        (Some p, Some c) \<Rightarrow>
          (Ret (), w\<lparr>rf_file := (rf_file w)(p \<mapsto> c @ drop (length c) (case rf_file w p of None \<Rightarrow> [] | Some old \<Rightarrow> old))\<rparr>)
      | _ \<Rightarrow> (Fail (ErrNew ''file already closed''), w))"

text \<open>Decompression is that of a stream of stored blocks: the data come out as they are.\<close>

definition ref_unzip :: "nat \<Rightarrow> ('z refFs_scheme, nat) act" where
  "ref_unzip h w =
     (case rf_src w h of
        None \<Rightarrow> (Fail (ErrNew ''file already closed''), w)
      | Some c \<Rightarrow> (Ret (rf_next w), w\<lparr>rf_src := (rf_src w)(rf_next w \<mapsto> c), rf_next := Suc (rf_next w)\<rparr>))"

definition refFiles :: "'z refFs_scheme files" where
  "refFiles =
     \<lparr>f_Stat = (\<lambda>p. faulty (\<lambda>w. if rf_file w p \<noteq> None then (Ret False, w)
        else if p \<in> set (rf_dirs w) then (Ret True, w) else (Fail ErrNotExist, w))),
      f_MkdirAll = (\<lambda>p. faulty (modifyA (\<lambda>w. w\<lparr>rf_dirs := p # rf_dirs w\<rparr>))),
      f_Mkdir = (\<lambda>p. faulty (\<lambda>w. if p \<in> set (rf_dirs w) then (Fail (ErrNew ''file exists''), w)
        else (Ret (), w\<lparr>rf_dirs := p # rf_dirs w\<rparr>))),
      f_Abs = (\<lambda>p. faulty (retA (if p \<noteq> [] \<and> hd p = CHR ''/'' then filepath_Clean p else filepath_Join [''/'', p]))),
      f_Open = (\<lambda>p. faulty (ref_open p)),
      f_Create = (\<lambda>p. faulty (ref_writer p [])),
      f_OpenWrite = (\<lambda>p. faulty (\<lambda>w. ref_writer p (case rf_file w p of None \<Rightarrow> [] | Some c \<Rightarrow> c) w)),
      f_CreateTemp = (\<lambda>dir pat. faulty (ref_createtemp dir pat)),
      f_Copy = (\<lambda>h s. faulty (ref_copy h s)),
      f_Gunzip = (\<lambda>h. faulty (ref_unzip h)),
      f_Bunzip2 = ref_unzip,
      f_Sync = (\<lambda>h. faulty (retA ())),
      f_Close = (\<lambda>h. faulty (retA ())),
      f_Remove = (\<lambda>p. faulty (\<lambda>w. if rf_file w p = None then (Fail ErrNotExist, w)
        else (Ret (), w\<lparr>rf_file := (rf_file w)(p := None)\<rparr>))),
      f_RemoveAll = (\<lambda>p. faulty (modifyA (\<lambda>w. w\<lparr>rf_dirs := removeAll p (rf_dirs w)\<rparr>))),
      f_Rename = (\<lambda>p q. faulty (\<lambda>w. case rf_file w p of None \<Rightarrow> (Fail ErrNotExist, w)
        | Some c \<Rightarrow> (Ret (), w\<lparr>rf_file := (rf_file w)(p := None, q \<mapsto> c)\<rparr>)))\<rparr>"

lemma refFiles_sel [fs_simps]:
  "f_Stat refFiles = (\<lambda>p. faulty (\<lambda>w. if rf_file w p \<noteq> None then (Ret False, w) else if p \<in> set (rf_dirs w) then (Ret True, w) else (Fail ErrNotExist, w)))"
  "f_MkdirAll refFiles = (\<lambda>p. faulty (modifyA (\<lambda>w. w\<lparr>rf_dirs := p # rf_dirs w\<rparr>)))"
  "f_Mkdir refFiles = (\<lambda>p. faulty (\<lambda>w. if p \<in> set (rf_dirs w) then (Fail (ErrNew ''file exists''), w) else (Ret (), w\<lparr>rf_dirs := p # rf_dirs w\<rparr>)))"
  "f_Abs refFiles = (\<lambda>p. faulty (retA (if p \<noteq> [] \<and> hd p = CHR ''/'' then filepath_Clean p else filepath_Join [''/'', p])))"
  "f_Open refFiles = (\<lambda>p. faulty (ref_open p))"
  "f_Create refFiles = (\<lambda>p. faulty (ref_writer p []))"
  "f_OpenWrite refFiles = (\<lambda>p. faulty (\<lambda>w. ref_writer p (case rf_file w p of None \<Rightarrow> [] | Some c \<Rightarrow> c) w))"
  "f_CreateTemp refFiles = (\<lambda>dir pat. faulty (ref_createtemp dir pat))"
  "f_Copy refFiles = (\<lambda>h s. faulty (ref_copy h s))"
  "f_Gunzip refFiles = (\<lambda>h. faulty (ref_unzip h))"
  "f_Bunzip2 refFiles = ref_unzip"
  "f_Sync refFiles = (\<lambda>h. faulty (retA ()))"
  "f_Close refFiles = (\<lambda>h. faulty (retA ()))"
  "f_Remove refFiles = (\<lambda>p. faulty (\<lambda>w. if rf_file w p = None then (Fail ErrNotExist, w) else (Ret (), w\<lparr>rf_file := (rf_file w)(p := None)\<rparr>)))"
  "f_RemoveAll refFiles = (\<lambda>p. faulty (modifyA (\<lambda>w. w\<lparr>rf_dirs := removeAll p (rf_dirs w)\<rparr>)))"
  "f_Rename refFiles = (\<lambda>p q. faulty (\<lambda>w. case rf_file w p of None \<Rightarrow> (Fail ErrNotExist, w) | Some c \<Rightarrow> (Ret (), w\<lparr>rf_file := (rf_file w)(p := None, q \<mapsto> c)\<rparr>)))"
  by (simp_all add: refFiles_def)

definition ref_view :: "'z refFs_scheme \<Rightarrow> fview" where
  "ref_view w = \<lparr>fv_file = rf_file w, fv_src = rf_src w, fv_dst = rf_dst w\<rparr>"

lemma ref_view_sel [simp]:
  "fv_file (ref_view w) = rf_file w" "fv_src (ref_view w) = rf_src w" "fv_dst (ref_view w) = rf_dst w"
  by (simp_all add: ref_view_def)

lemma ref_view_faults [simp]: "ref_view (w\<lparr>rf_faults := fs\<rparr>) = ref_view w"
  by (simp add: ref_view_def)

lemma faulty_cases:
  assumes "faulty m w = (r, w')"
  obtains e where "r = Fail (Wrapped ''host'' e)" "ref_view w' = ref_view w"
  | w0 where "ref_view w0 = ref_view w" "m w0 = (r, w')"
proof (cases "rf_faults w")
  case Nil
  with assms that(2) [of w] show ?thesis by (simp add: faulty_def)
next
  case (Cons f fs)
  with assms that(1) that(2) [of "w\<lparr>rf_faults := fs\<rparr>"] show ?thesis
    by (cases f) (auto simp: faulty_def)
qed

lemma faulty_none [fs_simps]: "rf_faults w = [] \<Longrightarrow> faulty m w = m w"
  by (simp add: faulty_def)

lemma fmt_d_no_slash: "CHR ''/'' \<notin> set (fmt_d n)"
proof (induction n rule: fmt_d.induct)
  case (1 n)
  have "char_of (48 + k) \<noteq> CHR ''/''" if "k < 10" for k :: nat
  proof
    assume "char_of (48 + k) = CHR ''/''"
    then have "of_char (char_of (48 + k) :: char) = (of_char CHR ''/'' :: nat)" by simp
    with that show False by simp
  qed
  with 1 show ?case by (subst fmt_d.simps) (auto simp: eq_commute [of "CHR ''/''"])
qed

lemmas ref_calls [fs_simps] = ref_open_def ref_writer_def ref_createtemp_def ref_copy_def ref_unzip_def faulty_def

interpretation rfs: filesystem refFiles ref_view
  by unfold_locales
    (auto simp: refFiles_def same_files_def only_file_def ErrNotExist_def act_defs ref_view_def fun_eq_iff Let_def
      bindA_def ref_open_def ref_writer_def ref_createtemp_def ref_copy_def ref_unzip_def
      split_slash_append split_slash_plain fmt_d_no_slash
      elim!: faulty_cases split: if_splits option.splits)

end
