(* ===== verification/Cache.thy ===== *)
theory Cache
  imports Files Hash
begin

text \<open>
  The image cache and the decompressors, \<open>v2/pkg/util/cache.go\<close> and \<open>v2/pkg/util/compress.go\<close>.
  A cache is its directory; the entry of a key is the file named by the hexadecimal SHA-256
  of the key. HTTP is a parameter: a request returns a response whose body is a stream of
  the host. Logging is left out.
\<close>

subsection \<open>Decompressors\<close>

datatype Decompressor = Bzip2Decompressor | GzipDecompressor

fun Decompress :: "'w files \<Rightarrow> Decompressor \<Rightarrow> nat \<Rightarrow> ('w, nat) act" where
  "Decompress F Bzip2Decompressor r = f_Bunzip2 F r"
| "Decompress F GzipDecompressor r = f_Gunzip F r"

definition NewDecompressor :: "string \<Rightarrow> Decompressor option res" where
  "NewDecompressor format =
     (if format = ''bzip2'' then Ret (Some Bzip2Decompressor)
      else if format = ''gzip'' then Ret (Some GzipDecompressor)
      else if format = '''' then Ret None
      else Fail (ErrNew (''unsupported compression format: '' @ format)))"

definition decompressed :: "'w files \<Rightarrow> Decompressor option \<Rightarrow> nat \<Rightarrow> ('w, nat) act" where
  "decompressed F decomp src = (case decomp of None \<Rightarrow> retA src | Some d \<Rightarrow> Decompress F d src)"

definition WriteToFile :: "'w files \<Rightarrow> string \<Rightarrow> string \<Rightarrow> Decompressor option \<Rightarrow> ('w, unit) act" where
  "WriteToFile F srcPath destPath decomp =
     bindA (f_Open F srcPath) (\<lambda>f.
     deferA
       (bindA (f_OpenWrite F destPath) (\<lambda>destFile.
        deferA (bindA (decompressed F decomp f) (\<lambda>src. f_Copy F destFile src))
          (f_Close F destFile)))
       (f_Close F f))"

subsection \<open>Cache\<close>

definition escapeKey :: "string \<Rightarrow> string" where
  "escapeKey key = hex_string (sha256 (bytes_of_string key))"

definition cache_Path :: "string \<Rightarrow> string \<Rightarrow> string" where
  "cache_Path dir key = filepath_Join [dir, escapeKey key]"

text \<open>The deferred function of \<open>Put\<close> closes the file unless it was closed before the rename.\<close>

definition closeOnError :: "'w files \<Rightarrow> nat \<Rightarrow> ('w, 'a) act \<Rightarrow> ('w, 'a) act" where
  "closeOnError F f m w =
     (case m w of
        (Ret x, w') \<Rightarrow> (Ret x, w')
      | (r, w') \<Rightarrow> deferA (\<lambda>v. (r, v)) (f_Close F f) w')"

definition putBody :: "'w files \<Rightarrow> string \<Rightarrow> nat \<Rightarrow> nat \<Rightarrow> string \<Rightarrow> ('w, unit) act" where
  "putBody F path data f dstName =
     bindA (closeOnError F f (bindA (f_Copy F f data) (\<lambda>_. f_Sync F f))) (\<lambda>_.
     bindA (tryA (f_Close F f)) (\<lambda>_.
     f_Rename F dstName path))"

definition cache_Put :: "'w files \<Rightarrow> string \<Rightarrow> string \<Rightarrow> nat \<Rightarrow> ('w, unit) act" where
  "cache_Put F dir key data =
     bindA (f_CreateTemp F dir ''.tmp'') (\<lambda>(f, dstName).
     deferA (putBody F (cache_Path dir key) data f dstName) (f_Remove F dstName))"

definition cache_Get :: "'w files \<Rightarrow> string \<Rightarrow> string \<Rightarrow> ('w, nat) act" where
  "cache_Get F dir key = f_Open F (cache_Path dir key)"

definition cache_Contains :: "'w files \<Rightarrow> string \<Rightarrow> string \<Rightarrow> ('w, bool) act" where
  "cache_Contains F dir key =
     bindA (tryA (f_Stat F (cache_Path dir key))) (\<lambda>r.
     retA (case r of Inr _ \<Rightarrow> True | Inl e \<Rightarrow> \<not> IsNotExist e))"

subsection \<open>Downloads\<close>

text \<open>\<open>strconv.Atoi\<close>\<close>

definition digits_value :: "string \<Rightarrow> nat" where
  "digits_value = foldl (\<lambda>n c. 10 * n + (of_char c - 48)) 0"

definition go_Atoi :: "string \<Rightarrow> int res" where
  "go_Atoi s =
     (let ds = (if s \<noteq> [] \<and> (hd s = CHR ''+'' \<or> hd s = CHR ''-'') then List.tl s else s);
          v = (if s \<noteq> [] \<and> hd s = CHR ''-'' then - int (digits_value ds) else int (digits_value ds))
      in if ds = [] \<or> \<not> list_all (\<lambda>c. 48 \<le> (of_char c :: nat) \<and> of_char c \<le> (57 :: nat)) ds
         then Fail (ErrNew ''invalid syntax'')
         else if v < - (2 ^ 63) \<or> 2 ^ 63 \<le> v then Fail (ErrNew ''value out of range'')
         else Ret v)"

record httpResponse =
  hr_StatusCode :: nat
  hr_Status :: string
  hr_ContentLength :: string
  hr_Body :: nat

record 'w http =
  h_ParseURL :: "string \<Rightarrow> string res"
  h_NewRequest :: "string \<Rightarrow> unit res"
  h_Do :: "string \<Rightarrow> ('w, httpResponse) act"

definition storeResponse ::
  "'w files \<Rightarrow> string \<Rightarrow> Decompressor option \<Rightarrow> string \<Rightarrow> httpResponse \<Rightarrow> ('w, unit) act" where
  "storeResponse F urlString decomp dir res =
     (if hr_StatusCode res \<noteq> 200
      then failA (ErrNew (''failed to download: '' @ hr_Status res @ '': '' @ urlString))
      else
        bindA (liftA (go_Atoi (hr_ContentLength res))) (\<lambda>_.
        bindA (decompressed F decomp (hr_Body res)) (\<lambda>src.
        cache_Put F dir urlString src)))"

definition DownloadData ::
  "'w files \<Rightarrow> 'w http \<Rightarrow> string \<Rightarrow> Decompressor option \<Rightarrow> string \<Rightarrow> ('w, unit) act" where
  "DownloadData F H urlString decomp dir =
     bindA (cache_Contains F dir urlString) (\<lambda>contained.
     if contained then retA ()
     else
       bindA (liftA (h_NewRequest H urlString)) (\<lambda>_.
       bindA (h_Do H urlString) (\<lambda>res.
       deferA (storeResponse F urlString decomp dir res) (f_Close F (hr_Body res)))))"

subsection \<open>Names of entries\<close>

definition temp_name :: "string \<Rightarrow> bool" where
  "temp_name q \<longleftrightarrow> take 4 (last (split_slash q)) = ''.tmp''"

lemma escapeKey_plain: "plain_comp (escapeKey key)" "take 4 (escapeKey key) \<noteq> ''.tmp''"
proof -
  have len: "length (escapeKey key) = 64" by (simp add: escapeKey_def)
  have h: "set (escapeKey key) \<subseteq> set ''0123456789abcdef''"
    unfolding escapeKey_def by (rule hex_string_chars)
  show "plain_comp (escapeKey key)" using len h by (auto simp: plain_comp_def)
  have "escapeKey key ! 0 \<noteq> CHR ''.''" 
  proof -
    have "escapeKey key ! 0 \<in> set (escapeKey key)" using len by (intro nth_mem) simp
    with h show ?thesis by auto
  qed
  then show "take 4 (escapeKey key) \<noteq> ''.tmp''" using len by (metis nth_Cons_0 nth_take zero_less_numeral)
qed

lemma cache_Path_not_temp: "\<not> temp_name (cache_Path dir key)"
  by (simp add: temp_name_def cache_Path_def Join_last escapeKey_plain)

subsection \<open>Puts are atomic\<close>

text \<open>The outcome of storing a stream under a path by way of a temporary file.\<close>

definition stored :: "('w \<Rightarrow> fview) \<Rightarrow> string \<Rightarrow> bytes \<Rightarrow> 'w \<Rightarrow> unit res \<times> 'w \<Rightarrow> bool" where
  "stored view path c w rw \<longleftrightarrow>
     (if fst rw = Ret () then fv_file (view (snd rw)) = (fv_file (view w))(path \<mapsto> c)
      else \<forall>q. \<not> temp_name q \<longrightarrow> fv_file (view (snd rw)) q = fv_file (view w) q)"

context filesystem
begin

lemma defer_remove:
  assumes "deferA m (f_Remove F p) w = (r, w')"
  shows "\<exists>w1. m w = (r, w1) \<and> (\<forall>q. q \<noteq> p \<longrightarrow> fv_file (view w') q = fv_file (view w1) q)
    \<and> (fv_file (view w1) p = None \<longrightarrow> fv_file (view w') = fv_file (view w1))"
proof -
  obtain r1 w1 where 1: "m w = (r1, w1)" by force
  obtain r2 w2 where 2: "f_Remove F p w1 = (r2, w2)" by force
  have np: "\<And>x. r2 \<noteq> Panic x" using remove_no_panic 2 by blast
  have eq: "r = r1" "w' = w2" using deferA_eq [of m w r1 w1 "f_Remove F p" r2 w2, OF 1 2 np] assms by auto
  have "fv_file (view w2) = (fv_file (view w1))(p := None) \<or> fv_file (view w2) = fv_file (view w1)"
    using remove_law remove_fail 2 by blast
  then show ?thesis using 1 eq by (auto simp: fun_upd_idem)
qed

lemma closeOnError_cases:
  assumes "closeOnError F h m w = (r, w')"
  shows "\<exists>w1. m w = (r, w1) \<and> fv_file (view w') = fv_file (view w1) \<and> (\<forall>x. r = Ret x \<longrightarrow> w' = w1)"
proof -
  obtain r1 w1 where 1: "m w = (r1, w1)" by force
  show ?thesis
  proof (cases r1)
    case (Ret x)
    with assms 1 show ?thesis by (auto simp: closeOnError_def)
  next
    case (Fail e)
    with assms 1 have "deferA (\<lambda>v. (r1, v)) (f_Close F h) w1 = (r, w')" by (simp add: closeOnError_def)
    from defer_close [OF this] 1 Fail show ?thesis by auto
  next
    case (Panic e)
    with assms 1 have "deferA (\<lambda>v. (r1, v)) (f_Close F h) w1 = (r, w')" by (simp add: closeOnError_def)
    from defer_close [OF this] 1 Panic show ?thesis by auto
  qed
qed

text \<open>Writing the stream to the open temporary file.\<close>

lemma copy_sync:
  assumes "bindA (f_Copy F h s) (\<lambda>_. f_Sync F h) w = (r, w')" "fv_dst (view w) h = Some p"
    "fv_src (view w) s = Some c" "fv_file (view w) p = Some []"
  shows "(\<forall>q. q \<noteq> p \<longrightarrow> fv_file (view w') q = fv_file (view w) q) \<and> (r = Ret () \<longrightarrow> fv_file (view w') p = Some c)"
proof -
  obtain r1 w1 where 1: "f_Copy F h s w = (r1, w1)" by force
  have oth: "\<forall>q. q \<noteq> p \<longrightarrow> fv_file (view w1) q = fv_file (view w) q" using copy_files [OF 1 assms(2)] by blast
  show ?thesis
  proof (cases r1)
    case (Ret u)
    then have s: "f_Sync F h w1 = (r, w')" using assms(1) 1 by (simp add: bindA_def)
    have "fv_file (view w1) p = Some c" using copy_law [OF _ assms(2-4), of w1] 1 Ret by simp
    with s oth close_files(1) [of h] show ?thesis by (auto simp: same_files_def)
  qed (use assms(1) 1 oth in \<open>auto simp: bindA_def\<close>)
qed

text \<open>What happens between creating the temporary file and removing it.\<close>

lemma putBody_files:
  assumes "putBody F path s h p w = (r, w')" "fv_dst (view w) h = Some p" "fv_src (view w) s = Some c"
    "fv_file (view w) p = Some []" "path \<noteq> p"
  shows "if r = Ret () then fv_file (view w') = (fv_file (view w))(p := None, path \<mapsto> c)
    else (\<forall>q. q \<noteq> p \<longrightarrow> fv_file (view w') q = fv_file (view w) q)"
  using assms(1) unfolding putBody_def
proof (cases rule: bindA_cases)
  case (ok u w3)
  obtain w4 where w4: "bindA (f_Copy F h s) (\<lambda>_. f_Sync F h) w = (Ret u, w4)" "fv_file (view w3) = fv_file (view w4)"
    using closeOnError_cases [OF ok(1)] by blast
  have cs: "\<forall>q. q \<noteq> p \<longrightarrow> fv_file (view w4) q = fv_file (view w) q" "fv_file (view w4) p = Some c"
    using copy_sync [OF w4(1) assms(2-4)] by auto
  obtain rc w5 where w5: "f_Close F h w3 = (rc, w5)" "\<forall>x. rc \<noteq> Panic x" "fv_file (view w5) = fv_file (view w3)"
    using close_ok by blast
  then obtain v where "tryA (f_Close F h) w3 = (Ret v, w5)" by (cases rc) (auto simp: tryA_def)
  then have rn: "f_Rename F p path w5 = (r, w')" using ok(2) by (simp add: bindA_def)
  show ?thesis
  proof (cases "r = Ret ()")
    case True
    with rn have "fv_file (view w') = (fv_file (view w5))(p := None, path \<mapsto> c)"
      using rename_law [of p path w5 w'] cs(2) w4(2) w5(3) by auto
    moreover have "(fv_file (view w5))(p := None) = (fv_file (view w))(p := None)"
      using cs(1) w4(2) w5(3) by (simp add: fun_eq_iff)
    ultimately show ?thesis using True by simp
  next
    case False
    with rename_fail [OF rn] cs(1) w4(2) w5(3) show ?thesis by simp
  qed
next
  case (stop r0)
  obtain w4 where "bindA (f_Copy F h s) (\<lambda>_. f_Sync F h) w = (r0, w4)" "fv_file (view w') = fv_file (view w4)"
    using closeOnError_cases [OF stop(1)] by blast
  with copy_sync [OF this(1) assms(2-4)] stop(3) show ?thesis by simp
qed

lemma put_stored:
  assumes "fv_src (view w) s = Some c"
  shows "stored view (cache_Path dir key) c w (cache_Put F dir key s w)"
proof -
  let ?path = "cache_Path dir key"
  obtain r w' where put: "cache_Put F dir key s w = (r, w')" by force
  then have "bindA (f_CreateTemp F dir ''.tmp'') (\<lambda>(h, p). deferA (putBody F ?path s h p) (f_Remove F p)) w = (r, w')"
    by (simp add: cache_Put_def)
  then show ?thesis
  proof (cases rule: bindA_cases)
    case (ok hp w1)
    obtain h p where hp: "hp = (h, p)" by (cases hp)
    note ct = createtemp_law [OF ok(1) [unfolded hp]]
    have tmp: "temp_name p" using ct by (auto simp: temp_name_def)
    then have ne: "?path \<noteq> p" using cache_Path_not_temp [of dir key] by auto
    have "deferA (putBody F ?path s h p) (f_Remove F p) w1 = (r, w')" using ok(2) hp by simp
    then obtain w2 where b: "putBody F ?path s h p w1 = (r, w2)"
      and rm: "\<forall>q. q \<noteq> p \<longrightarrow> fv_file (view w') q = fv_file (view w2) q"
      and rm': "fv_file (view w2) p = None \<longrightarrow> fv_file (view w') = fv_file (view w2)"
      using defer_remove [of "putBody F ?path s h p" p w1 r w'] by auto
    have v1: "fv_dst (view w1) h = Some p" "fv_src (view w1) s = Some c" "fv_file (view w1) = (fv_file (view w))(p \<mapsto> [])"
      using ct assms by auto
    have fs: "if r = Ret () then fv_file (view w2) = (fv_file (view w1))(p := None, ?path \<mapsto> c)
        else (\<forall>q. q \<noteq> p \<longrightarrow> fv_file (view w2) q = fv_file (view w1) q)"
      using v1 by (intro putBody_files [OF b v1(1,2) _ ne]) simp
    show ?thesis
    proof (cases "r = Ret ()")
      case True
      with fs ne v1(3) ct have f2: "fv_file (view w2) = (fv_file (view w))(?path \<mapsto> c)" by (simp add: fun_upd_idem)
      then have "fv_file (view w2) p = None" using ct ne by simp
      with rm' f2 True put show ?thesis by (simp add: stored_def)
    next
      case False
      have "fv_file (view w') q = fv_file (view w) q" if "\<not> temp_name q" for q
      proof -
        have "q \<noteq> p" using that tmp by blast
        with rm fs False v1(3) show ?thesis by simp
      qed
      with False put show ?thesis by (simp add: stored_def)
    qed
  next
    case (stop r0)
    then have "fv_file (view w') = fv_file (view w)"
      by (cases r0) (auto dest: createtemp_fail)
    with stop(3) put show ?thesis by (simp add: stored_def)
  qed
qed

end

subsection \<open>Downloads fill the cache\<close>

locale web = filesystem F view for F :: "'w files" and view :: "'w \<Rightarrow> fview" +
  fixes H :: "'w http"
  assumes do_files: "same_files view (h_Do H u)"
    and do_body: "h_Do H u w = (Ret res, w') \<Longrightarrow> fv_src (view w') (hr_Body res) \<noteq> None"
begin

lemma decompressed_files: "decompressed F d h w = (r, w') \<Longrightarrow> fv_file (view w') = fv_file (view w)"
  using unzip_files [of h]
  by (cases d; cases "the d") (auto simp: decompressed_def retA_def same_files_def)

lemma decompressed_src:
  "decompressed F d h w = (Ret s, w') \<Longrightarrow> fv_src (view w) h \<noteq> None \<Longrightarrow> fv_src (view w') s \<noteq> None"
  by (cases d; cases "the d") (auto simp: decompressed_def retA_def dest: unzip_law)

text \<open>The part after the response: entries change only by a complete put.\<close>

definition fills :: "string \<Rightarrow> 'w \<Rightarrow> unit res \<times> 'w \<Rightarrow> bool" where
  "fills path w rw \<longleftrightarrow> (\<exists>c. stored view path c w rw)"

lemma fills_same: "fv_file (view w') = fv_file (view w) \<Longrightarrow> r \<noteq> Ret () \<Longrightarrow> fills path w (r, w')"
  by (simp add: fills_def stored_def)

lemma fills_trans: "fv_file (view w1) = fv_file (view w) \<Longrightarrow> fv_file (view w3) = fv_file (view w2) \<Longrightarrow>
    fills path w1 (r, w2) \<Longrightarrow> fills path w (r, w3)"
  by (auto simp: fills_def stored_def split: if_splits)

lemma storeResponse_fills:
  assumes "fv_src (view w) (hr_Body res) \<noteq> None" "storeResponse F u d dir res w = (r, w')"
  shows "fills (cache_Path dir u) w (r, w')"
proof (cases "hr_StatusCode res = 200 \<and> (\<exists>n. go_Atoi (hr_ContentLength res) = Ret n)")
  case True
  with assms(2) have "bindA (decompressed F d (hr_Body res)) (\<lambda>src. cache_Put F dir u src) w = (r, w')"
    by (auto simp: storeResponse_def)
  then show ?thesis
  proof (cases rule: bindA_cases)
    case (ok s w1)
    then obtain c where "fv_src (view w1) s = Some c" using decompressed_src assms(1) by blast
    from put_stored [OF this, of dir u] ok show ?thesis
      by (intro fills_trans [of w1 w w' w']) (auto simp: fills_def decompressed_files)
  next
    case (stop r0)
    then show ?thesis by (intro fills_same) (auto dest: decompressed_files)
  qed
next
  case False
  then show ?thesis using assms(2)
    by (cases "go_Atoi (hr_ContentLength res)")
      (auto simp: storeResponse_def failA_def panicA_def intro: fills_same split: if_splits)
qed

lemma Contains_absent:
  "f_Stat F (cache_Path dir u) w = (Fail ErrNotExist, w0) \<Longrightarrow> cache_Contains F dir u w = (Ret False, w0)"
  by (simp add: cache_Contains_def bindA_def tryA_def IsNotExist_def retA_def)

lemma download_fills:
  assumes "f_Stat F (cache_Path dir u) w = (Fail ErrNotExist, w0)" "DownloadData F H u d dir w = (r, w')"
  shows "fills (cache_Path dir u) w (r, w')"
proof -
  have w0: "view w0 = view w" using stat_view assms(1) by blast
  have dl: "bindA (liftA (h_NewRequest H u)) (\<lambda>_. bindA (h_Do H u) (\<lambda>res.
       deferA (storeResponse F u d dir res) (f_Close F (hr_Body res)))) w0 = (r, w')"
    using assms(2)
    by (simp add: DownloadData_def bindA_Ret [of "cache_Contains F dir u" w False w0, OF Contains_absent [OF assms(1)]])
  show ?thesis
  proof (cases "h_NewRequest H u")
    case (Ret n)
    with dl have "bindA (h_Do H u) (\<lambda>res. deferA (storeResponse F u d dir res) (f_Close F (hr_Body res))) w0 = (r, w')"
      by simp
    then show ?thesis
    proof (cases rule: bindA_cases)
      case (ok res w1)
      have w1: "fv_file (view w1) = fv_file (view w)" using do_files ok(1) w0 by (simp add: same_files_def)
      obtain w2 where w2: "storeResponse F u d dir res w1 = (r, w2)" "fv_file (view w') = fv_file (view w2)"
        using defer_close [OF ok(2)] by blast
      from fills_trans [OF w1 w2(2) storeResponse_fills [OF do_body [OF ok(1)] w2(1)]] show ?thesis .
    next
      case (stop r0)
      then show ?thesis using do_files w0 by (intro fills_same) (auto simp: same_files_def)
    qed
  qed (use dl w0 in \<open>auto simp: failA_def panicA_def intro: fills_same\<close>)
qed

lemma download_cached:
  assumes "f_Stat F (cache_Path dir u) w = (st, w0)" "st \<noteq> Fail ErrNotExist" "\<And>p. st \<noteq> Panic p"
  shows "DownloadData F H u d dir w = (Ret (), w0)"
proof -
  have "cache_Contains F dir u w = (Ret True, w0)"
    using assms by (cases st) (auto simp: cache_Contains_def bindA_def tryA_def IsNotExist_def retA_def)
  then show ?thesis
    by (simp add: DownloadData_def retA_def bindA_Ret [of "cache_Contains F dir u" w True w0])
qed

end

text \<open>A web that serves the pages of a map, for the executable host.\<close>

definition refHttp :: "(string \<rightharpoonup> bytes) \<Rightarrow> 'z refFs_scheme http" where
  "refHttp pages =
     \<lparr>h_ParseURL = Ret, h_NewRequest = (\<lambda>u. Ret ()),
      h_Do = (\<lambda>u w. case pages u of
         None \<Rightarrow> (Ret \<lparr>hr_StatusCode = 404, hr_Status = ''404 Not Found'', hr_ContentLength = ''0'', hr_Body = rf_next w\<rparr>,
           w\<lparr>rf_src := (rf_src w)(rf_next w \<mapsto> []), rf_next := Suc (rf_next w)\<rparr>)
       | Some c \<Rightarrow> (Ret \<lparr>hr_StatusCode = 200, hr_Status = ''200 OK'', hr_ContentLength = fmt_d (length c), hr_Body = rf_next w\<rparr>,
           w\<lparr>rf_src := (rf_src w)(rf_next w \<mapsto> c), rf_next := Suc (rf_next w)\<rparr>))\<rparr>"

interpretation rweb: web refFiles ref_view "refHttp pages" for pages
  by unfold_locales (auto simp: refHttp_def same_files_def split: option.splits)

definition exampleHost :: refFs where
  "exampleHost =
     \<lparr>rf_file = Map.empty, rf_dirs = [], rf_src = [0 \<mapsto> [1, 2, 3]], rf_dst = Map.empty, rf_next = 1, rf_faults = []\<rparr>"

text \<open>
  C21. Storing a stream in the cache is atomic: when it returns without error, the entry of
  the key holds the whole stream and no other file has changed, the temporary file
  included; when it does not, whichever call failed, all files but temporary ones are as
  before, in particular every entry of the cache.
\<close>

theorem cache_put_atomic:
  assumes "filesystem F view" "fv_src (view w) s = Some c" "cache_Put F dir key s w = (r, w')"
  shows "(r = Ret () \<longrightarrow> fv_file (view w') = (fv_file (view w))(cache_Path dir key \<mapsto> c)) \<and>
    (r \<noteq> Ret () \<longrightarrow> (\<forall>q. \<not> temp_name q \<longrightarrow> fv_file (view w') q = fv_file (view w) q) \<and>
      (\<forall>k. fv_file (view w') (cache_Path dir k) = fv_file (view w) (cache_Path dir k)))"
  using filesystem.put_stored [OF assms(1,2), of dir key] assms(3) cache_Path_not_temp by (auto simp: stored_def)

theorem cache_put_atomic_witness:
  "rf_file (snd (cache_Put refFiles ''/c'' ''k'' 0 exampleHost)) = [cache_Path ''/c'' ''k'' \<mapsto> [1, 2, 3]] \<and>
   rf_file (snd (cache_Put refFiles ''/c'' ''k'' 0 (exampleHost\<lparr>rf_faults := [None, None, Some EOF]\<rparr>))) (cache_Path ''/c'' ''k'') = None"
proof -
  have 1: "fst (cache_Put refFiles ''/c'' ''k'' 0 exampleHost) = Ret ()"
    by (simp add: cache_Put_def putBody_def closeOnError_def exampleHost_def fs_simps bindA_def retA_def deferA_def tryA_def Let_def)
  have 2: "fst (cache_Put refFiles ''/c'' ''k'' 0 (exampleHost\<lparr>rf_faults := [None, None, Some EOF]\<rparr>)) \<noteq> Ret ()"
    by (simp add: cache_Put_def putBody_def closeOnError_def exampleHost_def fs_simps bindA_def retA_def deferA_def tryA_def Let_def)
  note th = cache_put_atomic [OF rfs.filesystem_axioms _ prod.collapse [symmetric], of _ 0 "[1, 2, 3]" "''/c''" "''k''"]
  show ?thesis
    using th [of exampleHost] th [of "exampleHost\<lparr>rf_faults := [None, None, Some EOF]\<rparr>"] 1 2
    by (simp add: exampleHost_def)
qed



end
