(* ===== verification/Volume.thy ===== *)
theory Volume
  imports Cache Qemu Json
begin

text \<open>
  Node volumes and images, \<open>v2/pkg/vm/volume.go\<close> and \<open>v2/pkg/vm/image.go\<close>. The interface
  \<open>nodeVolume\<close> is a datatype with one constructor per implementation; \<open>prepare\<close> returns the
  volume it has changed. External programs (\<open>qemu-img\<close>, \<open>cloud-localds\<close>) are the parameter
  \<open>commands\<close>; the locale \<open>volume_host\<close> says which file each of them writes.
\<close>

text \<open>\<open>well.CommandContext(ctx, argv...)\<close> followed by \<open>Run\<close>, \<open>Output\<close> or \<open>Start\<close>; the last returns the process.\<close>

record 'w commands =
  c_Run :: "string list \<Rightarrow> ('w, unit) act"
  c_Output :: "string list \<Rightarrow> ('w, string) act"
  c_Start :: "string list \<Rightarrow> ('w, nat) act"

subsection \<open>Images\<close>

record image =
  i_name :: string
  i_url :: "string option"
  i_file :: string
  i_decomp :: "Decompressor option"
  i_p :: string

definition newImage :: "'w http \<Rightarrow> ImageSpec \<Rightarrow> image res" where
  "newImage H spec =
     bindR (if 0 < length (img_URL spec) then bindR (h_ParseURL H (img_URL spec)) (\<lambda>u. Ret (Some u)) else Ret None) (\<lambda>u.
     bindR (NewDecompressor (img_CompressionMethod spec)) (\<lambda>decomp.
     Ret \<lparr>i_name = img_Name spec, i_url = u, i_file = img_File spec, i_decomp = decomp, i_p = ''''\<rparr>))"

definition image_prepare :: "'w files \<Rightarrow> 'w http \<Rightarrow> string \<Rightarrow> image \<Rightarrow> ('w, image) act" where
  "image_prepare F H dir i =
     (case i_url i of
        None \<Rightarrow> retA i
      | Some u \<Rightarrow> bindA (DownloadData F H u (i_decomp i) dir) (\<lambda>_. retA (i\<lparr>i_p := cache_Path dir u\<rparr>)))"

subsection \<open>Volumes\<close>

record imageVolume =
  iv_name :: string
  iv_cache :: string
  iv_image :: image
  iv_copyOnWrite :: bool
  iv_deviceClassDir :: string

record localDSVolume =
  lv_name :: string
  lv_cache :: string
  lv_userData :: string
  lv_networkConfig :: string
  lv_deviceClassDir :: string

record rawVolume =
  rv_name :: string
  rv_cache :: string
  rv_size :: string
  rv_format :: string
  rv_deviceClassDir :: string

record hostPathVolume =
  hv_name :: string
  hv_path :: string
  hv_writable :: bool

datatype nodeVolume =
    ImageVolume imageVolume
  | LocalDSVolume localDSVolume
  | RawVolume rawVolume
  | HostPathVolume hostPathVolume

text \<open>The loop over the device classes has no break: the last one with the name counts.\<close>

definition deviceClassDir :: "string \<Rightarrow> DeviceClassSpec list \<Rightarrow> string" where
  "deviceClassDir name classes = foldl (\<lambda>d c. if name = dc_Name c then dc_Path c else d) '''' classes"

definition findImage :: "string \<Rightarrow> ImageSpec list \<Rightarrow> ImageSpec option" where
  "findImage name imageSpecs = find (\<lambda>i. name = img_Name i) imageSpecs"

definition newNodeVolume ::
  "'w http \<Rightarrow> NodeVolumeSpec \<Rightarrow> ImageSpec list \<Rightarrow> DeviceClassSpec list \<Rightarrow> nodeVolume res" where
  "newNodeVolume H spec imageSpecs deviceClassSpecs =
     bindR (if v_Cache spec = '''' then Ret NodeVolumeCacheNone
            else if v_Cache spec \<in> set knownCaches then Ret (v_Cache spec)
            else Fail (ErrNew ''invalid cache type for volume'')) (\<lambda>cache.
     let dir = deviceClassDir (v_DeviceClass spec) deviceClassSpecs in
     if v_DeviceClass spec \<noteq> '''' \<and> dir = '''' then Fail (ErrNew (''invalid device-class '' @ v_DeviceClass spec))
     else if v_Kind spec = NodeVolumeKindImage then
       (case findImage (v_Image spec) imageSpecs of
          None \<Rightarrow> Fail (ErrNew (''failed to find the image '' @ v_Image spec))
        | Some imageSpec \<Rightarrow>
            bindR (wrapR (''failed to create the image '' @ img_Name imageSpec) (newImage H imageSpec)) (\<lambda>image.
            Ret (ImageVolume \<lparr>iv_name = v_Name spec, iv_cache = cache, iv_image = image,
                   iv_copyOnWrite = v_CopyOnWrite spec, iv_deviceClassDir = dir\<rparr>)))
     else if v_Kind spec = NodeVolumeKindLocalds then
       Ret (LocalDSVolume \<lparr>lv_name = v_Name spec, lv_cache = cache, lv_userData = v_UserData spec,
              lv_networkConfig = v_NetworkConfig spec, lv_deviceClassDir = dir\<rparr>)
     else if v_Kind spec = NodeVolumeKindRaw then
       bindR (if v_Format spec = '''' then Ret NodeVolumeFormatQcow2
              else if v_Format spec = NodeVolumeFormatQcow2 \<or> v_Format spec = NodeVolumeFormatRaw then Ret (v_Format spec)
              else Fail (ErrNew ''invalid format for raw volume'')) (\<lambda>format.
       Ret (RawVolume \<lparr>rv_name = v_Name spec, rv_cache = cache, rv_size = v_Size spec, rv_format = format,
              rv_deviceClassDir = dir\<rparr>))
     else if v_Kind spec = NodeVolumeKindHostPath then
       Ret (HostPathVolume \<lparr>hv_name = v_Name spec, hv_path = v_Path spec, hv_writable = v_Writable spec\<rparr>)
     else Fail (ErrNew (''unknown volume kind: '' @ v_Kind spec)))"

definition volumePath :: "string \<Rightarrow> string \<Rightarrow> string" where
  "volumePath dataDir name = filepath_Join [dataDir, name @ ''.img'']"

text \<open>The directory of a volume, without making it.\<close>

definition volumeDir :: "string \<Rightarrow> string \<Rightarrow> string \<Rightarrow> string" where
  "volumeDir dataDir classDir dataPathLastPart =
     (if classDir = '''' then filepath_Join [dataDir, dataPathLastPart] else filepath_Join [classDir, dataPathLastPart])"

definition makeVolumeDir :: "'w files \<Rightarrow> string \<Rightarrow> string \<Rightarrow> string \<Rightarrow> string \<Rightarrow> ('w, string) act" where
  "makeVolumeDir F dataDir classDir dataPathLastPart name =
     (let volumePathFull = volumeDir dataDir classDir dataPathLastPart
      in bindA (wrapA (''failed to make the directory '' @ volumePathFull) (f_MkdirAll F volumePathFull)) (\<lambda>_.
         retA (volumePath volumePathFull name)))"

text \<open>\<open>json.Unmarshal\<close> into the struct with the one field \<open>Format\<close>.\<close>

fun set_format :: "string \<times> json \<Rightarrow> string \<times> bool \<Rightarrow> string \<times> bool" where
  "set_format (k, v) (format, ok) =
     (if field ''format'' k then
        (case v of JStr t \<Rightarrow> (t, ok) | JNull \<Rightarrow> (format, ok) | _ \<Rightarrow> (format, False))
      else (format, ok))"

definition unmarshalFormat :: "string \<Rightarrow> string res" where
  "unmarshalFormat out =
     (case parse_json out of
        None \<Rightarrow> Fail (ErrNew ''invalid JSON'')
      | Some JNull \<Rightarrow> Ret ''''
      | Some (JObj kvs) \<Rightarrow>
          (let (format, ok) = fold set_format kvs ('''', True)
           in if ok then Ret format else Fail (ErrNew ''json: cannot unmarshal into Go value''))
      | Some _ \<Rightarrow> Fail (ErrNew ''json: cannot unmarshal into Go value''))"

definition createCoWImageFromBase :: "'w commands \<Rightarrow> string \<Rightarrow> string \<Rightarrow> ('w, unit) act" where
  "createCoWImageFromBase C base dest =
     bindA (c_Output C [''qemu-img'', ''info'', ''--output=json'', base]) (\<lambda>out.
     bindA (liftA (unmarshalFormat out)) (\<lambda>format.
     if length format = 0 then failA (ErrNew (''failed to probe file format for '' @ base))
     else c_Run C [''qemu-img'', ''create'', ''-f'', ''qcow2'', ''-F'', format, ''-o'', ''backing_file='' @ base, dest]))"

text \<open>\<open>os.Open\<close>, \<open>os.Create\<close> and \<open>io.Copy\<close> with their deferred \<open>Close\<close>.\<close>

definition copyFile :: "'w files \<Rightarrow> string \<Rightarrow> string \<Rightarrow> ('w, unit) act" where
  "copyFile F base dest =
     bindA (f_Open F base) (\<lambda>f.
     deferA
       (bindA (f_Create F dest) (\<lambda>g. deferA (f_Copy F g f) (f_Close F g)))
       (f_Close F f))"

text \<open>What the image volume does when its file does not exist yet.\<close>

definition fillImageVolume :: "'w files \<Rightarrow> 'w commands \<Rightarrow> imageVolume \<Rightarrow> string \<Rightarrow> ('w, unit) act" where
  "fillImageVolume F C v vPath =
     (if i_file (iv_image v) \<noteq> '''' then
        bindA (f_Abs F (i_file (iv_image v))) (\<lambda>fp.
        if iv_copyOnWrite v then createCoWImageFromBase C fp vPath
        else WriteToFile F fp vPath (i_decomp (iv_image v)))
      else if iv_copyOnWrite v then createCoWImageFromBase C (i_p (iv_image v)) vPath
      else copyFile F (i_p (iv_image v)) vPath)"

text \<open>The three volumes with a file share the check for it: an existing file is used as it is.\<close>

definition unlessExists :: "'w files \<Rightarrow> string \<Rightarrow> ('w, unit) act \<Rightarrow> ('w, unit) act" where
  "unlessExists F vPath fill =
     bindA (tryA (f_Stat F vPath)) (\<lambda>st.
     case st of Inr _ \<Rightarrow> retA () | Inl err \<Rightarrow> if IsNotExist err then fill else failA err)"

definition imageVolume_create :: "'w files \<Rightarrow> 'w commands \<Rightarrow> imageVolume \<Rightarrow> string \<Rightarrow> string \<Rightarrow> ('w, volumeArgs) act" where
  "imageVolume_create F C v dataDir dataPathLastPart =
     bindA (makeVolumeDir F dataDir (iv_deviceClassDir v) dataPathLastPart (iv_name v)) (\<lambda>vPath.
     bindA (unlessExists F vPath (fillImageVolume F C v vPath)) (\<lambda>_.
     retA (ImageVolumeArgs vPath (iv_cache v))))"

definition localDSVolume_create :: "'w files \<Rightarrow> 'w commands \<Rightarrow> localDSVolume \<Rightarrow> string \<Rightarrow> string \<Rightarrow> ('w, volumeArgs) act" where
  "localDSVolume_create F C v dataDir dataPathLastPart =
     bindA (makeVolumeDir F dataDir (lv_deviceClassDir v) dataPathLastPart (lv_name v)) (\<lambda>vPath.
     bindA (unlessExists F vPath
       (if lv_networkConfig v = '''' then c_Run C [''cloud-localds'', vPath, lv_userData v]
        else c_Run C [''cloud-localds'', vPath, lv_userData v, ''--network-config'', lv_networkConfig v,
               ''--disk-format'', ''qcow2''])) (\<lambda>_.
     retA (LocalDSVolumeArgs vPath (lv_cache v))))"

definition rawVolume_create :: "'w files \<Rightarrow> 'w commands \<Rightarrow> rawVolume \<Rightarrow> string \<Rightarrow> string \<Rightarrow> ('w, volumeArgs) act" where
  "rawVolume_create F C v dataDir dataPathLastPart =
     bindA (makeVolumeDir F dataDir (rv_deviceClassDir v) dataPathLastPart (rv_name v)) (\<lambda>vPath.
     bindA (unlessExists F vPath (c_Run C [''qemu-img'', ''create'', ''-f'', rv_format v, vPath, rv_size v])) (\<lambda>_.
     retA (RawVolumeArgs vPath (rv_cache v) (rv_format v))))"

definition hostPathVolume_create :: "'w files \<Rightarrow> hostPathVolume \<Rightarrow> ('w, volumeArgs) act" where
  "hostPathVolume_create F v =
     bindA (f_Abs F (hv_path v)) (\<lambda>p.
     bindA (wrapA (''failed to mkdir '' @ hv_path v) (f_MkdirAll F p)) (\<lambda>_.
     retA (HostPathVolumeArgs p (hv_writable v) (hv_name v))))"

fun volume_create :: "'w files \<Rightarrow> 'w commands \<Rightarrow> string \<Rightarrow> string \<Rightarrow> nodeVolume \<Rightarrow> ('w, volumeArgs) act" where
  "volume_create F C dataDir lastPart (ImageVolume v) = imageVolume_create F C v dataDir lastPart"
| "volume_create F C dataDir lastPart (LocalDSVolume v) = localDSVolume_create F C v dataDir lastPart"
| "volume_create F C dataDir lastPart (RawVolume v) = rawVolume_create F C v dataDir lastPart"
| "volume_create F C dataDir lastPart (HostPathVolume v) = hostPathVolume_create F v"

fun volume_prepare :: "'w files \<Rightarrow> 'w http \<Rightarrow> string \<Rightarrow> nodeVolume \<Rightarrow> ('w, nodeVolume) act" where
  "volume_prepare F H dir (ImageVolume v) =
     bindA (image_prepare F H dir (iv_image v)) (\<lambda>image. retA (ImageVolume (v\<lparr>iv_image := image\<rparr>)))"
| "volume_prepare F H dir v = retA v"

subsection \<open>Volumes of a validated cluster\<close>

lemma deviceClassDir_snoc:
  "deviceClassDir n (cs @ [c]) = (if n = dc_Name c then dc_Path c else deviceClassDir n cs)"
  by (simp add: deviceClassDir_def)

lemma deviceClassDir_known:
  "list_all deviceclass_ok cs \<Longrightarrow> deviceClassDir n cs \<noteq> '''' \<longleftrightarrow> n \<in> dc_Name ` set cs"
  by (induction cs rule: rev_induct)
    (auto simp: deviceClassDir_snoc deviceclass_ok_def filepath_IsAbs_def, simp add: deviceClassDir_def)

text \<open>An image whose URL, if any, parses and whose compression method is known.\<close>

definition image_usable :: "'w http \<Rightarrow> ImageSpec \<Rightarrow> bool" where
  "image_usable H s \<longleftrightarrow>
     (img_URL s = '''' \<or> (\<exists>u. h_ParseURL H (img_URL s) = Ret u)) \<and> img_CompressionMethod s \<in> {'''', ''gzip'', ''bzip2''}"

lemma newImage_ok_iff: "image_usable H s \<longleftrightarrow> (\<exists>i. newImage H s = Ret i)"
  by (cases "h_ParseURL H (img_URL s)") (auto simp: image_usable_def newImage_def NewDecompressor_def bindR_eq_Ret)

fun volume_cache :: "nodeVolume \<Rightarrow> string option" where
  "volume_cache (ImageVolume v) = Some (iv_cache v)"
| "volume_cache (LocalDSVolume v) = Some (lv_cache v)"
| "volume_cache (RawVolume v) = Some (rv_cache v)"
| "volume_cache (HostPathVolume v) = None"

lemma kind_names:
  "NodeVolumeKindImage = ''image''" "NodeVolumeKindLocalds = ''localds''" "NodeVolumeKindRaw = ''raw''"
  "NodeVolumeKindHostPath = ''hostPath''" "NodeVolumeFormatQcow2 = ''qcow2''" "NodeVolumeFormatRaw = ''raw''"
  by (simp_all add: NodeVolumeKindImage_def NodeVolumeKindLocalds_def NodeVolumeKindRaw_def
      NodeVolumeKindHostPath_def NodeVolumeFormatQcow2_def NodeVolumeFormatRaw_def)

lemma none_known: "NodeVolumeCacheNone \<in> set knownCaches"
  by (simp add: knownCaches_def)

text \<open>
  For a validated volume of a validated cluster, \<open>newNodeVolume\<close> succeeds exactly when
  its references resolve: the device class, if given, is declared, and for an image volume
  the image is declared with a URL that parses and a known compression method. The volume
  gets the cache mode of the specification, or \<open>none\<close>, always one that QEMU knows.
\<close>

lemma new_volume_accepts:
  assumes "volume_ok spec" "list_all deviceclass_ok classes"
  shows "((\<exists>v. newNodeVolume H spec images classes = Ret v) \<longleftrightarrow>
      (v_DeviceClass spec = '''' \<or> v_DeviceClass spec \<in> dc_Name ` set classes) \<and>
      (v_Kind spec = ''image'' \<longrightarrow> (\<exists>s. findImage (v_Image spec) images = Some s \<and> image_usable H s))) \<and>
    (\<forall>v c. newNodeVolume H spec images classes = Ret v \<and> volume_cache v = Some c \<longrightarrow>
       c \<in> set knownCaches \<and> c = (if v_Cache spec = '''' then ''none'' else v_Cache spec))"
proof -
  let ?cache = "if v_Cache spec = '''' then NodeVolumeCacheNone else v_Cache spec"
  have c: "(if v_Cache spec = '''' then Ret NodeVolumeCacheNone
      else if v_Cache spec \<in> set knownCaches then Ret (v_Cache spec)
      else Fail (ErrNew ''invalid cache type for volume'')) = Ret ?cache" "?cache \<in> set knownCaches"
    using assms(1) none_known by (auto simp: volume_ok_def)
  have n: "NodeVolumeCacheNone = ''none''" by (simp add: NodeVolumeCacheNone_def)
  note known = deviceClassDir_known [OF assms(2), of "v_DeviceClass spec"]
  show ?thesis
  proof (cases "v_DeviceClass spec = '''' \<or> v_DeviceClass spec \<in> dc_Name ` set classes")
    case False
    then show ?thesis using known unfolding newNodeVolume_def c(1) by (simp add: Let_def)
  next
    case True
    then have dc: "\<not> (v_DeviceClass spec \<noteq> '''' \<and> deviceClassDir (v_DeviceClass spec) classes = '''')" using known by blast
    consider "v_Kind spec = ''image''" | "v_Kind spec = ''localds''" | "v_Kind spec = ''hostPath''"
      | "v_Kind spec = ''raw''" "v_Format spec \<in> {'''', ''qcow2'', ''raw''}"
      using assms(1) unfolding volume_ok_def by blast
    then show ?thesis
    proof cases
      case 1
      then show ?thesis
        using True dc c(2) unfolding newNodeVolume_def c(1)
        by (cases "findImage (v_Image spec) images")
          (auto simp: Let_def kind_names n newImage_ok_iff bindR_eq_Ret)
    qed (use True dc c(2) in \<open>auto simp: newNodeVolume_def c(1) Let_def kind_names n bindR_eq_Ret\<close>)
  qed
qed

definition exampleVolume :: NodeVolumeSpec where
  "exampleVolume = \<lparr>v_Kind = ''raw'', v_Name = ''data'', v_Image = '''', v_UserData = '''', v_NetworkConfig = '''',
     v_Size = ''10G'', v_Path = '''', v_CopyOnWrite = False, v_Cache = '''', v_Format = '''', v_VG = '''',
     v_Writable = False, v_DeviceClass = ''ssd''\<rparr>"

subsection \<open>Creating volumes never touches an existing file\<close>

lemma only_file_same: "same_files view m \<Longrightarrow> only_file view p m"
  by (auto simp: same_files_def only_file_def)

lemma only_fileD: "only_file view p m \<Longrightarrow> m w = (r, w') \<Longrightarrow> fv_file (view w') q \<noteq> fv_file (view w) q \<Longrightarrow> q = p"
  by (auto simp: only_file_def)

lemma only_file_pure [simp]:

  "only_file view p (retA x)" "only_file view p (failA e)" "only_file view p (liftA r)"
  by (auto simp: only_file_def act_defs)

lemma only_file_bindA:
  "only_file view p m \<Longrightarrow> (\<And>x. only_file view p (f x)) \<Longrightarrow> only_file view p (bindA m f)"
  by (auto simp: only_file_def elim!: bindA_cases)

lemma only_file_tryA: "only_file view p m \<Longrightarrow> only_file view p (tryA m)"
  by (fastforce simp: only_file_def tryA_def split: prod.splits res.splits)

lemma only_file_wrapA: "only_file view p m \<Longrightarrow> only_file view p (wrapA msg m)"
  by (fastforce simp: only_file_def wrapA_def split: prod.splits)

lemmas only_file_intros = only_file_pure only_file_bindA only_file_tryA only_file_wrapA

locale volume_host = filesystem F view for F :: "'w files" and view :: "'w \<Rightarrow> fview" +
  fixes C :: "'w commands"
  assumes info_files: "same_files view (c_Output C [''qemu-img'', ''info'', ''--output=json'', base])"
    and cow_files: "only_file view dest (c_Run C [''qemu-img'', ''create'', ''-f'', ''qcow2'', ''-F'', fmt, ''-o'', opt, dest])"
    and raw_files: "only_file view dest (c_Run C [''qemu-img'', ''create'', ''-f'', fmt, dest, sz])"
    and localds_files: "only_file view dest (c_Run C [''cloud-localds'', dest, ud])"
      "only_file view dest (c_Run C [''cloud-localds'', dest, ud, ''--network-config'', nc, ''--disk-format'', ''qcow2''])"
begin

lemma only_file_defer_close: "only_file view p m \<Longrightarrow> only_file view p (deferA m (f_Close F h))"
  by (auto simp: only_file_def dest!: defer_close)

lemma only_file_mkdir: "only_file view p (f_MkdirAll F d)" "only_file view p (f_Abs F a)" "only_file view p (f_Stat F a)"
  using mkdir_view abs_view stat_view by (auto simp: only_file_def)

lemma only_file_open: "only_file view p (f_Open F q)"
  using open_files by (rule only_file_same)

lemma decompressed_keeps:
  "decompressed F d h w = (r, w') \<Longrightarrow> fv_file (view w') = fv_file (view w) \<and> (\<forall>s. r = Ret s \<longrightarrow> fv_dst (view w') = fv_dst (view w))"
  using unzip_files [of h] unzip_law [of h]
  by (cases d; cases "the d") (auto simp: decompressed_def retA_def same_files_def)

text \<open>A writer opened on \<open>p\<close> and filled from a stream changes only \<open>p\<close>.\<close>

lemma only_file_fill:
  assumes "\<And>w h w'. opn w = (Ret h, w') \<Longrightarrow> fv_dst (view w') h = Some p" "only_file view p opn"
  shows "only_file view p (bindA opn (\<lambda>h. deferA (bindA (decompressed F d s) (\<lambda>src. f_Copy F h src)) (f_Close F h)))"
  unfolding only_file_def
proof (intro allI impI)
  fix w r w' q
  assume "bindA opn (\<lambda>h. deferA (bindA (decompressed F d s) (\<lambda>src. f_Copy F h src)) (f_Close F h)) w = (r, w')" "q \<noteq> p"
  then show "fv_file (view w') q = fv_file (view w) q"
  proof (cases rule: bindA_cases)
    case (ok h w1)
    have h: "fv_dst (view w1) h = Some p" "fv_file (view w1) q = fv_file (view w) q"
      using assms ok(1) \<open>q \<noteq> p\<close> by (auto simp: only_file_def)
    obtain w2 where w2: "bindA (decompressed F d s) (\<lambda>src. f_Copy F h src) w1 = (r, w2)" "fv_file (view w') = fv_file (view w2)"
      using defer_close [OF ok(2)] by blast
    from w2(1) have "fv_file (view w2) q = fv_file (view w1) q"
    proof (cases rule: bindA_cases)
      case (ok s' w3)
      then show ?thesis using decompressed_keeps [OF ok(1)] copy_files [OF ok(2)] h(1) \<open>q \<noteq> p\<close> by simp
    next
      case (stop r0)
      then show ?thesis using decompressed_keeps by fastforce
    qed
    with h w2 show ?thesis by simp
  next
    case (stop r0)
    then show ?thesis using assms(2) \<open>q \<noteq> p\<close> by (auto simp: only_file_def)
  qed
qed

lemma WriteToFile_only: "only_file view p (WriteToFile F src p d)"
  unfolding WriteToFile_def
  by (intro only_file_bindA only_file_open only_file_defer_close only_file_fill openwrite_files) (auto dest: openwrite_law)

lemma copyFile_only: "only_file view p (copyFile F src p)"
proof -
  have "only_file view p (bindA (f_Create F p) (\<lambda>h. deferA (bindA (decompressed F None s) (\<lambda>src. f_Copy F h src)) (f_Close F h)))" for s
    by (intro only_file_fill create_files) (auto dest: create_law)
  then show ?thesis
    unfolding copyFile_def
    by (intro only_file_bindA [OF only_file_open] only_file_defer_close) (simp add: decompressed_def)
qed

lemma cow_only: "only_file view p (createCoWImageFromBase C base p)"
  unfolding createCoWImageFromBase_def
  by (auto intro!: only_file_intros only_file_same [OF info_files] cow_files)

lemma fill_only: "only_file view p (fillImageVolume F C v p)"
  unfolding fillImageVolume_def
  by (auto intro!: only_file_bindA only_file_mkdir cow_only WriteToFile_only copyFile_only)

text \<open>The guard: the file is written only when it does not exist.\<close>

lemma unlessExists_keeps:
  assumes "only_file view p fill" "unlessExists F p fill w = (r, w')" "fv_file (view w) q = Some c"
  shows "fv_file (view w') q = Some c"
  using assms(2) unfolding unlessExists_def
proof (cases rule: bindA_cases)
  case (ok st w1)
  then consider d where "f_Stat F p w = (Ret d, w1)" "st = Inr d" | e where "f_Stat F p w = (Fail e, w1)" "st = Inl e"
    by (auto simp: tryA_eq_Ret)
  then show ?thesis
  proof cases
    case 1
    then show ?thesis using ok(2) stat_view assms(3) by (auto simp: retA_def)
  next
    case 2
    show ?thesis
    proof (cases "IsNotExist e")
      case True
      then have "q \<noteq> p" using stat_absent 2(1) assms(3) by (auto simp: IsNotExist_def)
      then show ?thesis using ok(2) 2 True assms(1,3) stat_view by (auto simp: only_file_def)
    qed (use ok(2) 2 stat_view assms(3) in \<open>auto simp: failA_def\<close>)
  qed
next
  case (stop r0)
  then show ?thesis using only_file_tryA [OF only_file_mkdir(3), of p q] assms(3) stat_view
    by (auto simp: tryA_def split: prod.splits res.splits)
qed

lemma makeVolumeDir_Ret:
  "makeVolumeDir F dataDir dir lastPart name w = (r, w') \<Longrightarrow>
   view w' = view w \<and> (\<forall>p. r = Ret p \<longrightarrow> p = volumePath (volumeDir dataDir dir lastPart) name)"
  by (cases "f_MkdirAll F (volumeDir dataDir dir lastPart) w"; cases "fst (f_MkdirAll F (volumeDir dataDir dir lastPart) w)")
    (auto simp: makeVolumeDir_def Let_def bindA_def wrapA_def retA_def dest: mkdir_view)

text \<open>Every volume with a file is created as: make the directory, fill unless the file exists, return.\<close>

lemma create_shape:
  assumes "only_file view (volumePath (volumeDir dataDir dir lastPart) name) (fill (volumePath (volumeDir dataDir dir lastPart) name))"
    "bindA (makeVolumeDir F dataDir dir lastPart name) (\<lambda>p. bindA (unlessExists F p (fill p)) (\<lambda>_. retA (args p))) w = (r, w')"
  shows "(\<forall>q c. fv_file (view w) q = Some c \<longrightarrow> fv_file (view w') q = Some c) \<and>
    (\<forall>q. fv_file (view w') q \<noteq> fv_file (view w) q \<longrightarrow> q = volumePath (volumeDir dataDir dir lastPart) name) \<and>
    (\<forall>a. r = Ret a \<longrightarrow> a = args (volumePath (volumeDir dataDir dir lastPart) name))"
  using assms(2)
proof (cases rule: bindA_cases)
  case (ok p w1)
  let ?p = "volumePath (volumeDir dataDir dir lastPart) name"
  have p: "p = ?p" "view w1 = view w" using makeVolumeDir_Ret [OF ok(1)] by auto
  from ok(2) obtain r2 where u: "unlessExists F ?p (fill ?p) w1 = (r2, w')" and a: "\<forall>a. r = Ret a \<longrightarrow> a = args ?p"
    by (cases rule: bindA_cases) (auto simp: retA_def p)
  have "only_file view ?p (unlessExists F ?p (fill ?p))"
    unfolding unlessExists_def using assms(1)
    by (auto intro!: only_file_intros only_file_mkdir split: sum.splits)
  from only_fileD [OF this u] have "\<forall>q. fv_file (view w') q \<noteq> fv_file (view w) q \<longrightarrow> q = ?p" using p(2) by auto
  then show ?thesis using unlessExists_keeps [OF assms(1) u] p(2) a by simp
next
  case (stop r0)
  then show ?thesis using makeVolumeDir_Ret by fastforce
qed

lemma hostPath_keeps: "hostPathVolume_create F v w = (r, w') \<Longrightarrow> view w' = view w"
  unfolding hostPathVolume_create_def
  by (auto simp: wrapA_def retA_def elim!: bindA_cases split: prod.splits dest!: abs_view mkdir_view)

end

text \<open>The file of a volume and the arguments it gets.\<close>

fun volume_file :: "string \<Rightarrow> string \<Rightarrow> nodeVolume \<Rightarrow> string option" where
  "volume_file dataDir lastPart (ImageVolume v) = Some (volumePath (volumeDir dataDir (iv_deviceClassDir v) lastPart) (iv_name v))"
| "volume_file dataDir lastPart (LocalDSVolume v) = Some (volumePath (volumeDir dataDir (lv_deviceClassDir v) lastPart) (lv_name v))"
| "volume_file dataDir lastPart (RawVolume v) = Some (volumePath (volumeDir dataDir (rv_deviceClassDir v) lastPart) (rv_name v))"
| "volume_file dataDir lastPart (HostPathVolume v) = None"

fun args_for :: "nodeVolume \<Rightarrow> string \<Rightarrow> volumeArgs" where
  "args_for (ImageVolume v) p = ImageVolumeArgs p (iv_cache v)"
| "args_for (LocalDSVolume v) p = LocalDSVolumeArgs p (lv_cache v)"
| "args_for (RawVolume v) p = RawVolumeArgs p (rv_cache v) (rv_format v)"
| "args_for (HostPathVolume v) p = HostPathVolumeArgs p (hv_writable v) (hv_name v)"

text \<open>External programs of the executable host: each leaves an empty image at its destination.\<close>

definition ref_run :: "string list \<Rightarrow> ('z refFs_scheme, unit) act" where
  "ref_run argv w =
     (if argv \<noteq> [] \<and> hd argv = ''qemu-img'' \<and> length argv = 9 then (Ret (), w\<lparr>rf_file := (rf_file w)(argv ! 8 \<mapsto> [])\<rparr>)
      else if argv \<noteq> [] \<and> hd argv = ''qemu-img'' \<and> length argv = 6 then (Ret (), w\<lparr>rf_file := (rf_file w)(argv ! 4 \<mapsto> [])\<rparr>)
      else if argv \<noteq> [] \<and> hd argv = ''cloud-localds'' \<and> 1 < length argv then (Ret (), w\<lparr>rf_file := (rf_file w)(argv ! 1 \<mapsto> [])\<rparr>)
      else (Ret (), w))"

definition refCommands :: "'z refFs_scheme commands" where
  "refCommands =
     \<lparr>c_Run = (\<lambda>argv. faulty (ref_run argv)), c_Output = (\<lambda>argv. faulty (retA ([CHR ''{'', CHR 0x22] @ ''format''
        @ [CHR 0x22, CHR '':'', CHR 0x22] @ ''qcow2'' @ [CHR 0x22, CHR ''}'']))),
      c_Start = (\<lambda>argv. faulty (retA 0))\<rparr>"

interpretation rvol: volume_host refFiles ref_view refCommands
  by unfold_locales (auto simp: refCommands_def same_files_def only_file_def ref_run_def retA_def ref_view_def elim!: faulty_cases)



end
