(* ===== verification/Firewall.thy ===== *)
theory Firewall
  imports Files
begin

text \<open>
  The NAT chains, \<open>v2/pkg/dcnet/nat.go\<close>, and the rules that networks add to them,
  \<open>appendAcceptRule\<close> and \<open>appendMasqueradeRule\<close> of \<open>v2/pkg/dcnet/network.go\<close>. The
  package \<open>go-iptables\<close> is the parameter \<open>iptables\<close>; its documented behaviour is the
  locale \<open>packet_filter\<close>, over a view of the tables as maps from chains to rules. What
  creation and cleanup do to a table is specified by two functions on such maps.
\<close>

subsection \<open>Operations\<close>

datatype proto = IPv4 | IPv6

record 'w iptables =
  t_New :: "proto \<Rightarrow> ('w, unit) act"
  t_NewChain :: "proto \<Rightarrow> string \<Rightarrow> string \<Rightarrow> ('w, unit) act"
  t_Append :: "proto \<Rightarrow> string \<Rightarrow> string \<Rightarrow> string list \<Rightarrow> ('w, unit) act"
  t_Delete :: "proto \<Rightarrow> string \<Rightarrow> string \<Rightarrow> string list \<Rightarrow> ('w, unit) act"
  t_ClearChain :: "proto \<Rightarrow> string \<Rightarrow> string \<Rightarrow> ('w, unit) act"
  t_DeleteChain :: "proto \<Rightarrow> string \<Rightarrow> string \<Rightarrow> ('w, unit) act"

definition newIptables :: "'w iptables \<Rightarrow> ('w, proto list) act" where
  "newIptables T =
     bindA (wrapA ''failed to create iptables for IPv4'' (t_New T IPv4)) (\<lambda>_.
     bindA (wrapA ''failed to create iptables for IPv6'' (t_New T IPv6)) (\<lambda>_.
     retA [IPv4, IPv6]))"

definition createChains :: "'w iptables \<Rightarrow> proto \<Rightarrow> ('w, unit) act" where
  "createChains T ipt =
     bindA (wrapA ''failed to create the new chain in filter table'' (t_NewChain T ipt ''filter'' ''PLACEMAT'')) (\<lambda>_.
     bindA (wrapA ''failed to create the new chain in nat table'' (t_NewChain T ipt ''nat'' ''PLACEMAT'')) (\<lambda>_.
     bindA (wrapA ''failed to append the PLACEMAT rule in nat table''
       (t_Append T ipt ''nat'' ''POSTROUTING'' [''-j'', ''PLACEMAT''])) (\<lambda>_.
     wrapA ''failed to append the PLACEMAT rule in filter table''
       (t_Append T ipt ''filter'' ''FORWARD'' [''-j'', ''PLACEMAT'']))))"

definition CreateNatRules :: "'w iptables \<Rightarrow> ('w, unit) act" where
  "CreateNatRules T = bindA (newIptables T) (forA (createChains T))"

definition cleanupChains :: "'w iptables \<Rightarrow> proto \<Rightarrow> ('w, unit) act" where
  "cleanupChains T ipt =
     bindA (ignoreA (t_Delete T ipt ''filter'' ''FORWARD'' [''-j'', ''PLACEMAT''])) (\<lambda>_.
     bindA (ignoreA (t_Delete T ipt ''nat'' ''POSTROUTING'' [''-j'', ''PLACEMAT''])) (\<lambda>_.
     bindA (ignoreA (t_ClearChain T ipt ''filter'' ''PLACEMAT'')) (\<lambda>_.
     bindA (ignoreA (t_DeleteChain T ipt ''filter'' ''PLACEMAT'')) (\<lambda>_.
     bindA (ignoreA (t_ClearChain T ipt ''nat'' ''PLACEMAT'')) (\<lambda>_.
     ignoreA (t_DeleteChain T ipt ''nat'' ''PLACEMAT''))))))"

text \<open>An error of \<open>newIptables\<close> ends the cleanup with a warning.\<close>

definition CleanupNatRules :: "'w iptables \<Rightarrow> ('w, unit) act" where
  "CleanupNatRules T =
     bindA (tryA (newIptables T)) (\<lambda>r. case r of Inl e \<Rightarrow> retA () | Inr ipts \<Rightarrow> forA (cleanupChains T) ipts)"

definition acceptRules :: "'w iptables \<Rightarrow> string \<Rightarrow> proto \<Rightarrow> ('w, unit) act" where
  "acceptRules T ifName ipt =
     bindA (wrapA (''failed to append the accept rule to input interface '' @ ifName)
       (t_Append T ipt ''filter'' ''PLACEMAT'' [''-i'', ifName, ''-j'', ''ACCEPT''])) (\<lambda>_.
     wrapA (''failed to append the accept rule to output interface '' @ ifName)
       (t_Append T ipt ''filter'' ''PLACEMAT'' [''-o'', ifName, ''-j'', ''ACCEPT'']))"

definition appendAcceptRule :: "'w iptables \<Rightarrow> proto list \<Rightarrow> string \<Rightarrow> ('w, unit) act" where
  "appendAcceptRule T ipts ifName = forA (acceptRules T ifName) ipts"

definition appendMasqueradeRule :: "'w iptables \<Rightarrow> proto \<Rightarrow> string \<Rightarrow> ('w, unit) act" where
  "appendMasqueradeRule T ipt ipNet =
     t_Append T ipt ''nat'' ''PLACEMAT'' [''-s'', ipNet, ''!'', ''--destination'', ipNet, ''-j'', ''MASQUERADE'']"

subsection \<open>The contract of iptables\<close>

text \<open>
  A table maps its chains to their rules; a rule is a list of options, each but \<open>!\<close> with
  one argument, and jumps to the argument of \<open>-j\<close>.
\<close>

type_synonym table = "string \<rightharpoonup> string list list"

fun jump_target :: "string list \<Rightarrow> string option" where
  "jump_target (a # b # xs) =
     (if a = ''-j'' then Some b else if a = ''!'' then jump_target (b # xs) else jump_target xs)"
| "jump_target _ = None"

text \<open>A chain of the table jumps to \<open>c\<close>.\<close>

definition jumps_to :: "table \<Rightarrow> string \<Rightarrow> bool" where
  "jumps_to m c \<longleftrightarrow> (\<exists>d rs r. m d = Some rs \<and> r \<in> set rs \<and> jump_target r = Some c)"

definition target_ok :: "table \<Rightarrow> string list \<Rightarrow> bool" where
  "target_ok m r \<longleftrightarrow> (\<forall>c. jump_target r = Some c \<longrightarrow> c \<in> {''ACCEPT'', ''MASQUERADE''} \<or> m c \<noteq> None)"

definition upd :: "(proto \<Rightarrow> string \<Rightarrow> table) \<Rightarrow> proto \<Rightarrow> string \<Rightarrow> string \<Rightarrow> string list list option \<Rightarrow> proto \<Rightarrow> string \<Rightarrow> table" where
  "upd tb p t c v = tb(p := (tb p)(t := (tb p t)(c := v)))"

locale packet_filter =
  fixes T :: "'w iptables" and tbl :: "'w \<Rightarrow> proto \<Rightarrow> string \<Rightarrow> table"
  assumes new_law: "\<exists>w'. t_New T p w = (Ret (), w') \<and> tbl w' = tbl w"
    and newchain_law: "tbl w p t c = None \<Longrightarrow> \<exists>w'. t_NewChain T p t c w = (Ret (), w') \<and> tbl w' = upd (tbl w) p t c (Some [])"
    and newchain_exists: "tbl w p t c = Some rs \<Longrightarrow> \<exists>e w'. t_NewChain T p t c w = (Fail e, w') \<and> tbl w' = tbl w"
    and append_law: "tbl w p t c = Some rs \<Longrightarrow> target_ok (tbl w p t) r \<Longrightarrow>
      \<exists>w'. t_Append T p t c r w = (Ret (), w') \<and> tbl w' = upd (tbl w) p t c (Some (rs @ [r]))"
    and delete_law: "tbl w p t c = Some rs \<Longrightarrow> r \<in> set rs \<Longrightarrow>
      \<exists>w'. t_Delete T p t c r w = (Ret (), w') \<and> tbl w' = upd (tbl w) p t c (Some (remove1 r rs))"
    and delete_none: "(\<And>rs. tbl w p t c = Some rs \<Longrightarrow> r \<notin> set rs) \<Longrightarrow>
      \<exists>e w'. t_Delete T p t c r w = (Fail e, w') \<and> tbl w' = tbl w"
    and clear_law: "\<exists>w'. t_ClearChain T p t c w = (Ret (), w') \<and> tbl w' = upd (tbl w) p t c (Some [])"
    and deletechain_law: "tbl w p t c = Some [] \<Longrightarrow> \<not> jumps_to (tbl w p t) c \<Longrightarrow>
      \<exists>w'. t_DeleteChain T p t c w = (Ret (), w') \<and> tbl w' = upd (tbl w) p t c None"
    and deletechain_busy: "tbl w p t c = Some [] \<Longrightarrow> jumps_to (tbl w p t) c \<Longrightarrow>
      \<exists>e w'. t_DeleteChain T p t c w = (Fail e, w') \<and> tbl w' = tbl w"
begin

definition reaches :: "('w, 'a) act \<Rightarrow> 'w \<Rightarrow> (proto \<Rightarrow> string \<Rightarrow> table) \<Rightarrow> bool" where
  "reaches m w tb \<longleftrightarrow> (\<exists>x w'. m w = (Ret x, w') \<and> tbl w' = tb)"

lemma reaches_bind:
  assumes "reaches m w tb" "\<And>x w'. tbl w' = tb \<Longrightarrow> reaches (f x) w' tb'"
  shows "reaches (bindA m f) w tb'"
proof -
  obtain x w' where "m w = (Ret x, w')" "tbl w' = tb" using assms(1) by (auto simp: reaches_def)
  with assms(2) show ?thesis by (auto simp: reaches_def bindA_def)
qed

lemma reaches_wrap: "reaches m w tb \<Longrightarrow> reaches (wrapA msg m) w tb"
  by (auto simp: reaches_def)

lemma reaches_append: "tbl w p t c = Some rs \<Longrightarrow> target_ok (tbl w p t) r \<Longrightarrow>
    reaches (t_Append T p t c r) w (upd (tbl w) p t c (Some (rs @ [r])))"
  using append_law unfolding reaches_def by blast

lemma reaches_newchain: "tbl w p t c = None \<Longrightarrow> reaches (t_NewChain T p t c) w (upd (tbl w) p t c (Some []))"
  using newchain_law unfolding reaches_def by blast

text \<open>The three calls of the cleanup, with their errors dropped.\<close>

lemma reaches_delete:
  "reaches (ignoreA (t_Delete T p t c r)) w (upd (tbl w) p t c (map_option (remove1 r) (tbl w p t c)))"
proof (cases "\<exists>rs. tbl w p t c = Some rs \<and> r \<in> set rs")
  case True
  then obtain rs where rs: "tbl w p t c = Some rs" "r \<in> set rs" by blast
  from delete_law [OF rs] rs show ?thesis by (auto simp: reaches_def ignoreA_def)
next
  case False
  then have "upd (tbl w) p t c (map_option (remove1 r) (tbl w p t c)) = tbl w"
    by (cases "tbl w p t c") (auto simp: upd_def remove1_idem fun_upd_idem)
  moreover have "\<exists>e w'. t_Delete T p t c r w = (Fail e, w') \<and> tbl w' = tbl w"
    by (rule delete_none) (use False in auto)
  ultimately show ?thesis by (auto simp: reaches_def ignoreA_def)
qed

lemma reaches_clear: "reaches (ignoreA (t_ClearChain T p t c)) w (upd (tbl w) p t c (Some []))"
  using clear_law [of p t c w] by (auto simp: reaches_def ignoreA_def)

lemma reaches_deletechain:
  "tbl w p t c = Some [] \<Longrightarrow> reaches (ignoreA (t_DeleteChain T p t c)) w
     (if jumps_to (tbl w p t) c then tbl w else upd (tbl w) p t c None)"
  using deletechain_law [of w p t c] deletechain_busy [of w p t c] by (auto simp: reaches_def ignoreA_def)

end

subsection \<open>What creation and cleanup do to a table\<close>

abbreviation placemat_jump :: "string list" where "placemat_jump \<equiv> [''-j'', ''PLACEMAT'']"

text \<open>\<open>base\<close> is the built-in chain that is hooked.\<close>

definition created :: "string \<Rightarrow> table \<Rightarrow> table" where
  "created base m = m(''PLACEMAT'' \<mapsto> [], base := map_option (\<lambda>rs. rs @ [placemat_jump]) (m base))"

definition cleaned :: "string \<Rightarrow> table \<Rightarrow> table" where
  "cleaned base m =
     (let m1 = m(base := map_option (remove1 placemat_jump) (m base), ''PLACEMAT'' \<mapsto> [])
      in if jumps_to m1 ''PLACEMAT'' then m1 else m1(''PLACEMAT'' := None))"

text \<open>Both tables of a protocol.\<close>

definition both_tables :: "(string \<Rightarrow> table \<Rightarrow> table) \<Rightarrow> (string \<Rightarrow> table) \<Rightarrow> string \<Rightarrow> table" where
  "both_tables f ts = ts(''filter'' := f ''FORWARD'' (ts ''filter''), ''nat'' := f ''POSTROUTING'' (ts ''nat''))"

definition hookable :: "(string \<Rightarrow> table) \<Rightarrow> bool" where
  "hookable ts \<longleftrightarrow> ts ''filter'' ''FORWARD'' \<noteq> None \<and> ts ''nat'' ''POSTROUTING'' \<noteq> None \<and>
     ts ''filter'' ''PLACEMAT'' = None \<and> ts ''nat'' ''PLACEMAT'' = None"

text \<open>The accept rules of an interface.\<close>

definition accepting :: "string \<Rightarrow> string list list" where
  "accepting ifName = [[''-i'', ifName, ''-j'', ''ACCEPT''], [''-o'', ifName, ''-j'', ''ACCEPT'']]"

lemma upd_apply: "upd tb p t c v q s d = (if q = p \<and> s = t \<and> d = c then v else tb q s d)"
  by (simp add: upd_def)

context packet_filter
begin

lemma reaches_eq: "reaches m w tb \<Longrightarrow> tb = tb' \<Longrightarrow> reaches m w tb'"
  by simp

lemma reaches_ret: "tbl w = tb \<Longrightarrow> reaches (retA x) w tb"
  by (simp add: reaches_def retA_def)

lemma newIptables_ok: "\<exists>w'. newIptables T w = (Ret [IPv4, IPv6], w') \<and> tbl w' = tbl w"
proof -
  obtain w1 where 1: "t_New T IPv4 w = (Ret (), w1)" "tbl w1 = tbl w" using new_law by blast
  obtain w2 where 2: "t_New T IPv6 w1 = (Ret (), w2)" "tbl w2 = tbl w1" using new_law by blast
  from 1 2 show ?thesis by (simp add: newIptables_def bindA_def wrapA_def retA_def)
qed

lemma createChains_reaches:
  assumes "hookable (tbl w p)"
  shows "reaches (createChains T p) w ((tbl w)(p := both_tables created (tbl w p)))"
proof -
  obtain f n where fn: "tbl w p ''filter'' ''FORWARD'' = Some f" "tbl w p ''nat'' ''POSTROUTING'' = Some n"
    using assms by (auto simp: hookable_def)
  have none: "tbl w p ''filter'' ''PLACEMAT'' = None" "tbl w p ''nat'' ''PLACEMAT'' = None"
    using assms by (auto simp: hookable_def)
  show ?thesis
    unfolding createChains_def
    by (rule reaches_bind [OF reaches_wrap [OF reaches_newchain]], simp add: none,
        rule reaches_bind [OF reaches_wrap [OF reaches_newchain]], simp add: none upd_apply,
        rule reaches_bind [OF reaches_wrap [OF reaches_append [of _ _ _ _ n]]], simp add: fn upd_apply,
        simp add: target_ok_def upd_apply,
        rule reaches_eq [OF reaches_wrap [OF reaches_append [of _ _ _ _ f]]], simp add: fn upd_apply,
        simp add: target_ok_def upd_apply, simp add: fun_eq_iff upd_apply both_tables_def created_def fn)
qed

lemma cleanupChains_reaches: "reaches (cleanupChains T p) w ((tbl w)(p := both_tables cleaned (tbl w p)))"
proof -
  let ?f = "(tbl w p ''filter'')(''FORWARD'' := map_option (remove1 placemat_jump) (tbl w p ''filter'' ''FORWARD''), ''PLACEMAT'' \<mapsto> [])"
  let ?n = "(tbl w p ''nat'')(''POSTROUTING'' := map_option (remove1 placemat_jump) (tbl w p ''nat'' ''POSTROUTING''), ''PLACEMAT'' \<mapsto> [])"
  let ?tb3 = "(tbl w)(p := (tbl w p)(''filter'' := ?f,
     ''nat'' := (tbl w p ''nat'')(''POSTROUTING'' := map_option (remove1 placemat_jump) (tbl w p ''nat'' ''POSTROUTING''))))"
  let ?tb4 = "?tb3(p := (?tb3 p)(''filter'' := cleaned ''FORWARD'' (tbl w p ''filter'')))"
  let ?tb5 = "?tb4(p := (?tb4 p)(''nat'' := ?n))"
  show ?thesis
    unfolding cleanupChains_def
  proof (rule reaches_bind [OF reaches_delete], rule reaches_bind [OF reaches_delete],
      rule reaches_bind [OF reaches_eq [OF reaches_clear, of _ _ _ _ ?tb3]], goal_cases)
    case (1 x w1 y w2)
    then show ?case by (simp add: fun_eq_iff upd_apply)
  next
    case (2 x w1 y w2 z w3)
    then have w3: "tbl w3 = ?tb3" by blast
    have j: "tbl w3 p ''filter'' = ?f" by (simp add: w3)
    have "reaches (ignoreA (t_DeleteChain T p ''filter'' ''PLACEMAT'')) w3 ?tb4"
      by (rule reaches_eq [OF reaches_deletechain], simp add: j, intro ext, unfold j, simp add: w3 upd_apply cleaned_def Let_def)
    then show ?case
    proof (rule reaches_bind, goal_cases)
      case (1 a w4)
      show ?case
      proof (rule reaches_bind [OF reaches_eq [OF reaches_clear, of _ _ _ _ ?tb5]], goal_cases)
        case 1
        with \<open>tbl w4 = ?tb4\<close> show ?case by (simp add: fun_eq_iff upd_apply)
      next
        case (2 b w5)
        then have w5: "tbl w5 = ?tb5" by blast
        have j: "tbl w5 p ''nat'' = ?n" by (simp add: w5)
        show ?case
          by (rule reaches_eq [OF reaches_deletechain], simp add: j, intro ext, unfold j,
              simp add: w5 upd_apply cleaned_def Let_def both_tables_def)
      qed
    qed
  qed
qed

lemma forA_protos_reaches:
  assumes "\<And>w p. P (tbl w p) \<Longrightarrow> reaches (f p) w ((tbl w)(p := g (tbl w p)))" "\<And>p. P (tbl w p)"
  shows "reaches (forA f [IPv4, IPv6]) w (\<lambda>p. g (tbl w p))"
proof -
  have step2: "reaches (bindA (f IPv6) (\<lambda>_. retA ())) w1 (\<lambda>p. g (tbl w p))" if "tbl w1 = (tbl w)(IPv4 := g (tbl w IPv4))" for w1
  proof -
    have v: "tbl w1 IPv6 = tbl w IPv6" by (simp add: that)
    have "((tbl w)(IPv4 := g (tbl w IPv4)))(IPv6 := g (tbl w IPv6)) = (\<lambda>p. g (tbl w p))"
      by (rule ext, case_tac p) auto
    with assms(1) [of w1 IPv6] assms(2) [of IPv6] that v have "reaches (f IPv6) w1 (\<lambda>p. g (tbl w p))" by simp
    then show ?thesis by (rule reaches_bind) (rule reaches_ret)
  qed
  show ?thesis unfolding forA.simps by (rule reaches_bind [OF assms(1) [OF assms(2)]]) (rule step2)
qed

lemma CreateNatRules_reaches:
  assumes "\<And>p. hookable (tbl w p)"
  shows "reaches (CreateNatRules T) w (\<lambda>p. both_tables created (tbl w p))"
proof -
  obtain w1 where w1: "newIptables T w = (Ret [IPv4, IPv6], w1)" "tbl w1 = tbl w" using newIptables_ok by blast
  have "reaches (forA (createChains T) [IPv4, IPv6]) w1 (\<lambda>p. both_tables created (tbl w1 p))"
    by (rule forA_protos_reaches [where P = hookable]) (use assms w1 createChains_reaches in auto)
  with w1 show ?thesis by (simp add: CreateNatRules_def bindA_def reaches_def)
qed

lemma CleanupNatRules_reaches: "reaches (CleanupNatRules T) w (\<lambda>p. both_tables cleaned (tbl w p))"
proof -
  obtain w1 where w1: "newIptables T w = (Ret [IPv4, IPv6], w1)" "tbl w1 = tbl w" using newIptables_ok by blast
  have "reaches (forA (cleanupChains T) [IPv4, IPv6]) w1 (\<lambda>p. both_tables cleaned (tbl w1 p))"
    by (rule forA_protos_reaches [where P = "\<lambda>_. True"]) (use cleanupChains_reaches in auto)
  with w1 show ?thesis by (simp add: CleanupNatRules_def bindA_def tryA_def reaches_def)
qed

lemma acceptRules_reaches:
  assumes "tbl w p ''filter'' ''PLACEMAT'' = Some rs"
  shows "reaches (acceptRules T ifName p) w (upd (tbl w) p ''filter'' ''PLACEMAT'' (Some (rs @ accepting ifName)))"
proof -
  let ?in = "[''-i'', ifName, ''-j'', ''ACCEPT'']" and ?out = "[''-o'', ifName, ''-j'', ''ACCEPT'']"
  have t: "target_ok m ?in" "target_ok m ?out" for m by (auto simp: target_ok_def)
  have "reaches (t_Append T p ''filter'' ''PLACEMAT'' ?out) w1 (upd (tbl w) p ''filter'' ''PLACEMAT'' (Some (rs @ accepting ifName)))"
    if "tbl w1 = upd (tbl w) p ''filter'' ''PLACEMAT'' (Some (rs @ [?in]))" for w1
    by (rule reaches_eq [OF reaches_append [of _ _ _ _ "rs @ [?in]", OF _ t(2)]])
      (simp_all add: that fun_eq_iff upd_apply accepting_def)
  then show ?thesis
    unfolding acceptRules_def
    by (intro reaches_bind [OF reaches_wrap [OF reaches_append [OF assms t(1)]]] reaches_wrap)
qed

end

lemma cleaned_created:
  assumes "m base \<noteq> None" "m ''PLACEMAT'' = None" "\<not> jumps_to m ''PLACEMAT''" "base \<noteq> ''PLACEMAT''"
    "\<And>c. c \<noteq> ''PLACEMAT'' \<Longrightarrow> m' c = created base m c"
  shows "cleaned base m' = m"
proof -
  obtain rs where rs: "m base = Some rs" using assms(1) by blast
  have "placemat_jump \<notin> set rs" using assms(3) rs by (force simp: jumps_to_def)
  then have b: "m' base = Some (rs @ [placemat_jump])" "remove1 placemat_jump (rs @ [placemat_jump]) = rs"
    using assms(4,5) rs by (auto simp: created_def remove1_append)
  then have m1: "m'(base := map_option (remove1 placemat_jump) (m' base), ''PLACEMAT'' \<mapsto> []) = m(''PLACEMAT'' \<mapsto> [])"
    using assms(4,5) rs by (auto simp: fun_eq_iff created_def)
  have "\<not> jumps_to (m(''PLACEMAT'' \<mapsto> [])) ''PLACEMAT''" using assms(3) by (auto simp: jumps_to_def split: if_splits)
  then show ?thesis unfolding cleaned_def m1 using assms(2) by (auto simp: Let_def fun_eq_iff)
qed

lemma cleaned_both:
  assumes "\<And>p. hookable (tb p)" "\<And>p. \<not> jumps_to (tb p ''filter'') ''PLACEMAT'' \<and> \<not> jumps_to (tb p ''nat'') ''PLACEMAT''"
    "\<forall>p t c. t \<in> {''filter'', ''nat''} \<and> c = ''PLACEMAT'' \<or> tb' p t c = both_tables created (tb p) t c"
  shows "(\<lambda>p. both_tables cleaned (tb' p)) = tb"
proof -
  have ag: "c \<noteq> ''PLACEMAT'' \<Longrightarrow> tb' p t c = both_tables created (tb p) t c" for p t c using assms(3) by metis
  have f: "cleaned ''FORWARD'' (tb' p ''filter'') = tb p ''filter''" for p
    by (rule cleaned_created) (use assms(1) [of p] assms(2) [of p] in \<open>auto simp: ag hookable_def both_tables_def\<close>)
  have n: "cleaned ''POSTROUTING'' (tb' p ''nat'') = tb p ''nat''" for p
    by (rule cleaned_created) (use assms(1) [of p] assms(2) [of p] in \<open>auto simp: ag hookable_def both_tables_def\<close>)
  have "both_tables cleaned (tb' p) t c = tb p t c" for p t c
    using assms(3) [rule_format, of t c p] f n by (auto simp: both_tables_def)
  then show ?thesis by (intro ext)
qed

subsection \<open>An executable iptables\<close>

record refKernel = refFs +
  rk_tables :: "proto \<Rightarrow> string \<Rightarrow> table"

definition set_chain :: "proto \<Rightarrow> string \<Rightarrow> string \<Rightarrow> string list list option \<Rightarrow> ('z refKernel_scheme, unit) act" where
  "set_chain p t c v w = (Ret (), w\<lparr>rk_tables := upd (rk_tables w) p t c v\<rparr>)"

definition refIptables :: "'z refKernel_scheme iptables" where
  "refIptables =
     \<lparr>t_New = (\<lambda>p. retA ()),
      t_NewChain = (\<lambda>p t c w. if rk_tables w p t c = None then set_chain p t c (Some []) w else failA (ErrNew ''Chain already exists.'') w),
      t_Append = (\<lambda>p t c r w. case rk_tables w p t c of
          Some rs \<Rightarrow> if target_ok (rk_tables w p t) r then set_chain p t c (Some (rs @ [r])) w else failA (ErrNew ''No chain/target/match by that name.'') w
        | None \<Rightarrow> failA (ErrNew ''No chain/target/match by that name.'') w),
      t_Delete = (\<lambda>p t c r w. case rk_tables w p t c of
          Some rs \<Rightarrow> if r \<in> set rs then set_chain p t c (Some (remove1 r rs)) w else failA (ErrNew ''Bad rule'') w
        | None \<Rightarrow> failA (ErrNew ''No chain/target/match by that name.'') w),
      t_ClearChain = (\<lambda>p t c. set_chain p t c (Some [])),
      t_DeleteChain = (\<lambda>p t c w. if rk_tables w p t c = Some [] \<and> \<not> jumps_to (rk_tables w p t) c then set_chain p t c None w
        else failA (ErrNew ''Too many links.'') w)\<rparr>"

interpretation ript: packet_filter refIptables rk_tables
  by unfold_locales (auto simp: refIptables_def retA_def failA_def set_chain_def split: option.splits)

text \<open>
  C24. On tables that hold no chain named PLACEMAT and no jump to one, creating the NAT rules
  succeeds and adds an empty chain and a jump to it to the filter and nat tables of both
  protocols; whatever rules are put into that chain afterwards, the cleanup restores every
  table exactly.
\<close>

theorem nat_rules_restored:
  assumes "packet_filter T tbl" "\<And>p. hookable (tbl w p)"
    "\<And>p. \<not> jumps_to (tbl w p ''filter'') ''PLACEMAT'' \<and> \<not> jumps_to (tbl w p ''nat'') ''PLACEMAT''"
  shows "\<exists>w1. CreateNatRules T w = (Ret (), w1) \<and> tbl w1 = (\<lambda>p. both_tables created (tbl w p)) \<and>
    (\<forall>w2. (\<forall>p t c. t \<in> {''filter'', ''nat''} \<and> c = ''PLACEMAT'' \<or> tbl w2 p t c = tbl w1 p t c) \<longrightarrow>
      (\<exists>w3. CleanupNatRules T w2 = (Ret (), w3) \<and> tbl w3 = tbl w))"
proof -
  obtain w1 where w1: "CreateNatRules T w = (Ret (), w1)" "tbl w1 = (\<lambda>p. both_tables created (tbl w p))"
    using packet_filter.CreateNatRules_reaches [OF assms(1,2)] by (auto simp: packet_filter.reaches_def [OF assms(1)])
  moreover have "\<exists>w3. CleanupNatRules T w2 = (Ret (), w3) \<and> tbl w3 = tbl w"
    if ag: "\<forall>p t c. t \<in> {''filter'', ''nat''} \<and> c = ''PLACEMAT'' \<or> tbl w2 p t c = tbl w1 p t c" for w2
    using packet_filter.CleanupNatRules_reaches [OF assms(1), of w2] cleaned_both [OF assms(2,3), of "tbl w2"] ag unfolding w1(2)
    by (auto simp: packet_filter.reaches_def [OF assms(1)])
  ultimately show ?thesis by blast
qed

definition exampleKernel :: refKernel where
  "exampleKernel =
     \<lparr>rf_file = Map.empty, rf_dirs = [], rf_src = Map.empty, rf_dst = Map.empty, rf_next = 0, rf_faults = [],
      rk_tables = (\<lambda>p t. [''FORWARD'' \<mapsto> [], ''POSTROUTING'' \<mapsto> [[''-s'', ''10.1.0.0/16'', ''-j'', ''MASQUERADE'']]])\<rparr>"

theorem nat_rules_restored_witness:
  "\<exists>w1 w3. CreateNatRules refIptables exampleKernel = (Ret (), w1) \<and> rk_tables w1 IPv6 ''nat'' ''PLACEMAT'' = Some [] \<and>
    CleanupNatRules refIptables w1 = (Ret (), w3) \<and> rk_tables w3 = rk_tables exampleKernel"
proof -
  have h: "hookable (rk_tables exampleKernel p)" for p by (simp add: hookable_def exampleKernel_def)
  have j: "\<not> jumps_to (rk_tables exampleKernel p ''filter'') ''PLACEMAT'' \<and> \<not> jumps_to (rk_tables exampleKernel p ''nat'') ''PLACEMAT''" for p
    by (auto simp: jumps_to_def exampleKernel_def split: if_splits)
  obtain w1 where w1: "CreateNatRules refIptables exampleKernel = (Ret (), w1)"
    "rk_tables w1 = (\<lambda>p. both_tables created (rk_tables exampleKernel p))"
    and restore: "\<forall>w2 :: refKernel. (\<forall>p t c. t \<in> {''filter'', ''nat''} \<and> c = ''PLACEMAT'' \<or> rk_tables w2 p t c = rk_tables w1 p t c) \<longrightarrow>
      (\<exists>w3. CleanupNatRules refIptables w2 = (Ret (), w3) \<and> rk_tables w3 = rk_tables exampleKernel)"
    using nat_rules_restored [of refIptables rk_tables exampleKernel, OF ript.packet_filter_axioms h j] by blast
  have "rk_tables w1 IPv6 ''nat'' ''PLACEMAT'' = Some []" by (simp add: w1(2) both_tables_def created_def)
  moreover obtain w3 where "CleanupNatRules refIptables w1 = (Ret (), w3)" "rk_tables w3 = rk_tables exampleKernel"
    using restore [rule_format, of w1] by auto
  ultimately show ?thesis using w1(1) by blast
qed

end
