(* ===== verification/Ip.thy ===== *)
theory Ip
  imports Wire
begin

text \<open>
  What the program uses of Go's package \<open>net\<close> on addresses: \<open>ParseIP\<close>, \<open>IP.To4\<close>,
  \<open>IP.String\<close>, \<open>IPMask.Size\<close>, \<open>IPNet.Contains\<close> and \<open>IPNet.String\<close>. An address is its
  bytes, four or sixteen of them, or none for the nil value. The main lemma says that
  \<open>Contains\<close> compares the leading bits that the mask covers.
\<close>

type_synonym ip = bytes

record ipNet =
  ip_IP :: ip
  ip_Mask :: bytes

subsection \<open>Addresses\<close>

definition v4InV6Prefix :: bytes where
  "v4InV6Prefix = replicate 10 0 @ [0xff, 0xff]"

definition To4 :: "ip \<Rightarrow> ip option" where
  "To4 a =
     (if length a = 4 then Some a
      else if length a = 16 \<and> take 12 a = v4InV6Prefix then Some (drop 12 a)
      else None)"

fun simpleMaskLength :: "bytes \<Rightarrow> nat option" where
  "simpleMaskLength [] = Some 0"
| "simpleMaskLength (v # m) =
     (if v = 0xff then map_option (\<lambda>n. n + 8) (simpleMaskLength m)
      else
        let ones = length (takeWhile (\<lambda>i. bit v (7 - i)) [0..<8])
        in if push_bit ones v \<noteq> 0 \<or> \<not> list_all (\<lambda>b. b = 0) m then None else Some ones)"

text \<open>The first result of \<open>IPMask.Size\<close>.\<close>

definition Mask_Size :: "bytes \<Rightarrow> nat" where
  "Mask_Size m = (case simpleMaskLength m of None \<Rightarrow> 0 | Some n \<Rightarrow> n)"

definition networkNumberAndMask :: "ipNet \<Rightarrow> (ip \<times> bytes) option" where
  "networkNumberAndMask n =
     (case (case To4 (ip_IP n) of Some a \<Rightarrow> Some a | None \<Rightarrow> if length (ip_IP n) = 16 then Some (ip_IP n) else None) of
        None \<Rightarrow> None
      | Some a \<Rightarrow>
          if length (ip_Mask n) = 4 then (if length a \<noteq> 4 then None else Some (a, ip_Mask n))
          else if length (ip_Mask n) = 16 then Some (a, if length a = 4 then drop 12 (ip_Mask n) else ip_Mask n)
          else None)"

definition ipNet_Contains :: "ipNet \<Rightarrow> ip \<Rightarrow> bool" where
  "ipNet_Contains n a =
     (let (nn, m) = (case networkNumberAndMask n of None \<Rightarrow> ([], []) | Some p \<Rightarrow> p);
          x = (case To4 a of Some y \<Rightarrow> y | None \<Rightarrow> a)
      in length x = length nn \<and> list_all (\<lambda>i. nn ! i AND m ! i = x ! i AND m ! i) [0..<length x])"

subsection \<open>Text\<close>

fun join_with :: "string \<Rightarrow> string list \<Rightarrow> string" where
  "join_with sep [] = []"
| "join_with sep [x] = x"
| "join_with sep (x # xs) = x @ sep @ join_with sep xs"

text \<open>Hexadecimal without leading zeros.\<close>

function fmt_hex :: "nat \<Rightarrow> string" where
  "fmt_hex n = (if n < 16 then [hex_digit n] else fmt_hex (n div 16) @ [hex_digit (n mod 16)])"
  by pat_completeness auto
termination by (relation "measure id") auto

declare fmt_hex.simps [simp del]

fun groups16 :: "bytes \<Rightarrow> nat list" where
  "groups16 (a # b # bs) = (256 * unat a + unat b) # groups16 bs"
| "groups16 _ = []"

text \<open>The longest run of zero groups, the first of equal ones, at least two groups long.\<close>

definition zero_run :: "nat list \<Rightarrow> nat \<Rightarrow> nat" where
  "zero_run gs i = length (takeWhile (\<lambda>g. g = 0) (drop i gs))"

definition longest_run :: "nat list \<Rightarrow> (nat \<times> nat) option" where
  "longest_run gs =
     fold (\<lambda>i best. let n = zero_run gs i in
        if n \<ge> 2 \<and> (case best of None \<Rightarrow> True | Some (_, k) \<Rightarrow> k < n) then Some (i, n) else best)
       [0..<length gs] None"

definition ip6_String :: "bytes \<Rightarrow> string" where
  "ip6_String a =
     (let gs = groups16 a
      in case longest_run gs of
           None \<Rightarrow> join_with '':'' (map fmt_hex gs)
         | Some (i, n) \<Rightarrow>
             join_with '':'' (map fmt_hex (take i gs)) @ ''::'' @ join_with '':'' (map fmt_hex (drop (i + n) gs)))"

definition ip_String :: "ip \<Rightarrow> string" where
  "ip_String a =
     (if length a = 0 then ''<nil>''
      else case To4 a of
        Some p4 \<Rightarrow> join_with ''.'' (map (\<lambda>b. fmt_d (unat b)) p4)
      | None \<Rightarrow> if length a = 16 then ip6_String a else ''?'' @ hex_string a)"

definition ipNet_String :: "ipNet \<Rightarrow> string" where
  "ipNet_String n =
     (case networkNumberAndMask n of
        None \<Rightarrow> ''<nil>''
      | Some (nn, m) \<Rightarrow>
          (case simpleMaskLength m of
             None \<Rightarrow> ip_String nn @ ''/'' @ hex_string m
           | Some l \<Rightarrow> ip_String nn @ ''/'' @ fmt_d l))"

subsection \<open>Parsing\<close>

fun split_on :: "char \<Rightarrow> string \<Rightarrow> string list" where
  "split_on s [] = [[]]"
| "split_on s (c # cs) =
     (if c = s then [] # split_on s cs
      else (case split_on s cs of [] \<Rightarrow> [[c]] | x # xs \<Rightarrow> (c # x) # xs))"

definition is_digit :: "char \<Rightarrow> bool" where
  "is_digit c \<longleftrightarrow> c \<in> set ''0123456789''"

text \<open>A field of a dotted quad: digits, no leading zero, at most 255.\<close>

definition ip4_field :: "string \<Rightarrow> byte option" where
  "ip4_field s =
     (let v = foldl (\<lambda>n c. 10 * n + (of_char c - 48)) (0 :: nat) s
      in if s \<noteq> [] \<and> list_all is_digit s \<and> (hd s = CHR ''0'' \<longrightarrow> length s = 1) \<and> length s \<le> 3 \<and> v \<le> 255
         then Some (of_nat v) else None)"

fun all_some :: "'a option list \<Rightarrow> 'a list option" where
  "all_some [] = Some []"
| "all_some (x # xs) = Option.bind x (\<lambda>y. map_option ((#) y) (all_some xs))"

definition parseIPv4 :: "string \<Rightarrow> bytes option" where
  "parseIPv4 s = (let fs = split_on CHR ''.'' s in if length fs = 4 then all_some (map ip4_field fs) else None)"

definition hex_val :: "char \<Rightarrow> nat option" where
  "hex_val c =
     (let n = of_char c :: nat
      in if 48 \<le> n \<and> n \<le> 57 then Some (n - 48)
         else if 97 \<le> n \<and> n \<le> 102 then Some (n - 87)
         else if 65 \<le> n \<and> n \<le> 70 then Some (n - 55) else None)"

text \<open>
  The loop of \<open>parseIPv6\<close>: the bytes so far, where the ellipsis was seen, and the rest of
  the text. It stops at sixteen bytes, at the end of the text, or with an error.
\<close>

function (sequential) ip6_loop :: "bytes \<Rightarrow> nat option \<Rightarrow> string \<Rightarrow> (bytes \<times> nat option \<times> string) option" where
  "ip6_loop acc ell s =
     (if 16 \<le> length acc then Some (acc, ell, s)
      else
        let ds = takeWhile (\<lambda>c. hex_val c \<noteq> None) s;
            v = foldl (\<lambda>n c. 16 * n + (case hex_val c of Some d \<Rightarrow> d | None \<Rightarrow> 0)) (0 :: nat) ds;
            rest = drop (length ds) s
        in if ds = [] \<or> 4 < length ds then None
           else if rest \<noteq> [] \<and> hd rest = CHR ''.'' then
             (if ell = None \<and> length acc \<noteq> 12 \<or> 12 < length acc then None
              else map_option (\<lambda>b. (acc @ b, ell, [])) (parseIPv4 s))
           else
             let acc' = acc @ [of_nat (v div 256), of_nat v]
             in case rest of
                  [] \<Rightarrow> Some (acc', ell, [])
                | c # r \<Rightarrow>
                    if c \<noteq> CHR '':'' \<or> r = [] then None
                    else if hd r = CHR '':'' then
                      (if ell \<noteq> None then None
                       else if List.tl r = [] then Some (acc', Some (length acc'), [])
                       else ip6_loop acc' (Some (length acc')) (List.tl r))
                    else ip6_loop acc' ell r)"
  by pat_completeness auto
termination by (relation "measure (\<lambda>(acc, ell, s). 16 - length acc)") auto

declare ip6_loop.simps [simp del]

definition parseIPv6 :: "string \<Rightarrow> bytes option" where
  "parseIPv6 s =
     (let leading = (take 2 s = ''::'')
      in case (if leading \<and> length s = 2 then Some ([], Some 0, [])
               else if leading then ip6_loop [] (Some 0) (drop 2 s) else ip6_loop [] None s) of
           None \<Rightarrow> None
         | Some (acc, ell, rest) \<Rightarrow>
             if rest \<noteq> [] then None
             else (case ell of
                 None \<Rightarrow> if length acc < 16 then None else Some acc
               | Some e \<Rightarrow> if length acc < 16 then Some (take e acc @ replicate (16 - length acc) 0 @ drop e acc) else None))"

text \<open>\<open>net.ParseIP\<close>: the first dot, colon or percent sign decides; nil is the empty list.\<close>

definition ParseIP :: "string \<Rightarrow> ip" where
  "ParseIP s =
     (case filter (\<lambda>c. c \<in> set ''.:%'') s of
        [] \<Rightarrow> []
      | c # _ \<Rightarrow>
          if c = CHR ''.'' then (case parseIPv4 s of None \<Rightarrow> [] | Some a \<Rightarrow> v4InV6Prefix @ a)
          else if c = CHR '':'' then (case parseIPv6 s of None \<Rightarrow> [] | Some a \<Rightarrow> a)
          else [])"

subsection \<open>Containment is agreement on a prefix\<close>

text \<open>The bits of an address, most significant first.\<close>

definition addr_bit :: "bytes \<Rightarrow> nat \<Rightarrow> bool" where
  "addr_bit a k = bit (a ! (k div 8)) (7 - k mod 8)"

lemma and_eq_iff_bits: "(a :: byte) AND m = b AND m \<longleftrightarrow> (\<forall>i < 8. bit m i \<longrightarrow> bit a i = bit b i)"
  by (auto simp: bit_eq_iff bit_and_iff)

lemma addr_bit_index:
  fixes i n j :: nat
  assumes "i < n" "j < 8"
  obtains k where "k < 8 * n" "k div 8 = i" "7 - k mod 8 = j"
proof
  have "(8 * i + (7 - j)) mod 8 = 7 - j" "(8 * i + (7 - j)) div 8 = i"
    using mod_mult_self4 [of 8 i "7 - j"] div_mult_self4 [of 8 i "7 - j"] assms(2) by auto
  then show "8 * i + (7 - j) < 8 * n" "(8 * i + (7 - j)) div 8 = i" "7 - (8 * i + (7 - j)) mod 8 = j"
    using assms by linarith+
qed

lemma masked_eq_iff:
  "list_all (\<lambda>i. a ! i AND m ! i = b ! i AND m ! i) [0..<n] \<longleftrightarrow>
   (\<forall>k < 8 * n. addr_bit m k \<longrightarrow> addr_bit a k = addr_bit b k)" (is "?l = ?r")
proof
  assume l: ?l
  show ?r
  proof (intro allI impI)
    fix k assume "k < 8 * n" "addr_bit m k"
    then show "addr_bit a k = addr_bit b k"
      using l by (auto simp: addr_bit_def list_all_iff and_eq_iff_bits)
  qed
next
  assume r: ?r
  show ?l unfolding list_all_iff and_eq_iff_bits
  proof (intro ballI allI impI)
    fix i j :: nat assume "i \<in> set [0..<n]" "j < 8" "bit (m ! i) j"
    then show "bit (a ! i) j = bit (b ! i) j"
      using r by (auto simp: addr_bit_def elim!: addr_bit_index [of i n j])
  qed
qed

lemma addr_bit_Cons: "addr_bit (v # m) k = (if k < 8 then bit v (7 - k) else addr_bit m (k - 8))"
proof (cases "k < 8")
  case False
  then have "k div 8 = Suc ((k - 8) div 8)" "k mod 8 = (k - 8) mod 8" by (auto simp: le_div_geq le_mod_geq)
  with False show ?thesis by (simp add: addr_bit_def)
qed (simp add: addr_bit_def)

lemma leading_ones:
  fixes v :: byte
  assumes "push_bit n v = 0" "n = length (takeWhile (\<lambda>i. bit v (7 - i)) [0..<8])" "k < 8"
  shows "bit v (7 - k) \<longleftrightarrow> k < n"
proof
  assume k: "k < n"
  then have "takeWhile (\<lambda>i. bit v (7 - i)) [0..<8] ! k \<in> set (takeWhile (\<lambda>i. bit v (7 - i)) [0..<8])"
    unfolding assms(2) by (rule nth_mem)
  moreover have "takeWhile (\<lambda>i. bit v (7 - i)) [0..<8] ! k = k"
    using k assms(2,3) by (simp add: takeWhile_nth)
  ultimately show "bit v (7 - k)" by (metis set_takeWhileD)
next
  assume b: "bit v (7 - k)"
  show "k < n"
  proof (rule ccontr)
    assume "\<not> k < n"
    then have "bit (push_bit n v) (7 - k + n)" using b assms(3) by (auto simp: bit_push_bit_iff)
    with assms(1) show False by simp
  qed
qed

lemma simpleMaskLength_bits:
  "simpleMaskLength m = Some n \<Longrightarrow> k < 8 * length m \<Longrightarrow> addr_bit m k \<longleftrightarrow> k < n"
proof (induction m arbitrary: n k)
  case (Cons v m)
  show ?case
  proof (cases "v = 0xff")
    case True
    then obtain n' where n': "simpleMaskLength m = Some n'" "n = n' + 8" using Cons.prems(1) by auto
    have "bit (0xff :: byte) (7 - k)" if "k < 8"
      using that by (auto simp: bit_numeral_rec less_Suc_eq numeral_eq_Suc)
    with Cons.IH [OF n'(1), of "k - 8"] Cons.prems(2) n'(2) True show ?thesis by (auto simp: addr_bit_Cons)
  next
    case False
    with Cons.prems(1) have n: "n = length (takeWhile (\<lambda>i. bit v (7 - i)) [0..<8])" "push_bit n v = 0" "list_all (\<lambda>b. b = 0) m"
      by (auto simp: Let_def split: if_splits)
    have "n \<le> 8" using n(1) length_takeWhile_le [of _ "[0..<8]"] by fastforce
    moreover have "\<not> addr_bit m (k - 8)" if "8 \<le> k"
      using n(3) Cons.prems(2) that by (auto simp: addr_bit_def list_all_length)
    ultimately show ?thesis using leading_ones [OF n(2,1)] by (auto simp: addr_bit_Cons)
  qed
qed simp

lemma networkNumber_lengths: "networkNumberAndMask n = Some (nn, m) \<Longrightarrow> length m = length nn"
  by (auto simp: networkNumberAndMask_def To4_def split: option.splits if_splits)

lemma Contains_prefix:
  assumes "networkNumberAndMask n = Some (nn, m)" "simpleMaskLength m = Some l"
  shows "ipNet_Contains n a \<longleftrightarrow>
    (let x = (case To4 a of Some y \<Rightarrow> y | None \<Rightarrow> a)
     in length x = length nn \<and> (\<forall>k < l. k < 8 * length nn \<longrightarrow> addr_bit nn k = addr_bit x k))"
  using assms simpleMaskLength_bits [OF assms(2)] networkNumber_lengths [OF assms(1)]
  by (auto simp: ipNet_Contains_def Let_def masked_eq_iff)

end
