(* ===== verification/Links.thy ===== *)
theory Links
  imports Firewall Ip
begin

text \<open>
  Network links: what the program uses of \<open>vishvananda/netlink\<close>, as the parameter
  \<open>netlink\<close>, and \<open>v2/pkg/dcnet/link.go\<close>. The locale \<open>link_host\<close> is the documented
  behaviour, over a view of the links by name: a call whose preconditions hold succeeds and
  has its effect, and no call touches the packet filter. Random bytes come from the explicit
  entropy source beside the state of the host.
\<close>

subsection \<open>Host and entropy\<close>

record 'w env =
  env_host :: 'w
  env_rng :: rng

definition onHost :: "('w, 'a) act \<Rightarrow> ('w env, 'a) act" where
  "onHost m s = (case m (env_host s) of (r, w) \<Rightarrow> (r, s\<lparr>env_host := w\<rparr>))"

definition onRng :: "(rng, 'a) act \<Rightarrow> ('w env, 'a) act" where
  "onRng m s = (case m (env_rng s) of (r, g) \<Rightarrow> (r, s\<lparr>env_rng := g\<rparr>))"

lemma onHost_eq: "m (env_host s) = (r, w) \<Longrightarrow> onHost m s = (r, s\<lparr>env_host := w\<rparr>)"
  by (simp add: onHost_def)

lemma onRng_eq: "m (env_rng s) = (r, g) \<Longrightarrow> onRng m s = (r, s\<lparr>env_rng := g\<rparr>)"
  by (simp add: onRng_def)

subsection \<open>Links\<close>

record link =
  l_name :: string
  l_mtu :: int
  l_isBridge :: bool

text \<open>The links the program adds: a bridge, or a tap with the number of queues of a multi-queue one.\<close>

datatype linkReq = BridgeReq string | TapReq string "int option"

record 'w netlink =
  n_LinkByName :: "string \<Rightarrow> ('w, link) act"
  n_LinkAdd :: "linkReq \<Rightarrow> ('w, unit) act"
  n_LinkDel :: "string \<Rightarrow> ('w, unit) act"
  n_LinkSetMTU :: "string \<Rightarrow> int \<Rightarrow> ('w, unit) act"
  n_LinkSetUp :: "string \<Rightarrow> ('w, unit) act"
  n_LinkSetMaster :: "string \<Rightarrow> string \<Rightarrow> ('w, unit) act"
  n_AddrAdd :: "string \<Rightarrow> ipNet \<Rightarrow> ('w, unit) act"
  n_LinkList :: "('w, string list) act"
  n_ParseAddr :: "string \<Rightarrow> ipNet res"
  n_EnableIP4Forward :: "('w, unit) act"
  n_EnableIP6Forward :: "('w, unit) act"

definition LinkTypeVeth :: string where "LinkTypeVeth = ''veth''"
definition LinkTypeTap :: string where "LinkTypeTap = ''tap''"
definition link_prefix :: string where "link_prefix = ''pm_''"

definition RandomLinkName :: "string \<Rightarrow> (rng, string) act" where
  "RandomLinkName typ g =
     (case rand_read 4 g of
        (Ret entropy, g') \<Rightarrow> (Ret (link_prefix @ typ @ hex_string entropy), g')
      | (Fail e, g') \<Rightarrow> (Fail (ErrNew (''failed to generate random link name: '' @ err_string e)), g')
      | (Panic p, g') \<Rightarrow> (Panic p, g'))"

definition hasPrefix :: "string \<Rightarrow> string \<Rightarrow> bool" where
  "hasPrefix s p \<longleftrightarrow> take (length p) s = p"

definition CleanupAllLinks :: "'w netlink \<Rightarrow> ('w, unit) act" where
  "CleanupAllLinks N =
     bindA (tryA (n_LinkList N)) (\<lambda>r.
     case r of
       Inl e \<Rightarrow> retA ()
     | Inr links \<Rightarrow> forA (\<lambda>link. if hasPrefix link link_prefix then ignoreA (n_LinkDel N link) else retA ()) links)"

subsection \<open>The contract of netlink\<close>

datatype linkKind = KBridge | KTap "int option" | KOther

record linkState =
  ls_kind :: linkKind
  ls_mtu :: int
  ls_up :: bool
  ls_master :: "string option"
  ls_addrs :: "ipNet list"

fun req_name :: "linkReq \<Rightarrow> string" where
  "req_name (BridgeReq x) = x" | "req_name (TapReq x q) = x"

fun req_kind :: "linkReq \<Rightarrow> linkKind" where
  "req_kind (BridgeReq x) = KBridge" | "req_kind (TapReq x q) = KTap q"

definition newLink :: "linkKind \<Rightarrow> linkState" where
  "newLink k = \<lparr>ls_kind = k, ls_mtu = 1500, ls_up = False, ls_master = None, ls_addrs = []\<rparr>"

text \<open>Linux keeps interface names below 16 bytes.\<close>

definition link_name_ok :: "string \<Rightarrow> bool" where
  "link_name_ok x \<longleftrightarrow> x \<noteq> [] \<and> length x \<le> 15 \<and> CHR ''/'' \<notin> set x"

type_synonym links = "string \<rightharpoonup> linkState"

text \<open>Deleting a bridge releases its ports.\<close>

definition without_link :: "string \<Rightarrow> links \<Rightarrow> links" where
  "without_link x lk = (\<lambda>y. if y = x then None
     else map_option (\<lambda>s. if ls_master s = Some x then s\<lparr>ls_master := None\<rparr> else s) (lk y))"

locale link_host = packet_filter T tbl for T :: "'w iptables" and tbl +
  fixes N :: "'w netlink" and lk :: "'w \<Rightarrow> links"
  assumes add_law: "link_name_ok (req_name q) \<Longrightarrow> lk w (req_name q) = None \<Longrightarrow>
      \<exists>w'. n_LinkAdd N q w = (Ret (), w') \<and> lk w' = (lk w)(req_name q \<mapsto> newLink (req_kind q)) \<and> tbl w' = tbl w"
    and add_exists: "lk w (req_name q) \<noteq> None \<Longrightarrow> \<exists>e w'. n_LinkAdd N q w = (Fail e, w') \<and> lk w' = lk w \<and> tbl w' = tbl w"
    and mtu_law: "lk w x = Some s \<Longrightarrow> 0 < m \<Longrightarrow>
      \<exists>w'. n_LinkSetMTU N x m w = (Ret (), w') \<and> lk w' = (lk w)(x \<mapsto> s\<lparr>ls_mtu := m\<rparr>) \<and> tbl w' = tbl w"
    and up_law: "lk w x = Some s \<Longrightarrow>
      \<exists>w'. n_LinkSetUp N x w = (Ret (), w') \<and> lk w' = (lk w)(x \<mapsto> s\<lparr>ls_up := True\<rparr>) \<and> tbl w' = tbl w"
    and master_law: "lk w x = Some s \<Longrightarrow> lk w b = Some t \<Longrightarrow> ls_kind t = KBridge \<Longrightarrow> x \<noteq> b \<Longrightarrow>
      \<exists>w'. n_LinkSetMaster N x b w = (Ret (), w') \<and> lk w' = (lk w)(x \<mapsto> s\<lparr>ls_master := Some b\<rparr>) \<and> tbl w' = tbl w"
    and addr_law: "lk w x = Some s \<Longrightarrow> a \<notin> set (ls_addrs s) \<Longrightarrow>
      \<exists>w'. n_AddrAdd N x a w = (Ret (), w') \<and> lk w' = (lk w)(x \<mapsto> s\<lparr>ls_addrs := ls_addrs s @ [a]\<rparr>) \<and> tbl w' = tbl w"
    and addr_exists: "lk w x = Some s \<Longrightarrow> a \<in> set (ls_addrs s) \<Longrightarrow>
      \<exists>e w'. n_AddrAdd N x a w = (Fail e, w') \<and> lk w' = lk w \<and> tbl w' = tbl w"
    and byname_law: "lk w x = Some s \<Longrightarrow>
      \<exists>w'. n_LinkByName N x w = (Ret \<lparr>l_name = x, l_mtu = ls_mtu s, l_isBridge = (ls_kind s = KBridge)\<rparr>, w')
        \<and> lk w' = lk w \<and> tbl w' = tbl w"
    and byname_absent: "lk w x = None \<Longrightarrow> \<exists>e w'. n_LinkByName N x w = (Fail e, w') \<and> lk w' = lk w \<and> tbl w' = tbl w"
    and del_law: "lk w x = Some s \<Longrightarrow> \<exists>w'. n_LinkDel N x w = (Ret (), w') \<and> lk w' = without_link x (lk w) \<and> tbl w' = tbl w"
    and del_absent: "lk w x = None \<Longrightarrow> \<exists>e w'. n_LinkDel N x w = (Fail e, w') \<and> lk w' = lk w \<and> tbl w' = tbl w"
    and list_law: "\<exists>xs w'. n_LinkList N w = (Ret xs, w') \<and> set xs = dom (lk w) \<and> lk w' = lk w \<and> tbl w' = tbl w"
    and forward_law: "\<exists>w'. n_EnableIP4Forward N w = (Ret (), w') \<and> lk w' = lk w \<and> tbl w' = tbl w"
      "\<exists>w'. n_EnableIP6Forward N w = (Ret (), w') \<and> lk w' = lk w \<and> tbl w' = tbl w"
    and filter_links: "lk (snd (t_New T p w)) = lk w" "lk (snd (t_NewChain T p tab c w)) = lk w"
      "lk (snd (t_Append T p tab c r w)) = lk w" "lk (snd (t_Delete T p tab c r w)) = lk w"
      "lk (snd (t_ClearChain T p tab c w)) = lk w" "lk (snd (t_DeleteChain T p tab c w)) = lk w"
begin

text \<open>An action returns and takes links and tables to given ones.\<close>

definition brings :: "('w, 'a) act \<Rightarrow> 'w \<Rightarrow> links \<Rightarrow> (proto \<Rightarrow> string \<Rightarrow> table) \<Rightarrow> bool" where
  "brings m w l tb \<longleftrightarrow> (\<exists>x w'. m w = (Ret x, w') \<and> lk w' = l \<and> tbl w' = tb)"

lemma brings_bind:
  assumes "brings m w l tb" "\<And>x w'. lk w' = l \<Longrightarrow> tbl w' = tb \<Longrightarrow> brings (f x) w' l' tb'"
  shows "brings (bindA m f) w l' tb'"
proof -
  obtain x w' where "m w = (Ret x, w')" "lk w' = l" "tbl w' = tb" using assms(1) by (auto simp: brings_def)
  with assms(2) show ?thesis by (auto simp: brings_def bindA_def)
qed

lemma brings_wrap: "brings m w l tb \<Longrightarrow> brings (wrapA msg m) w l tb"
  by (auto simp: brings_def)

lemma brings_ret: "lk w = l \<Longrightarrow> tbl w = tb \<Longrightarrow> brings (retA x) w l tb"
  by (simp add: brings_def retA_def)

lemma brings_eq: "brings m w l tb \<Longrightarrow> l = l' \<Longrightarrow> tb = tb' \<Longrightarrow> brings m w l' tb'"
  by simp

text \<open>What the packet filter calls do, they do to the tables only.\<close>

lemma keeps_filter [keep_intros]:
  "keeps (\<lambda>w. lk w = l) (t_New T p)" "keeps (\<lambda>w. lk w = l) (t_NewChain T p t c)" "keeps (\<lambda>w. lk w = l) (t_Append T p t c r)"
  "keeps (\<lambda>w. lk w = l) (t_Delete T p t c r)" "keeps (\<lambda>w. lk w = l) (t_ClearChain T p t c)"
  "keeps (\<lambda>w. lk w = l) (t_DeleteChain T p t c)"
  by (simp_all add: keeps_def filter_links)

lemma brings_filter: "reaches m w tb \<Longrightarrow> keeps (\<lambda>v. lk v = lk w) m \<Longrightarrow> brings m w (lk w) tb"
  unfolding reaches_def brings_def keeps_def by (metis snd_conv)

text \<open>Deleting all links of a list that start with the prefix, errors dropped.\<close>

lemma cleanup_loop:
  "\<exists>l. brings (forA (\<lambda>x. if hasPrefix x link_prefix then ignoreA (n_LinkDel N x) else retA ()) xs) w l (tbl w) \<and>
     dom l = dom (lk w) - {x \<in> set xs. hasPrefix x link_prefix}"
proof (induction xs arbitrary: w)
  case Nil
  then show ?case by (auto intro: brings_ret)
next
  case (Cons x xs)
  let ?m = "if hasPrefix x link_prefix then ignoreA (n_LinkDel N x) else retA ()"
  have "\<exists>w1. ?m w = (Ret (), w1) \<and> tbl w1 = tbl w \<and> dom (lk w1) = dom (lk w) - (if hasPrefix x link_prefix then {x} else {})"
  proof (cases "lk w x")
    case None
    with del_absent [OF None] show ?thesis by (auto simp: ignoreA_def retA_def)
  next
    case (Some s)
    have "dom (without_link x (lk w)) = dom (lk w) - {x}" by (auto simp: without_link_def split: if_splits)
    with del_law [OF Some] show ?thesis by (auto simp: ignoreA_def retA_def)
  qed
  then obtain w1 where w1: "?m w = (Ret (), w1)" "tbl w1 = tbl w"
    "dom (lk w1) = dom (lk w) - (if hasPrefix x link_prefix then {x} else {})" by blast
  from Cons.IH [of w1] w1 show ?case by (auto simp: brings_def bindA_def)
qed

lemma CleanupAllLinks_dom:
  "\<exists>w'. CleanupAllLinks N w = (Ret (), w') \<and> tbl w' = tbl w \<and> dom (lk w') = {x \<in> dom (lk w). \<not> hasPrefix x link_prefix}"
proof -
  obtain xs w1 where l: "n_LinkList N w = (Ret xs, w1)" "set xs = dom (lk w)" "lk w1 = lk w" "tbl w1 = tbl w"
    using list_law by blast
  obtain l where "brings (forA (\<lambda>x. if hasPrefix x link_prefix then ignoreA (n_LinkDel N x) else retA ()) xs) w1 l (tbl w1)"
    "dom l = dom (lk w1) - {x \<in> set xs. hasPrefix x link_prefix}" using cleanup_loop by blast
  with l show ?thesis by (auto simp: CleanupAllLinks_def bindA_def tryA_def brings_def)
qed

end

subsection \<open>An executable host\<close>

record refLinks = refKernel +
  rl_links :: "(string \<times> linkState) list"

definition ref_lk :: "'z refLinks_scheme \<Rightarrow> links" where
  "ref_lk w = map_of (rl_links w)"

definition ref_change :: "string \<Rightarrow> (linkState \<Rightarrow> linkState) \<Rightarrow> ('z refLinks_scheme, unit) act" where
  "ref_change x f w =
     (case ref_lk w x of
        None \<Rightarrow> (Fail (ErrNew ''Link not found''), w)
      | Some s \<Rightarrow> (Ret (), w\<lparr>rl_links := (x, f s) # rl_links w\<rparr>))"

text \<open>\<open>net.ParseCIDR\<close> with the address kept, for IPv4 and IPv6.\<close>

definition cidr_mask :: "nat \<Rightarrow> nat \<Rightarrow> bytes" where
  "cidr_mask len n = map (\<lambda>i. if 8 * (i + 1) \<le> n then 0xff else if n \<le> 8 * i then 0 else push_bit (8 * (i + 1) - n) 0xff) [0..<len]"

definition refParseAddr :: "string \<Rightarrow> ipNet res" where
  "refParseAddr s =
     (case split_on CHR ''/'' s of
        [a, n] \<Rightarrow>
          let i = ParseIP a; k = foldl (\<lambda>m c. 10 * m + (of_char c - 48)) (0 :: nat) n; len = (if To4 i = None then 16 else 4)
          in if i = [] \<or> n = [] \<or> \<not> list_all is_digit n \<or> 8 * len < k then Fail (ErrNew ''invalid CIDR address'')
             else Ret \<lparr>ip_IP = i, ip_Mask = cidr_mask len k\<rparr>
      | _ \<Rightarrow> Fail (ErrNew ''invalid CIDR address''))"

definition refNetlink :: "'z refLinks_scheme netlink" where
  "refNetlink =
     \<lparr>n_LinkByName = (\<lambda>x w. case ref_lk w x of
          None \<Rightarrow> (Fail (ErrNew ''Link not found''), w)
        | Some s \<Rightarrow> (Ret \<lparr>l_name = x, l_mtu = ls_mtu s, l_isBridge = (ls_kind s = KBridge)\<rparr>, w)),
      n_LinkAdd = (\<lambda>q w. if ref_lk w (req_name q) \<noteq> None then (Fail (ErrNew ''file exists''), w)
        else (Ret (), w\<lparr>rl_links := (req_name q, newLink (req_kind q)) # rl_links w\<rparr>)),
      n_LinkDel = (\<lambda>x w. if ref_lk w x = None then (Fail (ErrNew ''no such device''), w)
        else (Ret (), w\<lparr>rl_links := map (\<lambda>(y, s). (y, if ls_master s = Some x then s\<lparr>ls_master := None\<rparr> else s))
          (filter (\<lambda>(y, s). y \<noteq> x) (rl_links w))\<rparr>)),
      n_LinkSetMTU = (\<lambda>x m. ref_change x (\<lambda>s. s\<lparr>ls_mtu := m\<rparr>)),
      n_LinkSetUp = (\<lambda>x. ref_change x (\<lambda>s. s\<lparr>ls_up := True\<rparr>)),
      n_LinkSetMaster = (\<lambda>x b. ref_change x (\<lambda>s. s\<lparr>ls_master := Some b\<rparr>)),
      n_AddrAdd = (\<lambda>x a w. if a \<in> (case ref_lk w x of None \<Rightarrow> {} | Some s \<Rightarrow> set (ls_addrs s)) then (Fail (ErrNew ''file exists''), w)
        else ref_change x (\<lambda>s. s\<lparr>ls_addrs := ls_addrs s @ [a]\<rparr>) w),
      n_LinkList = (\<lambda>w. (Ret (remdups (map fst (rl_links w))), w)),
      n_ParseAddr = refParseAddr,
      n_EnableIP4Forward = retA (), n_EnableIP6Forward = retA ()\<rparr>"

lemma map_of_without:
  "map_of (map (\<lambda>(y, s). (y, f s)) (filter (\<lambda>(y, s). y \<noteq> x) xs)) = (\<lambda>y. if y = x then None else map_option f (map_of xs y))"
  by (induction xs) (auto simp: fun_eq_iff)

interpretation rlink: link_host refIptables rk_tables refNetlink ref_lk
  by unfold_locales
    (auto simp: refNetlink_def refIptables_def set_chain_def act_defs ref_lk_def ref_change_def without_link_def map_of_without dom_map_of_conv_image_fst
      split: option.splits)


definition exampleNet :: refLinks where
  "exampleNet = refKernel.extend exampleKernel
     \<lparr>rl_links = [(''eth0'', newLink KOther), (''pm_tap00010203'', newLink (KTap None))]\<rparr>"


end
