(* ===== verification/Network.thy ===== *)
theory Network
  imports Links Types
begin

text \<open>
  Virtual networks, \<open>v2/pkg/dcnet/network.go\<close>: a Linux bridge with an address, its packet
  filter rules, and the queries of the BMC server. A nil address that is dereferenced is a
  panic.
\<close>

subsection \<open>Operations\<close>

record network =
  nw_name :: string
  nw_typ :: string
  nw_useNAT :: bool
  nw_addr :: "ipNet option"

definition NewNetwork :: "'w netlink \<Rightarrow> NetworkSpec \<Rightarrow> network res" where
  "NewNetwork N spec =
     bindR (if 0 < length (net_Address spec) then bindR (n_ParseAddr N (net_Address spec)) (\<lambda>a. Ret (Some a)) else Ret None) (\<lambda>addr.
     Ret \<lparr>nw_name = net_Name spec, nw_typ = net_Type spec, nw_useNAT = net_UseNAT spec, nw_addr = addr\<rparr>)"

definition network_Cleanup :: "'w netlink \<Rightarrow> network \<Rightarrow> ('w, unit) act" where
  "network_Cleanup N n =
     bindA (tryA (n_LinkByName N (nw_name n))) (\<lambda>r.
     case r of Inl e \<Rightarrow> retA () | Inr link \<Rightarrow> ignoreA (n_LinkDel N (l_name link)))"

text \<open>The first half of \<open>Setup\<close>: the bridge.\<close>

definition setupBridge :: "'w netlink \<Rightarrow> network \<Rightarrow> int \<Rightarrow> ('w, unit) act" where
  "setupBridge N n mtu =
     bindA (wrapA (''failed to add the bridge '' @ nw_name n) (n_LinkAdd N (BridgeReq (nw_name n)))) (\<lambda>_.
     bindA (if 0 < mtu
            then wrapA (''failed to set mtu to the bridge '' @ nw_name n) (n_LinkSetMTU N (nw_name n) mtu)
            else retA ()) (\<lambda>_.
     bindA (wrapA (''failed to set up to the bridge '' @ nw_name n) (n_LinkSetUp N (nw_name n))) (\<lambda>_.
     case nw_addr n of
       None \<Rightarrow> retA ()
     | Some a \<Rightarrow> wrapA (''failed to add the address '' @ ipNet_String a) (n_AddrAdd N (nw_name n) a))))"

text \<open>The second half: forwarding and rules.\<close>

definition setupRules :: "'w netlink \<Rightarrow> 'w iptables \<Rightarrow> network \<Rightarrow> ('w, unit) act" where
  "setupRules N T n =
     bindA (newIptables T) (\<lambda>ipts.
     if \<not> nw_useNAT n then
       (if nw_typ n = NetworkInternal then appendAcceptRule T ipts (nw_name n) else retA ())
     else
       bindA (wrapA ''failed to enable IPv4 forwarding'' (n_EnableIP4Forward N)) (\<lambda>_.
       bindA (wrapA ''failed to enable IPv6 forwarding'' (n_EnableIP6Forward N)) (\<lambda>_.
       case nw_addr n of
         None \<Rightarrow> panicA ''invalid memory address or nil pointer dereference''
       | Some a \<Rightarrow>
           let ipt = (if To4 (ip_IP a) \<noteq> None then IPv4 else IPv6) in
           bindA (wrapA ''failed to append accept rule'' (appendAcceptRule T ipts (nw_name n))) (\<lambda>_.
           wrapA ''failed to append masquerade rule'' (appendMasqueradeRule T ipt (ipNet_String a))))))"

definition network_Setup :: "'w netlink \<Rightarrow> 'w iptables \<Rightarrow> network \<Rightarrow> int \<Rightarrow> bool \<Rightarrow> ('w, unit) act" where
  "network_Setup N T n mtu force =
     bindA (if force then network_Cleanup N n else retA ()) (\<lambda>_.
     bindA (setupBridge N n mtu) (\<lambda>_.
     setupRules N T n))"

definition network_IsType :: "network \<Rightarrow> string \<Rightarrow> bool" where
  "network_IsType n typ \<longleftrightarrow> nw_typ n = typ"

definition network_Contains :: "network \<Rightarrow> ip \<Rightarrow> bool" where
  "network_Contains n a = (case nw_addr n of None \<Rightarrow> False | Some net \<Rightarrow> ipNet_Contains net a)"

definition network_AddAddr :: "'w netlink \<Rightarrow> network \<Rightarrow> string \<Rightarrow> ('w, unit) act" where
  "network_AddAddr N n addr =
     (case nw_addr n of
        None \<Rightarrow> panicA ''invalid memory address or nil pointer dereference''
      | Some net \<Rightarrow>
          bindA (wrapA ''failed to parse the address''
            (liftA (n_ParseAddr N (addr @ ''/'' @ fmt_d (Mask_Size (ip_Mask net)))))) (\<lambda>addrWithMask.
          bindA (wrapA (''failed to find the link '' @ nw_name n) (n_LinkByName N (nw_name n))) (\<lambda>link.
          wrapA (''failed to add the address '' @ ipNet_String addrWithMask) (n_AddrAdd N (l_name link) addrWithMask))))"

subsection \<open>What a network adds\<close>

definition bridge_state :: "network \<Rightarrow> int \<Rightarrow> linkState" where
  "bridge_state n mtu =
     \<lparr>ls_kind = KBridge, ls_mtu = (if 0 < mtu then mtu else 1500), ls_up = True, ls_master = None,
      ls_addrs = (case nw_addr n of None \<Rightarrow> [] | Some a \<Rightarrow> [a])\<rparr>"

text \<open>Rules are added to the chain PLACEMAT of the filter and nat tables only.\<close>

definition accepts_traffic :: "network \<Rightarrow> bool" where
  "accepts_traffic n \<longleftrightarrow> nw_useNAT n \<or> nw_typ n = NetworkInternal"

definition nat_rules :: "network \<Rightarrow> proto \<Rightarrow> string list list" where
  "nat_rules n p =
     (case nw_addr n of
        None \<Rightarrow> []
      | Some a \<Rightarrow>
          if nw_useNAT n \<and> (p = IPv4 \<longleftrightarrow> To4 (ip_IP a) \<noteq> None)
          then [[''-s'', ipNet_String a, ''!'', ''--destination'', ipNet_String a, ''-j'', ''MASQUERADE'']] else [])"

definition add_rules :: "network \<Rightarrow> (proto \<Rightarrow> string \<Rightarrow> table) \<Rightarrow> proto \<Rightarrow> string \<Rightarrow> table" where
  "add_rules n tb = (\<lambda>p t c.
     if c = ''PLACEMAT'' \<and> t = ''filter''
       then map_option (\<lambda>rs. rs @ (if accepts_traffic n then accepting (nw_name n) else [])) (tb p t c)
     else if c = ''PLACEMAT'' \<and> t = ''nat'' then map_option (\<lambda>rs. rs @ nat_rules n p) (tb p t c)
     else tb p t c)"

definition chains_ready :: "(proto \<Rightarrow> string \<Rightarrow> table) \<Rightarrow> bool" where
  "chains_ready tb \<longleftrightarrow> (\<forall>p. tb p ''filter'' ''PLACEMAT'' \<noteq> None \<and> tb p ''nat'' ''PLACEMAT'' \<noteq> None)"

lemma add_rules_ready: "chains_ready tb \<Longrightarrow> chains_ready (add_rules n tb)"
  by (simp add: chains_ready_def add_rules_def)

context link_host
begin

lemma brings_add: "link_name_ok x \<Longrightarrow> lk w x = None \<Longrightarrow> brings (n_LinkAdd N (BridgeReq x)) w ((lk w)(x \<mapsto> newLink KBridge)) (tbl w)"
  using add_law [of "BridgeReq x" w] by (auto simp: brings_def)

lemma brings_mtu: "lk w x = Some s \<Longrightarrow> 0 < m \<Longrightarrow> brings (n_LinkSetMTU N x m) w ((lk w)(x \<mapsto> s\<lparr>ls_mtu := m\<rparr>)) (tbl w)"
  using mtu_law unfolding brings_def by blast

lemma brings_up: "lk w x = Some s \<Longrightarrow> brings (n_LinkSetUp N x) w ((lk w)(x \<mapsto> s\<lparr>ls_up := True\<rparr>)) (tbl w)"
  using up_law unfolding brings_def by blast

lemma brings_addr: "lk w x = Some s \<Longrightarrow> a \<notin> set (ls_addrs s) \<Longrightarrow>
    brings (n_AddrAdd N x a) w ((lk w)(x \<mapsto> s\<lparr>ls_addrs := ls_addrs s @ [a]\<rparr>)) (tbl w)"
  using addr_law unfolding brings_def by blast

lemma setupBridge_brings:
  assumes "link_name_ok (nw_name n)" "lk w (nw_name n) = None"
  shows "brings (setupBridge N n mtu) w ((lk w)(nw_name n \<mapsto> bridge_state n mtu)) (tbl w)"
  unfolding setupBridge_def
proof (rule brings_bind [OF brings_wrap [OF brings_add [OF assms]]])
  let ?x = "nw_name n"
  fix u w1 assume w1: "lk w1 = (lk w)(?x \<mapsto> newLink KBridge)" "tbl w1 = tbl w"
  let ?s = "(newLink KBridge)\<lparr>ls_mtu := if 0 < mtu then mtu else 1500\<rparr>"
  have m: "brings (if 0 < mtu then wrapA (''failed to set mtu to the bridge '' @ ?x) (n_LinkSetMTU N ?x mtu) else retA ()) w1
      ((lk w)(?x \<mapsto> ?s)) (tbl w)"
    using brings_mtu [of w1 ?x "newLink KBridge" mtu] w1
    by (auto intro!: brings_wrap brings_ret simp: newLink_def)
  show "brings (bindA (if 0 < mtu then wrapA (''failed to set mtu to the bridge '' @ ?x) (n_LinkSetMTU N ?x mtu) else retA ()) (\<lambda>_.
     bindA (wrapA (''failed to set up to the bridge '' @ ?x) (n_LinkSetUp N ?x)) (\<lambda>_.
     case nw_addr n of None \<Rightarrow> retA ()
     | Some a \<Rightarrow> wrapA (''failed to add the address '' @ ipNet_String a) (n_AddrAdd N ?x a)))) w1
     ((lk w)(?x \<mapsto> bridge_state n mtu)) (tbl w)"
  proof (rule brings_bind [OF m])
    fix u w2 assume w2: "lk w2 = (lk w)(?x \<mapsto> ?s)" "tbl w2 = tbl w"
    have up: "brings (n_LinkSetUp N ?x) w2 ((lk w)(?x \<mapsto> ?s\<lparr>ls_up := True\<rparr>)) (tbl w)"
      using brings_up [of w2 ?x ?s] w2 by simp
    show "brings (bindA (wrapA (''failed to set up to the bridge '' @ ?x) (n_LinkSetUp N ?x)) (\<lambda>_.
     case nw_addr n of None \<Rightarrow> retA ()
     | Some a \<Rightarrow> wrapA (''failed to add the address '' @ ipNet_String a) (n_AddrAdd N ?x a))) w2
     ((lk w)(?x \<mapsto> bridge_state n mtu)) (tbl w)"
    proof (rule brings_bind [OF brings_wrap [OF up]])
      fix u w3 assume w3: "lk w3 = (lk w)(?x \<mapsto> ?s\<lparr>ls_up := True\<rparr>)" "tbl w3 = tbl w"
      show "brings (case nw_addr n of None \<Rightarrow> retA ()
         | Some a \<Rightarrow> wrapA (''failed to add the address '' @ ipNet_String a) (n_AddrAdd N ?x a)) w3
         ((lk w)(?x \<mapsto> bridge_state n mtu)) (tbl w)"
        using brings_addr [of w3 ?x "?s\<lparr>ls_up := True\<rparr>"] w3
        by (auto intro!: brings_wrap brings_ret simp: bridge_state_def newLink_def split: option.splits)
    qed
  qed
qed

lemma network_Cleanup_brings:
  "brings (network_Cleanup N n) w (if lk w (nw_name n) = None then lk w else without_link (nw_name n) (lk w)) (tbl w)"
proof (cases "lk w (nw_name n)")
  case None
  from byname_absent [OF this] None show ?thesis
    by (auto simp: network_Cleanup_def brings_def bindA_def tryA_def retA_def)
next
  case (Some s)
  obtain w1 where w1: "n_LinkByName N (nw_name n) w = (Ret \<lparr>l_name = nw_name n, l_mtu = ls_mtu s, l_isBridge = (ls_kind s = KBridge)\<rparr>, w1)"
    "lk w1 = lk w" "tbl w1 = tbl w" using byname_law [OF Some] by blast
  with del_law [of w1 "nw_name n"] Some show ?thesis
    by (auto simp: network_Cleanup_def brings_def bindA_def tryA_def ignoreA_def)
qed

end

lemma proto_neq: "p \<noteq> IPv4 \<longleftrightarrow> p = IPv6"
  by (cases p) auto

context link_host
begin

text \<open>Accept rules for both protocols.\<close>

definition with_accept :: "string \<Rightarrow> (string \<Rightarrow> table) \<Rightarrow> string \<Rightarrow> table" where
  "with_accept x ts = ts(''filter'' := (ts ''filter'')(''PLACEMAT'' := map_option (\<lambda>rs. rs @ accepting x) (ts ''filter'' ''PLACEMAT'')))"

lemma appendAccept_brings:
  assumes "chains_ready (tbl w)"
  shows "brings (appendAcceptRule T [IPv4, IPv6] x) w (lk w) (\<lambda>p. with_accept x (tbl w p))"
  unfolding appendAcceptRule_def
proof (rule brings_filter)
  show "reaches (forA (acceptRules T x) [IPv4, IPv6]) w (\<lambda>p. with_accept x (tbl w p))"
  proof (rule forA_protos_reaches [where P = "\<lambda>ts. ts ''filter'' ''PLACEMAT'' \<noteq> None"])
    fix w p assume "tbl w p ''filter'' ''PLACEMAT'' \<noteq> None"
    then obtain rs where rs: "tbl w p ''filter'' ''PLACEMAT'' = Some rs" by blast
    show "reaches (acceptRules T x p) w ((tbl w)(p := with_accept x (tbl w p)))"
      by (rule reaches_eq [OF acceptRules_reaches [OF rs]]) (simp add: fun_eq_iff upd_apply with_accept_def rs)
  qed (use assms in \<open>simp add: chains_ready_def\<close>)
  show "keeps (\<lambda>v. lk v = lk w) (forA (acceptRules T x) [IPv4, IPv6])"
    unfolding acceptRules_def by (intro keep_intros)
qed

lemma appendMasquerade_brings:
  assumes "tbl w p ''nat'' ''PLACEMAT'' = Some rs"
  shows "brings (appendMasqueradeRule T p net) w (lk w)
    (upd (tbl w) p ''nat'' ''PLACEMAT'' (Some (rs @ [[''-s'', net, ''!'', ''--destination'', net, ''-j'', ''MASQUERADE'']])))"
  unfolding appendMasqueradeRule_def
  by (intro brings_filter keep_intros reaches_append [OF assms]) (simp add: target_ok_def)

lemma newIptables_then:
  "(\<And>w'. lk w' = lk w \<Longrightarrow> tbl w' = tbl w \<Longrightarrow> brings (f [IPv4, IPv6]) w' l tb) \<Longrightarrow> brings (bindA (newIptables T) f) w l tb"
proof -
  obtain w1 where w1: "newIptables T w = (Ret [IPv4, IPv6], w1)" "tbl w1 = tbl w" using newIptables_ok by blast
  have "keeps (\<lambda>v. lk v = lk w) (newIptables T)" unfolding newIptables_def by (intro keep_intros)
  then have "lk w1 = lk w" using w1(1) by (auto simp: keeps_def)
  then show "(\<And>w'. lk w' = lk w \<Longrightarrow> tbl w' = tbl w \<Longrightarrow> brings (f [IPv4, IPv6]) w' l tb) \<Longrightarrow> brings (bindA (newIptables T) f) w l tb"
    using w1 by (auto simp: brings_def bindA_Ret [of "newIptables T" w "[IPv4, IPv6]" w1])
qed

lemma forward_brings: "brings (n_EnableIP4Forward N) w (lk w) (tbl w)" "brings (n_EnableIP6Forward N) w (lk w) (tbl w)"
  using forward_law unfolding brings_def by blast+

lemma setupRules_brings:
  assumes "chains_ready (tbl w)" "nw_useNAT n \<Longrightarrow> nw_addr n \<noteq> None"
  shows "brings (setupRules N T n) w (lk w) (add_rules n (tbl w))"
  unfolding setupRules_def
proof (rule newIptables_then, goal_cases)
  case w1: (1 w1)
  have r1: "chains_ready (tbl w1)" using assms(1) w1 by simp
  show ?case
  proof (cases "nw_useNAT n")
    case False
    then have "add_rules n (tbl w) = (if nw_typ n = NetworkInternal then (\<lambda>p. with_accept (nw_name n) (tbl w p)) else tbl w)"
      by (auto simp: add_rules_def with_accept_def accepts_traffic_def nat_rules_def fun_eq_iff option.map_ident split: option.splits)
    with False appendAccept_brings [OF r1, of "nw_name n"] w1 show ?thesis by (auto intro: brings_ret)
  next
    case True
    then obtain a where a: "nw_addr n = Some a" using assms(2) by blast
    let ?p = "if To4 (ip_IP a) \<noteq> None then IPv4 else IPv6"
    have main: "brings (bindA (wrapA ''failed to append accept rule'' (appendAcceptRule T [IPv4, IPv6] (nw_name n))) (\<lambda>_.
        wrapA ''failed to append masquerade rule'' (appendMasqueradeRule T ?p (ipNet_String a)))) w3 (lk w) (add_rules n (tbl w))"
      if w3: "lk w3 = lk w" "tbl w3 = tbl w" for w3
    proof (rule brings_bind [OF brings_wrap [OF appendAccept_brings]])
      show "chains_ready (tbl w3)" using assms(1) w3 by simp
      fix u w4 assume w4: "lk w4 = lk w3" "tbl w4 = (\<lambda>p. with_accept (nw_name n) (tbl w3 p))"
      obtain rs where rs: "tbl w ?p ''nat'' ''PLACEMAT'' = Some rs" using assms(1) unfolding chains_ready_def by blast
      then have rs4: "tbl w4 ?p ''nat'' ''PLACEMAT'' = Some rs" by (simp add: w4 w3 with_accept_def)
      have pp: "(p = IPv4 \<longleftrightarrow> To4 (ip_IP a) \<noteq> None) \<longleftrightarrow> p = ?p" for p by (cases p) auto
      show "brings (wrapA ''failed to append masquerade rule'' (appendMasqueradeRule T ?p (ipNet_String a))) w4 (lk w) (add_rules n (tbl w))"
        by (rule brings_wrap, rule brings_eq [OF appendMasquerade_brings [OF rs4]], simp add: w4 w3)
          (use True a rs in \<open>auto simp: fun_eq_iff upd_apply w4 w3 with_accept_def add_rules_def accepts_traffic_def nat_rules_def pp proto_neq option.map_ident\<close>)
    qed
    show ?thesis
      using True a main w1
      by (auto simp: Let_def intro!: brings_bind [OF brings_wrap [OF forward_brings(1)]] brings_bind [OF brings_wrap [OF forward_brings(2)]])
  qed
qed

lemma Setup_brings:
  assumes "link_name_ok (nw_name n)" "force \<or> lk w (nw_name n) = None" "chains_ready (tbl w)" "nw_useNAT n \<Longrightarrow> nw_addr n \<noteq> None"
  shows "brings (network_Setup N T n mtu force) w
    ((if lk w (nw_name n) = None then lk w else without_link (nw_name n) (lk w))(nw_name n \<mapsto> bridge_state n mtu)) (add_rules n (tbl w))"
proof -
  let ?l = "if lk w (nw_name n) = None then lk w else without_link (nw_name n) (lk w)"
  have c: "brings (if force then network_Cleanup N n else retA ()) w ?l (tbl w)"
    using network_Cleanup_brings [of n w] assms(2) by (auto intro: brings_ret)
  show ?thesis
    unfolding network_Setup_def
  proof (rule brings_bind [OF c], goal_cases)
    case (1 u w1)
    have none: "lk w1 (nw_name n) = None" unfolding 1(1) by (simp add: without_link_def)
    show ?case
      by (rule brings_bind [OF setupBridge_brings [OF assms(1) none]], rule brings_eq [OF setupRules_brings])
        (use assms(3,4) 1 in auto)
  qed
qed

end

lemma NewNetwork_valid:
  "NewNetwork N spec = Ret n \<Longrightarrow> network_ok spec \<Longrightarrow>
   nw_name n = net_Name spec \<and> nw_typ n = net_Type spec \<and> nw_useNAT n = net_UseNAT spec \<and> (nw_useNAT n \<longrightarrow> nw_addr n \<noteq> None)"
  by (auto simp: NewNetwork_def bindR_eq_Ret network_ok_def split: if_splits)

text \<open>
  C26. Setting up a validated network (with a name that Linux accepts) succeeds on a host
  with the NAT chains in place, unless the name is taken and not forced. The bridge is up
  with the requested MTU and address; an internal network and one with NAT get accept rules
  for both protocols, one with NAT a masquerade rule for the protocol of its address, the
  others none; nothing else in the tables and no other link changes, but that a forced setup
  replaces a link of the same name. Cleanup removes the bridge.
\<close>

theorem network_setup_effect:
  assumes "link_host T tbl N lk" "network_ok spec" "NewNetwork N spec = Ret n"
    "net_Name spec \<noteq> ''''" "CHR ''/'' \<notin> set (net_Name spec)" "chains_ready (tbl w)" "force \<or> lk w (net_Name spec) = None"
  shows "\<exists>w'. network_Setup N T n mtu force w = (Ret (), w') \<and> tbl w' = add_rules n (tbl w) \<and>
    lk w' = (if lk w (net_Name spec) = None then lk w else without_link (net_Name spec) (lk w))(net_Name spec \<mapsto> bridge_state n mtu) \<and>
    (\<exists>w''. network_Cleanup N n w' = (Ret (), w'') \<and> lk w'' = without_link (net_Name spec) (lk w'))"
proof -
  note v = NewNetwork_valid [OF assms(3,2)]
  have ok: "link_name_ok (nw_name n)" using v assms(2,4,5) by (simp add: link_name_ok_def network_ok_def)
  obtain w' where w': "network_Setup N T n mtu force w = (Ret (), w')" "tbl w' = add_rules n (tbl w)"
    "lk w' = (if lk w (net_Name spec) = None then lk w else without_link (net_Name spec) (lk w))(net_Name spec \<mapsto> bridge_state n mtu)"
    using link_host.Setup_brings [OF assms(1) ok, of force w mtu] v assms(6,7)
    by (auto simp: link_host.brings_def [OF assms(1)])
  have "\<exists>w''. network_Cleanup N n w' = (Ret (), w'') \<and> lk w'' = without_link (net_Name spec) (lk w')"
    using link_host.network_Cleanup_brings [OF assms(1), of n w'] v w'(3) by (auto simp: link_host.brings_def [OF assms(1)])
  with w' show ?thesis by blast
qed

definition exampleNat :: NetworkSpec where
  "exampleNat = \<lparr>net_Name = ''internet'', net_Type = ''external'', net_UseNAT = True, net_Address = ''10.0.0.1/24''\<rparr>"

theorem network_setup_effect_witness:
  "\<exists>n w'. NewNetwork refNetlink exampleNat = Ret n \<and>
     network_Setup refNetlink refIptables n 1460 False (exampleNet\<lparr>rk_tables := (\<lambda>p t. [''PLACEMAT'' \<mapsto> []])\<rparr>) = (Ret (), w') \<and>
     rk_tables w' IPv4 ''nat'' ''PLACEMAT'' =
       Some [[''-s'', ''10.0.0.1/24'', ''!'', ''--destination'', ''10.0.0.1/24'', ''-j'', ''MASQUERADE'']] \<and>
     rk_tables w' IPv6 ''nat'' ''PLACEMAT'' = Some []"
proof -
  let ?w = "exampleNet\<lparr>rk_tables := (\<lambda>p t. [''PLACEMAT'' \<mapsto> []])\<rparr>"
  let ?a = "\<lparr>ip_IP = [0, 0, 0, 0, 0, 0, 0, 0, 0, 0, 0xff, 0xff, 10, 0, 0, 1], ip_Mask = [0xff, 0xff, 0xff, 0]\<rparr>"
  let ?n = "\<lparr>nw_name = ''internet'', nw_typ = ''external'', nw_useNAT = True, nw_addr = Some ?a\<rparr>"
  have p: "refParseAddr ''10.0.0.1/24'' = Ret ?a" by code_simp
  have s: "ipNet_String ?a = ''10.0.0.1/24''" by code_simp
  have n: "NewNetwork refNetlink exampleNat = Ret ?n"
    by (simp add: NewNetwork_def exampleNat_def refNetlink_def p)
  have "\<exists>w'. network_Setup refNetlink refIptables ?n 1460 False ?w = (Ret (), w') \<and> rk_tables w' = add_rules ?n (rk_tables ?w)"
    using network_setup_effect [OF rlink.link_host_axioms _ n, of ?w False 1460]
    by (auto simp: exampleNat_def network_ok_def chains_ready_def ref_lk_def exampleNet_def refKernel.defs)
  then show ?thesis using n s
    by (auto simp: add_rules_def nat_rules_def To4_def v4InV6Prefix_def eval_nat_numeral)
qed

end
