(* ===== verification/Node.thy ===== *)
theory Node
  imports Volume Network
begin

text \<open>
  Virtual machines, \<open>v2/pkg/vm/node.go\<close> (all but the QMP client, which is in \<open>Qmp\<close>) and
  \<open>v2/pkg/vm/tap.go\<close>. The fields of a tap and of a node that methods change are returned
  changed, also when the method returns an error. Processes, sockets and the clock are the
  parameter \<open>procs\<close>. The loops that wait for a socket may run forever: they are partial
  functions, \<open>None\<close> standing for a call that does not return.
\<close>

subsection \<open>Taps\<close>

record tap =
  tp_bridge :: link
  tp_tapName :: string

definition newTap :: "'w netlink \<Rightarrow> string \<Rightarrow> ('w, tap) act" where
  "newTap N bridgeName =
     bindA (wrapA (''failed to find the bridge '' @ bridgeName) (n_LinkByName N bridgeName)) (\<lambda>bridge.
     retA \<lparr>tp_bridge = bridge, tp_tapName = ''''\<rparr>)"

text \<open>\<open>create\<close> up to the assignment of \<open>tapName\<close>. The type assertion on the bridge panics for other links.\<close>

definition tapLink :: "'w netlink \<Rightarrow> link \<Rightarrow> int \<Rightarrow> int \<Rightarrow> ('w env, string) act" where
  "tapLink N bridge mtu netDevQueue =
     bindA (wrapA ''failed to generate random tap name'' (onRng (RandomLinkName LinkTypeTap))) (\<lambda>name.
     onHost (
       bindA (wrapA (''failed to add the tap '' @ name)
         (n_LinkAdd N (TapReq name (if 1 < netDevQueue then Some netDevQueue else None)))) (\<lambda>_.
       bindA (if 0 < mtu then n_LinkSetMTU N name mtu else retA ()) (\<lambda>_.
       bindA (n_LinkSetUp N name) (\<lambda>_.
       bindA (if l_isBridge bridge
              then wrapA (''failed to set '' @ name @ '' to bridge '' @ l_name bridge) (n_LinkSetMaster N name (l_name bridge))
              else panicA ''interface conversion: netlink.Link is not *netlink.Bridge'') (\<lambda>_.
       retA name))))))"

definition tap_create :: "'w netlink \<Rightarrow> tap \<Rightarrow> int \<Rightarrow> int \<Rightarrow> 'w env \<Rightarrow> tapInfo res \<times> tap \<times> 'w env" where
  "tap_create N t mtu netDevQueue s =
     (case tapLink N (tp_bridge t) mtu netDevQueue s of
        (Ret name, s1) \<Rightarrow>
          (case onHost (wrapA ''failed to find the created tap'' (n_LinkByName N name)) s1 of
             (r, s2) \<Rightarrow>
               (bindR r (\<lambda>created. Ret \<lparr>ti_tap = name, ti_bridge = l_name (tp_bridge t), ti_mtu = l_mtu created\<rparr>),
                t\<lparr>tp_tapName := name\<rparr>, s2))
      | (Fail e, s1) \<Rightarrow> (Fail e, t, s1)
      | (Panic p, s1) \<Rightarrow> (Panic p, t, s1))"

definition tap_TapInfo :: "tap \<Rightarrow> tapInfo" where
  "tap_TapInfo t = \<lparr>ti_tap = tp_tapName t, ti_bridge = l_name (tp_bridge t), ti_mtu = 0\<rparr>"

definition tap_Cleanup :: "'w netlink \<Rightarrow> tap \<Rightarrow> ('w, unit) act" where
  "tap_Cleanup N t =
     bindA (tryA (n_LinkByName N (tp_tapName t))) (\<lambda>r.
     case r of Inl e \<Rightarrow> retA () | Inr link \<Rightarrow> ignoreA (n_LinkDel N (l_name link)))"

subsection \<open>Nodes\<close>

record node =
  nd_name :: string
  nd_taps :: "tap list"
  nd_volumes :: "nodeVolume list"
  nd_ignitionFile :: string
  nd_smp :: SMPSpec
  nd_memory :: string
  nd_numa :: int
  nd_networkDeviceQueue :: int
  nd_uefi :: bool
  nd_tpm :: bool
  nd_smbios :: smBIOSConfig

definition NewNode ::
  "'w http \<Rightarrow> 'w netlink \<Rightarrow> NodeSpec \<Rightarrow> ImageSpec list \<Rightarrow> DeviceClassSpec list \<Rightarrow> ('w, node) act" where
  "NewNode H N spec imageSpecs deviceClassSpecs =
     (case node_SMP spec of
        None \<Rightarrow> panicA ''invalid memory address or nil pointer dereference''
      | Some smp \<Rightarrow>
          bindA (liftA (mapR (\<lambda>v. wrapR (''failed to create the node volume '' @ v_Name v)
            (newNodeVolume H v imageSpecs deviceClassSpecs)) (node_Volumes spec))) (\<lambda>volumes.
          bindA (mapA (\<lambda>i. wrapA (''failed to new type tap: bridge is '' @ i) (newTap N i)) (node_Interfaces spec)) (\<lambda>taps.
          retA \<lparr>nd_name = node_Name spec, nd_taps = taps, nd_volumes = volumes, nd_ignitionFile = node_IgnitionFile spec,
            nd_smp = smp, nd_memory = node_Memory spec, nd_numa = node_NUMA_Nodes spec,
            nd_networkDeviceQueue = node_NetworkDeviceQueue spec, nd_uefi = node_UEFI spec, nd_tpm = node_TPM spec,
            nd_smbios = \<lparr>sm_manufacturer = sb_Manufacturer (node_SMBIOS spec), sm_product = sb_Product (node_SMBIOS spec),
              sm_serial = sb_Serial (node_SMBIOS spec)\<rparr>\<rparr>)))"

definition node_Prepare :: "'w files \<Rightarrow> 'w http \<Rightarrow> string \<Rightarrow> node \<Rightarrow> ('w, node) act" where
  "node_Prepare F H dir n =
     bindA (mapA (volume_prepare F H dir) (nd_volumes n)) (\<lambda>vs. retA (n\<lparr>nd_volumes := vs\<rparr>))"

definition createVolumes :: "'w files \<Rightarrow> 'w commands \<Rightarrow> node \<Rightarrow> string \<Rightarrow> ('w, volumeArgs list) act" where
  "createVolumes F C n dataDir =
     mapA (\<lambda>v. wrapA ''failed to create the volume'' (volume_create F C dataDir (filepath_Join [''volumes'', nd_name n]) v))
       (nd_volumes n)"

text \<open>The taps created before an error keep their names.\<close>

fun createTaps :: "'w netlink \<Rightarrow> int \<Rightarrow> int \<Rightarrow> tap list \<Rightarrow> 'w env \<Rightarrow> tapInfo list res \<times> tap list \<times> 'w env" where
  "createTaps N mtu queue [] s = (Ret [], [], s)"
| "createTaps N mtu queue (t # ts) s =
     (case tap_create N t mtu queue s of
        (Ret info, t', s1) \<Rightarrow>
          (case createTaps N mtu queue ts s1 of (r, ts', s2) \<Rightarrow> (bindR r (\<lambda>infos. Ret (info # infos)), t' # ts', s2))
      | (Fail e, t', s1) \<Rightarrow> (Fail (Wrapped ''failed to create the tap'' e), t' # ts, s1)
      | (Panic p, t', s1) \<Rightarrow> (Panic p, t' # ts, s1))"

definition createNVRAM :: "'w files \<Rightarrow> 'w commands \<Rightarrow> string \<Rightarrow> ('w, unit) act" where
  "createNVRAM F C p =
     bindA (tryA (f_Stat F p)) (\<lambda>st.
     case st of
       Inl e \<Rightarrow> if IsNotExist e then c_Run C [''cp'', defaultOVMFVarsPath, p] else retA ()
     | Inr _ \<Rightarrow> retA ())"

text \<open>
  \<open>p_Done\<close> is the \<open>select\<close> between 100 milliseconds and the end of the context: it returns
  whether the context has ended, and the host may change meanwhile.
\<close>

record 'w procs =
  p_Dial :: "string \<Rightarrow> ('w, nat) act"
  p_Done :: "'w \<Rightarrow> bool \<times> 'w"
  p_CloseConn :: "nat \<Rightarrow> ('w, unit) act"
  p_Wait :: "nat \<Rightarrow> ('w, unit) act"

text \<open>\<open>os.Stat\<close> of a socket in a waiting loop: whether it is there, or the error that ends the loop.\<close>

definition appeared :: "'w files \<Rightarrow> string \<Rightarrow> ('w, bool) act" where
  "appeared F p =
     bindA (tryA (f_Stat F p)) (\<lambda>st.
     case st of Inr _ \<Rightarrow> retA True | Inl e \<Rightarrow> if IsNotExist e then retA False else failA e)"

text \<open>Waiting for a list of sockets; the result is false when the context ends first.\<close>

fun all_appeared :: "'w files \<Rightarrow> string list \<Rightarrow> ('w, bool) act" where
  "all_appeared F [] = retA True"
| "all_appeared F (p # ps) = bindA (appeared F p) (\<lambda>a. bindA (all_appeared F ps) (\<lambda>b. retA (a \<and> b)))"

partial_function (option) waitFor :: "'w files \<Rightarrow> 'w procs \<Rightarrow> string list \<Rightarrow> 'w \<Rightarrow> (bool res \<times> 'w) option" where
  "waitFor F P ps w =
     (case all_appeared F ps w of
        (Ret ok, w1) \<Rightarrow>
          if ok then Some (Ret True, w1)
          else (case p_Done P w1 of (stop, w2) \<Rightarrow> if stop then Some (Ret False, w2) else waitFor F P ps w2)
      | (Fail e, w1) \<Rightarrow> Some (Fail e, w1)
      | (Panic q, w1) \<Rightarrow> Some (Panic q, w1))"

text \<open>The socket directory and the process; an ended context ends the wait without an error.\<close>

definition startSWTPM :: "'w files \<Rightarrow> 'w commands \<Rightarrow> 'w procs \<Rightarrow> node \<Rightarrow> Runtime \<Rightarrow> 'w \<Rightarrow> (unit res \<times> 'w) option" where
  "startSWTPM F C P n r w =
     (case bindA (f_Mkdir F (swtpmSocketDirPath r (nd_name n))) (\<lambda>_.
           c_Start C [''swtpm'', ''socket'', ''--tpmstate'', ''dir='' @ swtpmSocketDirPath r (nd_name n), ''--tpm2'', ''--ctrl'',
             ''type=unixio,path='' @ swtpmSocketPath r (nd_name n)]) w of
        (Ret _, w1) \<Rightarrow> map_option (\<lambda>(x, w2). (bindR x (\<lambda>_. Ret ()), w2)) (waitFor F P [swtpmSocketPath r (nd_name n)] w1)
      | (Fail e, w1) \<Rightarrow> Some (Fail e, w1)
      | (Panic q, w1) \<Rightarrow> Some (Panic q, w1))"

definition removeIfExists :: "'w files \<Rightarrow> string \<Rightarrow> ('w, unit) act" where
  "removeIfExists F f = bindA (tryA (f_Stat F f)) (\<lambda>st. case st of Inr _ \<Rightarrow> ignoreA (f_Remove F f) | Inl e \<Rightarrow> retA ())"

definition removeDirIfExists :: "'w files \<Rightarrow> string \<Rightarrow> ('w, unit) act" where
  "removeDirIfExists F d = bindA (tryA (f_Stat F d)) (\<lambda>st. case st of Inr _ \<Rightarrow> ignoreA (f_RemoveAll F d) | Inl e \<Rightarrow> retA ())"

definition node_CleanupGarbage :: "'w files \<Rightarrow> node \<Rightarrow> Runtime \<Rightarrow> ('w, unit) act" where
  "node_CleanupGarbage F n r =
     bindA (forA (removeIfExists F) [guestSocketPath r (nd_name n), qmpSocketPath r (nd_name n), socketPath r (nd_name n)]) (\<lambda>_.
     removeDirIfExists F (swtpmSocketDirPath r (nd_name n)))"

definition node_Taps :: "node \<Rightarrow> string \<rightharpoonup> string" where
  "node_Taps n = map_of (rev (map (\<lambda>t. (l_name (tp_bridge t), tp_tapName t)) (nd_taps n)))"

definition node_Cleanup :: "'w netlink \<Rightarrow> node \<Rightarrow> ('w, unit) act" where
  "node_Cleanup N n = forA (tap_Cleanup N) (nd_taps n)"

subsection \<open>Starting a virtual machine\<close>

record vm =
  vm_cmd :: nat
  vm_qmp :: string
  vm_connGuest :: nat
  vm_guest :: string
  vm_socket :: string
  vm_swtpmDir :: string

text \<open>Everything before the wait for the sockets: volumes, taps, NVRAM, and the QEMU process.\<close>

definition startQemu ::
  "'w files \<Rightarrow> 'w commands \<Rightarrow> 'w netlink \<Rightarrow> bool \<Rightarrow> node \<Rightarrow> Runtime \<Rightarrow> int \<Rightarrow> 'w env \<Rightarrow> nat res \<times> node \<times> 'w env" where
  "startQemu F C N vhost n r mtu s =
     (case onHost (createVolumes F C n (r_DataDir r)) s of
        (Ret vArgs, s1) \<Rightarrow>
          (case createTaps N mtu (nd_networkDeviceQueue n) (nd_taps n) s1 of
             (Ret tapInfos, taps, s2) \<Rightarrow>
               (case bindA (onHost (if nd_uefi n then createNVRAM F C (nvramPath r (nd_name n)) else retA ())) (\<lambda>_.
                     bindA (onRng (qemu_command vhost
                       (newQemu (nd_name n) tapInfos vArgs (nd_ignitionFile n) (nd_smp n) (nd_memory n) (nd_numa n)
                         (nd_networkDeviceQueue n) (nd_uefi n) (nd_tpm n) (nd_smbios n)) r)) (\<lambda>c.
                     onHost (wrapA ''failed to start qemuCommand'' (c_Start C c)))) s2 of
                  (x, s3) \<Rightarrow> (x, n\<lparr>nd_taps := taps\<rparr>, s3))
           | (Fail e, taps, s2) \<Rightarrow> (Fail e, n\<lparr>nd_taps := taps\<rparr>, s2)
           | (Panic p, taps, s2) \<Rightarrow> (Panic p, n\<lparr>nd_taps := taps\<rparr>, s2))
      | (Fail e, s1) \<Rightarrow> (Fail e, n, s1)
      | (Panic p, s1) \<Rightarrow> (Panic p, n, s1))"

text \<open>
  The wait and the connection to the guest. When the context ends first, \<open>Setup\<close> returns a
  nil VM, an empty serial and no error. The goroutine that reads from the guest is
  \<open>guest_handle\<close> of theory \<open>Bmc\<close>.
\<close>

definition connectGuest :: "'w files \<Rightarrow> 'w procs \<Rightarrow> node \<Rightarrow> Runtime \<Rightarrow> nat \<Rightarrow> 'w \<Rightarrow> ((vm option \<times> string) res \<times> 'w) option" where
  "connectGuest F P n r cmd w =
     (let guest = guestSocketPath r (nd_name n); qmp = qmpSocketPath r (nd_name n)
      in case waitFor F P [qmp, guest] w of
           None \<Rightarrow> None
         | Some (Ret True, w1) \<Rightarrow>
             Some (bindA (p_Dial P guest) (\<lambda>connGuest.
               retA (Some \<lparr>vm_cmd = cmd, vm_qmp = qmp, vm_connGuest = connGuest, vm_guest = guest,
                  vm_socket = socketPath r (nd_name n), vm_swtpmDir = swtpmSocketDirPath r (nd_name n)\<rparr>, sm_serial (nd_smbios n))) w1)
         | Some (Ret False, w1) \<Rightarrow> Some (Ret (None, ''''), w1)
         | Some (Fail e, w1) \<Rightarrow> Some (Fail e, w1)
         | Some (Panic q, w1) \<Rightarrow> Some (Panic q, w1))"

definition node_Setup ::
  "'w files \<Rightarrow> 'w commands \<Rightarrow> 'w netlink \<Rightarrow> 'w procs \<Rightarrow> bool \<Rightarrow> node \<Rightarrow> Runtime \<Rightarrow> int \<Rightarrow> 'w env
   \<Rightarrow> ((vm option \<times> string) res \<times> node \<times> 'w env) option" where
  "node_Setup F C N P vhost n r mtu s =
     (case (if r_Force r then node_CleanupGarbage F n r else retA ()) (env_host s) of
        (Ret _, w0) \<Rightarrow>
          (case (if nd_tpm n then startSWTPM F C P n r w0 else Some (Ret (), w0)) of
             None \<Rightarrow> None
           | Some (Ret _, w1) \<Rightarrow>
               (case startQemu F C N vhost n r mtu (s\<lparr>env_host := w1\<rparr>) of
                  (Ret cmd, n', s2) \<Rightarrow>
                    map_option (\<lambda>(x, w3). (x, n', s2\<lparr>env_host := w3\<rparr>)) (connectGuest F P n' r cmd (env_host s2))
                | (Fail e, n', s2) \<Rightarrow> Some (Fail e, n', s2)
                | (Panic p, n', s2) \<Rightarrow> Some (Panic p, n', s2))
           | Some (Fail e, w1) \<Rightarrow> Some (Fail e, n, s\<lparr>env_host := w1\<rparr>)
           | Some (Panic p, w1) \<Rightarrow> Some (Panic p, n, s\<lparr>env_host := w1\<rparr>))
      | (Fail e, w0) \<Rightarrow> Some (Fail e, n, s\<lparr>env_host := w0\<rparr>)
      | (Panic p, w0) \<Rightarrow> Some (Panic p, n, s\<lparr>env_host := w0\<rparr>))"

subsection \<open>Virtual machines\<close>

definition vm_Wait :: "'w procs \<Rightarrow> vm \<Rightarrow> ('w, unit) act" where
  "vm_Wait P v = p_Wait P (vm_cmd v)"

definition vm_SocketPath :: "vm \<Rightarrow> string" where
  "vm_SocketPath v = vm_socket v"

definition vm_Cleanup :: "'w files \<Rightarrow> 'w procs \<Rightarrow> vm \<Rightarrow> ('w, unit) act" where
  "vm_Cleanup F P v =
     bindA (tryA (f_Stat F (vm_guest v))) (\<lambda>st.
     bindA (case st of Inr _ \<Rightarrow> ignoreA (p_CloseConn P (vm_connGuest v)) | Inl e \<Rightarrow> retA ()) (\<lambda>_.
     bindA (forA (removeIfExists F) [vm_guest v, vm_qmp v, vm_socket v]) (\<lambda>_.
     removeDirIfExists F (vm_swtpmDir v))))"

subsection \<open>Nodes of a validated cluster\<close>

text \<open>The references of a volume resolve: exactly what \<open>newNodeVolume\<close> needs.\<close>

definition volume_resolves :: "'w http \<Rightarrow> ImageSpec list \<Rightarrow> DeviceClassSpec list \<Rightarrow> NodeVolumeSpec \<Rightarrow> bool" where
  "volume_resolves H images classes v \<longleftrightarrow>
     (v_DeviceClass v = '''' \<or> v_DeviceClass v \<in> dc_Name ` set classes) \<and>
     (v_Kind v = ''image'' \<longrightarrow> (\<exists>s. findImage (v_Image v) images = Some s \<and> image_usable H s))"

lemma newVolume_no_panic: "newNodeVolume H v images classes \<noteq> Panic p" if "\<And>u. h_ParseURL H u \<noteq> Panic p"
proof -
  have "newImage H s \<noteq> Panic p" for s
    using that by (auto simp: newImage_def NewDecompressor_def bindR_eq_Panic split: if_splits)
  then show ?thesis
    by (auto simp: newNodeVolume_def Let_def bindR_eq_Panic split: if_splits option.splits)
qed

lemma mapR_Ret_iff: "(\<exists>ys. mapR f xs = Ret ys) \<longleftrightarrow> (\<forall>x \<in> set xs. \<exists>y. f x = Ret y)"
  by (induction xs) (auto simp: bindR_eq_Ret)

lemma mapR_no_panic: "(\<And>x. f x \<noteq> Panic p) \<Longrightarrow> mapR f xs \<noteq> Panic p"
  by (induction xs) (auto simp: bindR_eq_Panic)

context link_host
begin

lemma newTaps:
  "\<exists>w'. lk w' = lk w \<and> tbl w' = tbl w \<and>
     (if \<forall>i \<in> set is. lk w i \<noteq> None
      then \<exists>ts. mapA (\<lambda>i. wrapA (msg i) (newTap N i)) is w = (Ret ts, w') \<and>
        list_all2 (\<lambda>i t. \<exists>s. lk w i = Some s \<and> tp_tapName t = '''' \<and>
          tp_bridge t = \<lparr>l_name = i, l_mtu = ls_mtu s, l_isBridge = (ls_kind s = KBridge)\<rparr>) is ts
      else \<exists>e. mapA (\<lambda>i. wrapA (msg i) (newTap N i)) is w = (Fail e, w'))"
proof (induction "is" arbitrary: w)
  case Nil
  then show ?case by (auto simp: retA_def)
next
  case (Cons i xs)
  show ?case
  proof (cases "lk w i")
    case None
    then obtain e w1 where "n_LinkByName N i w = (Fail e, w1)" "lk w1 = lk w" "tbl w1 = tbl w" using byname_absent by blast
    with None show ?thesis by (auto simp: newTap_def bindA_def wrapA_def)
  next
    case (Some s)
    then obtain w1 where w1: "n_LinkByName N i w = (Ret \<lparr>l_name = i, l_mtu = ls_mtu s, l_isBridge = (ls_kind s = KBridge)\<rparr>, w1)"
      "lk w1 = lk w" "tbl w1 = tbl w" using byname_law by blast
    with Cons.IH [of w1] Some show ?thesis
      by (auto simp: newTap_def bindA_def wrapA_def retA_def split: if_splits)
  qed
qed

end

text \<open>
  C27. For a validated node of a validated cluster, \<open>NewNode\<close> never panics, and returns a
  node exactly when every volume's references resolve and every interface names an existing
  link; the node then has one tap per interface and one volume per volume of the
  specification, in order. No link and no rule is changed.
\<close>

theorem new_node_of_valid_spec:
  assumes "link_host T tbl N lk" "node_ok spec" "list_all deviceclass_ok classes" "\<And>u p. h_ParseURL H u \<noteq> Panic p"
  shows "\<exists>r w'. NewNode H N spec images classes w = (r, w') \<and> lk w' = lk w \<and> tbl w' = tbl w \<and> (\<forall>p. r \<noteq> Panic p) \<and>
    ((\<exists>n. r = Ret n) \<longleftrightarrow> (\<forall>v \<in> set (node_Volumes spec). volume_resolves H images classes v) \<and>
      (\<forall>i \<in> set (node_Interfaces spec). lk w i \<noteq> None)) \<and>
    (\<forall>n. r = Ret n \<longrightarrow> map (\<lambda>t. l_name (tp_bridge t)) (nd_taps n) = node_Interfaces spec \<and>
      list_all2 (\<lambda>v nv. newNodeVolume H v images classes = Ret nv) (node_Volumes spec) (nd_volumes n))"
proof -
  obtain smp where smp: "node_SMP spec = Some smp" using assms(2) by (auto simp: node_ok_def)
  let ?f = "\<lambda>v. wrapR (''failed to create the node volume '' @ v_Name v) (newNodeVolume H v images classes)"
  have np: "mapR ?f (node_Volumes spec) \<noteq> Panic p" for p
    by (rule mapR_no_panic) (simp add: newVolume_no_panic assms(4))
  have vr: "(\<exists>y. ?f v = Ret y) \<longleftrightarrow> volume_resolves H images classes v" if "v \<in> set (node_Volumes spec)" for v
    using new_volume_accepts [OF _ assms(3), of v H images] assms(2) that by (auto simp: node_ok_def volume_resolves_def)
  have iff: "(\<exists>vs. mapR ?f (node_Volumes spec) = Ret vs) \<longleftrightarrow> (\<forall>v \<in> set (node_Volumes spec). volume_resolves H images classes v)"
    using vr by (simp add: mapR_Ret_iff)
  note taps = link_host.newTaps [OF assms(1), of w "node_Interfaces spec" "\<lambda>i. ''failed to new type tap: bridge is '' @ i"]
  show ?thesis
  proof (cases "mapR ?f (node_Volumes spec)")
    case (Ret vs)
    have all2: "list_all2 (\<lambda>v nv. newNodeVolume H v images classes = Ret nv) (node_Volumes spec) vs"
      using Ret by (simp add: mapR_eq_Ret)
    have names: "map (\<lambda>t. l_name (tp_bridge t)) ts = is"
      if "list_all2 (\<lambda>i t. \<exists>s. lk w i = Some s \<and> tp_tapName t = '''' \<and>
          tp_bridge t = \<lparr>l_name = i, l_mtu = ls_mtu s, l_isBridge = (ls_kind s = KBridge)\<rparr>) is ts" for "is" ts
      using that by (induction rule: list_all2_induct) auto
    from taps iff Ret smp all2 names show ?thesis
      by (auto simp: NewNode_def bindA_def retA_def split: if_splits)
  next
    case (Fail e)
    with iff smp show ?thesis by (auto simp: NewNode_def failA_def)
  next
    case (Panic p)
    with np show ?thesis by blast
  qed
qed


definition exampleNode :: NodeSpec where
  "exampleNode = \<lparr>node_Name = ''node1'', node_Interfaces = [''br0''], node_Volumes = [exampleVolume], node_IgnitionFile = '''',
     node_CPU = 0, node_SMP = Some \<lparr>smp_CPUs = 2, smp_Cores = 0, smp_Threads = 0, smp_Dies = 0, smp_Sockets = 0, smp_MaxCPUs = 0\<rparr>,
     node_Memory = ''2G'', node_NUMA_Nodes = 0, node_NetworkDeviceQueue = 0, node_UEFI = False, node_TPM = False,
     node_SMBIOS = \<lparr>sb_Manufacturer = '''', sb_Product = '''', sb_Serial = ''s1''\<rparr>\<rparr>"

definition bridgedNet :: refLinks where
  "bridgedNet = exampleNet\<lparr>rl_links := (''br0'', newLink KBridge) # rl_links exampleNet\<rparr>"

theorem new_node_of_valid_spec_witness:
  "(\<exists>n. fst (NewNode (refHttp Map.empty) refNetlink exampleNode [] [\<lparr>dc_Name = ''ssd'', dc_Path = ''/ssd''\<rparr>] bridgedNet) = Ret n) \<and>
   \<not> (\<exists>n. fst (NewNode (refHttp Map.empty) refNetlink exampleNode [] [\<lparr>dc_Name = ''ssd'', dc_Path = ''/ssd''\<rparr>] exampleNet) = Ret n)"
proof -
  let ?cs = "[\<lparr>dc_Name = ''ssd'', dc_Path = ''/ssd''\<rparr>]" and ?H = "refHttp Map.empty :: refLinks http"
  have ok: "node_ok exampleNode" "list_all deviceclass_ok ?cs" "\<And>u p. h_ParseURL ?H u \<noteq> Panic p"
    by (simp_all add: node_ok_def exampleNode_def volume_ok_def exampleVolume_def deviceclass_ok_def filepath_IsAbs_def refHttp_def)
  have v: "volume_resolves ?H [] ?cs exampleVolume" by (simp add: volume_resolves_def exampleVolume_def)
  have l: "ref_lk bridgedNet ''br0'' = Some (newLink KBridge)" "ref_lk exampleNet ''br0'' = None"
    by (simp_all add: ref_lk_def bridgedNet_def exampleNet_def refKernel.defs)
  note made = new_node_of_valid_spec [OF rlink.link_host_axioms ok, of "[]"]
  from made [of bridgedNet] made [of exampleNet] v l show ?thesis
    by (auto simp: exampleNode_def)
qed

subsection \<open>Taps come and go\<close>

text \<open>No link without a name, and masters exist.\<close>

definition links_ok :: "links \<Rightarrow> bool" where
  "links_ok l \<longleftrightarrow> l '''' = None \<and> (\<forall>x s b. l x = Some s \<longrightarrow> ls_master s = Some b \<longrightarrow> l b \<noteq> None)"

definition tap_state :: "int \<Rightarrow> int \<Rightarrow> string \<Rightarrow> linkState" where
  "tap_state mtu queue b =
     \<lparr>ls_kind = KTap (if 1 < queue then Some queue else None), ls_mtu = (if 0 < mtu then mtu else 1500), ls_up = True,
      ls_master = Some b, ls_addrs = []\<rparr>"

text \<open>A tap made by \<open>newTap\<close> on a bridge that exists.\<close>

definition on_bridge :: "links \<Rightarrow> tap \<Rightarrow> bool" where
  "on_bridge l t \<longleftrightarrow> tp_tapName t = '''' \<and> l_isBridge (tp_bridge t) \<and>
     (\<exists>s. l (l_name (tp_bridge t)) = Some s \<and> ls_kind s = KBridge)"

lemma links_ok_add: "links_ok l \<Longrightarrow> x \<noteq> '''' \<Longrightarrow> l b \<noteq> None \<Longrightarrow> links_ok (l(x \<mapsto> tap_state mtu queue b))"
  by (auto simp: links_ok_def tap_state_def split: if_splits)

lemma without_added:
  assumes "links_ok l" "l x = None" "l' = l(x \<mapsto> s)" "ls_master s \<noteq> Some x"
  shows "without_link x l' = l"
proof (rule ext)
  fix y
  have "ls_master t \<noteq> Some x" if "l y = Some t" for t using assms(1,2) that unfolding links_ok_def by (metis option.distinct(1))
  then show "without_link x l' y = l y"
    using assms(2-4) by (cases "l y") (auto simp: without_link_def)
qed

lemma RandomLinkName_name:
  "RandomLinkName LinkTypeTap g = (Ret x, g') \<Longrightarrow> link_name_ok x \<and> x \<noteq> ''''"
proof -
  assume "RandomLinkName LinkTypeTap g = (Ret x, g')"
  then obtain bs where b: "rand_read 4 g = (Ret bs, g')" "x = ''pm_'' @ ''tap'' @ hex_string bs"
    by (auto simp: RandomLinkName_def link_prefix_def LinkTypeTap_def split: prod.splits res.splits)
  have "length bs = 4" using rand_read_length [OF b(1)] .
  moreover have "CHR ''/'' \<notin> set (hex_string bs)" using hex_string_chars [of bs] by auto
  ultimately show ?thesis by (auto simp: b(2) link_name_ok_def)
qed

lemma RandomLinkName_no_panic: "RandomLinkName typ g \<noteq> (Panic p, g')"
  using rand_read_no_panic [of 4 g p] by (auto simp: RandomLinkName_def split: prod.splits res.splits)

context link_host
begin

lemma brings_addTap: "link_name_ok x \<Longrightarrow> lk w x = None \<Longrightarrow>
    brings (n_LinkAdd N (TapReq x q)) w ((lk w)(x \<mapsto> newLink (KTap q))) (tbl w)"
  using add_law [of "TapReq x q" w] by (auto simp: brings_def)

lemma brings_master: "lk w x = Some s \<Longrightarrow> lk w b = Some t \<Longrightarrow> ls_kind t = KBridge \<Longrightarrow> x \<noteq> b \<Longrightarrow>
    brings (n_LinkSetMaster N x b) w ((lk w)(x \<mapsto> s\<lparr>ls_master := Some b\<rparr>)) (tbl w)"
  using master_law [of w x s b t] by (auto simp: brings_def)


text \<open>Bringing an added tap up behind a bridge.\<close>

lemma attach_brings:
  assumes w1: "lk w1 = l(x \<mapsto> newLink (KTap q))" and l: "l b = Some t" "ls_kind t = KBridge" "x \<noteq> b"
    and st: "tap_state mtu queue b = \<lparr>ls_kind = KTap q, ls_mtu = (if 0 < mtu then mtu else 1500), ls_up = True, ls_master = Some b, ls_addrs = []\<rparr>"
  shows "brings (bindA (if 0 < mtu then n_LinkSetMTU N x mtu else retA ()) (\<lambda>_. bindA (n_LinkSetUp N x) (\<lambda>_.
      bindA (wrapA msg (n_LinkSetMaster N x b)) (\<lambda>_. retA x)))) w1 (l(x \<mapsto> tap_state mtu queue b)) (tbl w1)"
proof -
  let ?s = "(newLink (KTap q))\<lparr>ls_mtu := if 0 < mtu then mtu else 1500\<rparr>"
  have m: "brings (if 0 < mtu then n_LinkSetMTU N x mtu else retA ()) w1 (l(x \<mapsto> ?s)) (tbl w1)"
    using brings_mtu [of w1 x "newLink (KTap q)" mtu] w1 by (auto intro!: brings_ret simp: newLink_def)
  show ?thesis
  proof (rule brings_bind [OF m])
    fix u w2 assume w2: "lk w2 = l(x \<mapsto> ?s)" "tbl w2 = tbl w1"
    have up: "brings (n_LinkSetUp N x) w2 (l(x \<mapsto> ?s\<lparr>ls_up := True\<rparr>)) (tbl w1)"
      using brings_up [of w2 x ?s] w2 by simp
    show "brings (bindA (n_LinkSetUp N x) (\<lambda>_. bindA (wrapA msg (n_LinkSetMaster N x b)) (\<lambda>_. retA x))) w2
        (l(x \<mapsto> tap_state mtu queue b)) (tbl w1)"
    proof (rule brings_bind [OF up])
      fix u w3 assume w3: "lk w3 = l(x \<mapsto> ?s\<lparr>ls_up := True\<rparr>)" "tbl w3 = tbl w1"
      have "brings (n_LinkSetMaster N x b) w3 (l(x \<mapsto> tap_state mtu queue b)) (tbl w1)"
        using brings_master [of w3 x "?s\<lparr>ls_up := True\<rparr>" b t] w3 l st by (simp add: newLink_def)
      then show "brings (bindA (wrapA msg (n_LinkSetMaster N x b)) (\<lambda>_. retA x)) w3 (l(x \<mapsto> tap_state mtu queue b)) (tbl w1)"
        by (intro brings_bind [OF brings_wrap]) (auto intro: brings_ret)
    qed
  qed
qed

text \<open>The links after a tap has been made, and when it has not.\<close>

lemma tapLink_outcome:
  assumes "lk (env_host s) b = Some t" "ls_kind t = KBridge" "l_name br = b" "l_isBridge br"
    "tapLink N br mtu queue s = (r, s')"
  shows "tbl (env_host s') = tbl (env_host s) \<and>
    ((\<exists>x. r = Ret x \<and> lk (env_host s) x = None \<and> x \<noteq> '''' \<and> lk (env_host s') = (lk (env_host s))(x \<mapsto> tap_state mtu queue b)) \<or>
     (\<exists>e. r = Fail e \<and> lk (env_host s') = lk (env_host s)))"
proof (cases "RandomLinkName LinkTypeTap (env_rng s)")
  case (Pair n g)
  let ?w = "env_host s"
  let ?q = "if 1 < queue then Some queue else None"
  show ?thesis
  proof (cases n)
    case (Fail e)
    with Pair assms(5) show ?thesis by (auto simp: tapLink_def bindA_def wrapA_def onRng_def)
  next
    case (Panic p)
    with Pair RandomLinkName_no_panic show ?thesis by blast
  next
    case (Ret x)
    with Pair have x: "link_name_ok x" "x \<noteq> ''''" using RandomLinkName_name by blast+
    let ?rest = "bindA (if 0 < mtu then n_LinkSetMTU N x mtu else retA ()) (\<lambda>_. bindA (n_LinkSetUp N x) (\<lambda>_.
       bindA (wrapA (''failed to set '' @ x @ '' to bridge '' @ b) (n_LinkSetMaster N x b)) (\<lambda>_. retA x)))"
    let ?m = "bindA (wrapA (''failed to add the tap '' @ x) (n_LinkAdd N (TapReq x ?q))) (\<lambda>_. ?rest)"
    have "wrapA ''failed to generate random tap name'' (onRng (RandomLinkName LinkTypeTap)) s = (Ret x, s\<lparr>env_rng := g\<rparr>)"
      using Pair Ret by (simp add: onRng_def)
    then have run: "tapLink N br mtu queue s = (case ?m ?w of (r, w) \<Rightarrow> (r, s\<lparr>env_rng := g, env_host := w\<rparr>))"
      using assms(3,4) by (simp add: tapLink_def bindA_Ret onHost_def)
    show ?thesis
    proof (cases "lk ?w x")
      case (Some y)
      then obtain e w' where "n_LinkAdd N (TapReq x ?q) ?w = (Fail e, w')" "lk w' = lk ?w" "tbl w' = tbl ?w"
        using add_exists [of ?w "TapReq x ?q"] by auto
      with run assms(5) show ?thesis by (auto simp: bindA_def wrapA_def)
    next
      case None
      then have xb: "x \<noteq> b" using assms(1) by auto
      have "brings ?m ?w ((lk ?w)(x \<mapsto> tap_state mtu queue b)) (tbl ?w)"
      proof (rule brings_bind [OF brings_wrap [OF brings_addTap [OF x(1) None]]])
        fix u w1 assume w1: "lk w1 = (lk ?w)(x \<mapsto> newLink (KTap ?q))" "tbl w1 = tbl ?w"
        from attach_brings [OF w1(1) assms(1,2) xb, of mtu queue] w1(2)
        show "brings ?rest w1 ((lk ?w)(x \<mapsto> tap_state mtu queue b)) (tbl ?w)" by (simp add: tap_state_def)
      qed
      moreover have "\<And>y w'. ?m ?w = (Ret y, w') \<Longrightarrow> y = x" by (auto simp: bindA_def retA_def split: prod.splits res.splits if_splits)
      ultimately show ?thesis using run assms(5) None x(2) by (auto simp: brings_def)
    qed
  qed
qed

lemma tap_create_outcome:
  assumes "on_bridge (lk (env_host s)) t" "tap_create N t mtu queue s = (r, t', s')"
  shows "tbl (env_host s') = tbl (env_host s) \<and>
    ((\<exists>x. r = Ret \<lparr>ti_tap = x, ti_bridge = l_name (tp_bridge t), ti_mtu = (if 0 < mtu then mtu else 1500)\<rparr> \<and> t' = t\<lparr>tp_tapName := x\<rparr> \<and>
        lk (env_host s) x = None \<and> x \<noteq> '''' \<and> lk (env_host s') = (lk (env_host s))(x \<mapsto> tap_state mtu queue (l_name (tp_bridge t)))) \<or>
     (\<exists>e. r = Fail e \<and> t' = t \<and> lk (env_host s') = lk (env_host s)))"
proof -
  obtain u where u: "lk (env_host s) (l_name (tp_bridge t)) = Some u" "ls_kind u = KBridge" "l_isBridge (tp_bridge t)"
    using assms(1) by (auto simp: on_bridge_def)
  obtain r1 s1 where 1: "tapLink N (tp_bridge t) mtu queue s = (r1, s1)" by force
  note out = tapLink_outcome [OF u(1,2) refl u(3) 1]
  show ?thesis
  proof (cases r1)
    case (Ret x)
    then have x: "lk (env_host s1) = (lk (env_host s))(x \<mapsto> tap_state mtu queue (l_name (tp_bridge t)))" using out by auto
    then obtain w2 where "n_LinkByName N x (env_host s1) = (Ret \<lparr>l_name = x, l_mtu = (if 0 < mtu then mtu else 1500), l_isBridge = False\<rparr>, w2)"
      "lk w2 = lk (env_host s1)" "tbl w2 = tbl (env_host s1)"
      using byname_law [of "env_host s1" x "tap_state mtu queue (l_name (tp_bridge t))"] by (auto simp: tap_state_def)
    with 1 Ret out assms(2) show ?thesis by (auto simp: tap_create_def onHost_def wrapA_def)
  qed (use 1 out assms(2) in \<open>auto simp: tap_create_def\<close>)
qed

end

text \<open>Links with taps of given names added behind given bridges.\<close>

fun with_taps :: "int \<Rightarrow> int \<Rightarrow> (string \<times> string) list \<Rightarrow> links \<Rightarrow> links" where
  "with_taps mtu queue [] l = l"
| "with_taps mtu queue ((x, b) # nbs) l = (with_taps mtu queue nbs l)(x \<mapsto> tap_state mtu queue b)"

lemma with_taps_upd: "x \<notin> fst ` set nbs \<Longrightarrow> with_taps mtu queue nbs (l(x \<mapsto> s)) = (with_taps mtu queue nbs l)(x \<mapsto> s)"
  by (induction nbs) (auto simp: fun_upd_twist)

lemma with_taps_other: "x \<notin> fst ` set nbs \<Longrightarrow> with_taps mtu queue nbs l x = l x"
  by (induction nbs) auto

lemma links_ok_taps:
  "links_ok l \<Longrightarrow> '''' \<notin> fst ` set nbs \<Longrightarrow> \<forall>(x, b) \<in> set nbs. l b \<noteq> None \<Longrightarrow> fst ` set nbs \<inter> dom l = {}
   \<Longrightarrow> links_ok (with_taps mtu queue nbs l)"
proof (induction nbs)
  case Nil
  then show ?case by simp
next
  case (Cons a nbs)
  obtain x b where a: "a = (x, b)" by force
  have "b \<notin> fst ` set nbs" using Cons.prems(3,4) a by auto
  with Cons a have "links_ok (with_taps mtu queue nbs l)" "with_taps mtu queue nbs l b \<noteq> None" "x \<noteq> ''''"
    by (auto simp: with_taps_other)
  then show ?case unfolding a with_taps.simps using links_ok_add by blast
qed

text \<open>The names and bridges of the taps that exist.\<close>

definition made :: "tap list \<Rightarrow> (string \<times> string) list" where
  "made ts = map (\<lambda>t. (tp_tapName t, l_name (tp_bridge t))) (filter (\<lambda>t. tp_tapName t \<noteq> '''') ts)"

context link_host
begin

lemma createTaps_outcome:
  assumes "createTaps N mtu queue ts s = (r, ts', s')" "\<forall>t \<in> set ts. on_bridge (lk (env_host s)) t"
  shows "tbl (env_host s') = tbl (env_host s) \<and> lk (env_host s') = with_taps mtu queue (made ts') (lk (env_host s)) \<and>
    map tp_bridge ts' = map tp_bridge ts \<and> distinct (map fst (made ts')) \<and> fst ` set (made ts') \<inter> dom (lk (env_host s)) = {} \<and>
    (case r of Ret infos \<Rightarrow> '''' \<notin> tp_tapName ` set ts' \<and>
         infos = map (\<lambda>t. \<lparr>ti_tap = tp_tapName t, ti_bridge = l_name (tp_bridge t), ti_mtu = (if 0 < mtu then mtu else 1500)\<rparr>) ts'
     | Fail e \<Rightarrow> True | Panic p \<Rightarrow> False)"
  using assms
proof (induction ts arbitrary: s r ts' s')
  case Nil
  then show ?case by (auto simp: made_def)
next
  case (Cons t ts)
  obtain r1 t1 s1 where 1: "tap_create N t mtu queue s = (r1, t1, s1)" by (metis prod_cases3)
  let ?l = "lk (env_host s)"
  have empty: "made ts = []" using Cons.prems(2) by (auto simp: made_def on_bridge_def filter_empty_conv)
  have "on_bridge ?l t" using Cons.prems(2) by simp
  note out = tap_create_outcome [OF this 1]
  show ?case
  proof (cases r1)
    case (Ret info)
    then obtain x where x: "info = \<lparr>ti_tap = x, ti_bridge = l_name (tp_bridge t), ti_mtu = (if 0 < mtu then mtu else 1500)\<rparr>"
      "t1 = t\<lparr>tp_tapName := x\<rparr>" "?l x = None" "x \<noteq> ''''" "tbl (env_host s1) = tbl (env_host s)"
      "lk (env_host s1) = ?l(x \<mapsto> tap_state mtu queue (l_name (tp_bridge t)))" using out by auto
    obtain r2 ts2 s2 where 2: "createTaps N mtu queue ts s1 = (r2, ts2, s2)" by (metis prod_cases3)
    have "\<forall>t \<in> set ts. on_bridge (lk (env_host s1)) t"
      using Cons.prems(2) x(3) by (auto simp: on_bridge_def x(6))
    note IH = Cons.IH [OF 2 this]
    have fresh: "x \<notin> fst ` set (made ts2)" using IH x(6) by auto
    have made: "made (t1 # ts2) = (x, l_name (tp_bridge t)) # made ts2" using x(2,4) by (simp add: made_def)
    have eq: "r = bindR r2 (\<lambda>infos. Ret (info # infos))" "ts' = t1 # ts2" "s' = s2" using Cons.prems(1) 1 2 Ret by auto
    have "lk (env_host s2) = with_taps mtu queue (made ts2) (?l(x \<mapsto> tap_state mtu queue (l_name (tp_bridge t))))"
      using IH unfolding x(6) by blast
    then have "lk (env_host s2) = with_taps mtu queue (made (t1 # ts2)) ?l" using fresh by (simp add: made with_taps_upd)
    moreover have "fst ` set (made (t1 # ts2)) \<inter> dom ?l = {}" "distinct (map fst (made (t1 # ts2)))"
      using IH fresh x(3) unfolding made x(6) by auto
    moreover have "tbl (env_host s2) = tbl (env_host s)" "map tp_bridge ts2 = map tp_bridge ts" using IH x(5) by simp_all
    moreover have "tp_tapName t1 = x" "tp_bridge t1 = tp_bridge t" using x(2) by simp_all
    ultimately show ?thesis using IH x(1,4) unfolding eq by (cases r2) auto
  next
    case (Fail e)
    with out Cons.prems 1 empty show ?thesis
      by (auto simp: on_bridge_def made_def)
  next
    case (Panic p)
    with out show ?thesis by auto
  qed
qed

lemma tap_Cleanup_brings:
  "\<exists>w'. tap_Cleanup N t w = (Ret (), w') \<and> tbl w' = tbl w \<and>
     lk w' = (if lk w (tp_tapName t) = None then lk w else without_link (tp_tapName t) (lk w))"
proof (cases "lk w (tp_tapName t)")
  case None
  from byname_absent [OF this] None show ?thesis by (auto simp: tap_Cleanup_def bindA_def tryA_def retA_def)
next
  case (Some u)
  then obtain w1 where w1: "n_LinkByName N (tp_tapName t) w = (Ret \<lparr>l_name = tp_tapName t, l_mtu = ls_mtu u, l_isBridge = (ls_kind u = KBridge)\<rparr>, w1)"
    "lk w1 = lk w" "tbl w1 = tbl w" using byname_law by blast
  with del_law [of w1 "tp_tapName t"] Some show ?thesis by (auto simp: tap_Cleanup_def bindA_def tryA_def ignoreA_def)
qed

lemma cleanup_taps:
  assumes "lk w = with_taps mtu queue (made ts) l" "links_ok l" "distinct (map fst (made ts))"
    "fst ` set (made ts) \<inter> dom l = {}" "\<forall>t \<in> set ts. l (l_name (tp_bridge t)) \<noteq> None"
  shows "\<exists>w'. forA (tap_Cleanup N) ts w = (Ret (), w') \<and> lk w' = l \<and> tbl w' = tbl w"
  using assms
proof (induction ts arbitrary: w)
  case Nil
  then show ?case by (simp add: made_def retA_def)
next
  case (Cons t ts)
  obtain w1 where w1: "tap_Cleanup N t w = (Ret (), w1)" "tbl w1 = tbl w"
    "lk w1 = (if lk w (tp_tapName t) = None then lk w else without_link (tp_tapName t) (lk w))" using tap_Cleanup_brings by blast
  have b: "\<forall>(x, b) \<in> set (made ts). l b \<noteq> None" "'''' \<notin> fst ` set (made ts)" using Cons.prems(5) by (auto simp: made_def)
  have "lk w1 = with_taps mtu queue (made ts) l"
  proof (cases "tp_tapName t = ''''")
    case True
    then have "made (t # ts) = made ts" by (simp add: made_def)
    moreover have "lk w '''' = None"
      using Cons.prems(1,2) b(2) by (simp add: calculation with_taps_other links_ok_def)
    ultimately show ?thesis using w1(3) Cons.prems(1) True by simp
  next
    case False
    let ?x = "tp_tapName t" and ?l = "with_taps mtu queue (made ts) l"
    have m: "made (t # ts) = (?x, l_name (tp_bridge t)) # made ts" using False by (simp add: made_def)
    have lw: "lk w = ?l(?x \<mapsto> tap_state mtu queue (l_name (tp_bridge t)))" using Cons.prems(1) unfolding m with_taps.simps .
    have ok: "links_ok ?l" using Cons.prems(2,4) b by (intro links_ok_taps) (auto simp: m)
    have new: "?l ?x = None" using Cons.prems(3,4) by (auto simp: m with_taps_other)
    have "l_name (tp_bridge t) \<noteq> ?x" using Cons.prems(4,5) by (auto simp: m)
    then have "without_link ?x (lk w) = ?l" by (intro without_added [OF ok new lw]) (auto simp: tap_state_def)
    then show ?thesis using w1(3) lw by simp
  qed
  moreover have "distinct (map fst (made ts))" "fst ` set (made ts) \<inter> dom l = {}"
    using Cons.prems(3,4) by (auto simp: made_def split: if_splits)
  ultimately show ?case
    using Cons.IH [of w1] Cons.prems(2,5) w1(1,2) by (auto simp: bindA_def)
qed

end



subsection \<open>Waiting for sockets\<close>

text \<open>A VM that belongs to the node, or none because the context is over.\<close>

definition vm_or_ended :: "node \<Rightarrow> Runtime \<Rightarrow> bool \<Rightarrow> (vm option \<times> string) res \<Rightarrow> bool" where
  "vm_or_ended n r over x \<longleftrightarrow>
     (\<forall>v serial. x = Ret (v, serial) \<longrightarrow> (case v of
        None \<Rightarrow> serial = '''' \<and> over
      | Some v \<Rightarrow> serial = sm_serial (nd_smbios n) \<and> vm_qmp v = qmpSocketPath r (nd_name n) \<and>
          vm_guest v = guestSocketPath r (nd_name n) \<and> vm_socket v = socketPath r (nd_name n)))"

text \<open>
  What the loops rely on: the context has a deadline, measured by \<open>clock\<close>. Looking at a
  file takes no negative time, every wait that does not end the context takes some, and
  \<open>ended\<close> holds once the context has ended.
\<close>

locale deadline =
  fixes F :: "'w files" and P :: "'w procs" and clock :: "'w \<Rightarrow> nat" and ended :: "'w \<Rightarrow> bool"
  assumes stat_time: "f_Stat F p w = (r, w') \<Longrightarrow> clock w' \<le> clock w"
    and wait_time: "p_Done P w = (False, w') \<Longrightarrow> clock w' < clock w"
    and done_law: "p_Done P w = (True, w') \<Longrightarrow> ended w'"
begin

lemma appeared_time: "appeared F p w = (r, w') \<Longrightarrow> clock w' \<le> clock w"
  using stat_time [of p w] by (auto simp: appeared_def bindA_def tryA_def retA_def failA_def split: prod.splits res.splits sum.splits if_splits)

lemma all_appeared_time: "all_appeared F ps w = (r, w') \<Longrightarrow> clock w' \<le> clock w"
proof (induction ps arbitrary: r w w')
  case Nil
  then show ?case by (simp add: retA_def)
next
  case (Cons p ps)
  obtain r1 w1 where 1: "appeared F p w = (r1, w1)" by force
  obtain r2 w2 where 2: "all_appeared F ps w1 = (r2, w2)" by force
  from appeared_time [OF 1] Cons.IH [OF 2] Cons.prems 1 2 show ?case
    by (auto simp: bindA_def retA_def split: res.splits)
qed

text \<open>The wait returns; it reports no socket only when the context has ended.\<close>

lemma waitFor_returns: "\<exists>x w'. waitFor F P ps w = Some (x, w') \<and> (x = Ret False \<longrightarrow> ended w')"
proof (induction "clock w" arbitrary: w rule: less_induct)
  case less
  obtain r1 w1 where 1: "all_appeared F ps w = (r1, w1)" by force
  show ?case
  proof (cases r1)
    case (Ret ok)
    obtain stop w2 where 2: "p_Done P w1 = (stop, w2)" by force
    show ?thesis
    proof (cases "ok \<or> stop")
      case True
      then show ?thesis using 1 2 Ret done_law [of w1 w2] by (subst waitFor.simps) auto
    next
      case False
      then have "clock w2 < clock w" using wait_time [of w1 w2] all_appeared_time [OF 1] 2 by simp
      with less [of w2] False 1 2 Ret show ?thesis by (subst waitFor.simps) simp
    qed
  qed (use 1 in \<open>subst waitFor.simps, simp\<close>)+
qed

lemma connectGuest_returns: "\<exists>x w'. connectGuest F P n r cmd w = Some (x, w') \<and> vm_or_ended n r (ended w') x"
proof -
  let ?guest = "guestSocketPath r (nd_name n)"
  obtain x w1 where w: "waitFor F P [qmpSocketPath r (nd_name n), ?guest] w = Some (x, w1)" "x = Ret False \<longrightarrow> ended w1"
    using waitFor_returns by blast
  show ?thesis
  proof (cases x)
    case (Ret ok)
    obtain d w2 where d: "p_Dial P ?guest w1 = (d, w2)" by force
    show ?thesis
      by (cases ok; cases d) (use w Ret d in \<open>auto simp: connectGuest_def Let_def bindA_def retA_def vm_or_ended_def\<close>)
  qed (use w in \<open>auto simp: connectGuest_def Let_def vm_or_ended_def\<close>)
qed

lemma startSWTPM_returns: "\<exists>x w'. startSWTPM F C P n r w = Some (x, w')"
proof -
  obtain x w1 where m: "bindA (f_Mkdir F (swtpmSocketDirPath r (nd_name n))) (\<lambda>_.
           c_Start C [''swtpm'', ''socket'', ''--tpmstate'', ''dir='' @ swtpmSocketDirPath r (nd_name n), ''--tpm2'', ''--ctrl'',
             ''type=unixio,path='' @ swtpmSocketPath r (nd_name n)]) w = (x, w1)" by force
  obtain y w2 where "waitFor F P [swtpmSocketPath r (nd_name n)] w1 = Some (y, w2)" using waitFor_returns by blast
  with m show ?thesis by (cases x) (simp_all add: startSWTPM_def)
qed

end

lemma startQemu_keeps:
  assumes "startQemu F C N vhost n r mtu s = (x, n', s')"
  shows "nd_name n' = nd_name n" "nd_smbios n' = nd_smbios n"
  using assms unfolding startQemu_def by (auto split: prod.splits res.splits)

lemma node_Setup_ends:
  assumes "deadline F P clock ended"
  shows "\<exists>x n' s'. node_Setup F C N P vhost n r mtu s = Some (x, n', s') \<and> nd_name n' = nd_name n \<and>
    vm_or_ended n r (ended (env_host s')) x"
proof -
  obtain x0 w0 where 0: "(if r_Force r then node_CleanupGarbage F n r else retA ()) (env_host s) = (x0, w0)" by force
  obtain x1 w1 where 1: "(if nd_tpm n then startSWTPM F C P n r w0 else Some (Ret (), w0)) = Some (x1, w1)"
    using deadline.startSWTPM_returns [OF assms, of C n r w0] by (cases "nd_tpm n") auto
  obtain x2 n2 s2 where 2: "startQemu F C N vhost n r mtu (s\<lparr>env_host := w1\<rparr>) = (x2, n2, s2)" by (metis prod_cases3)
  note k = startQemu_keeps [OF 2]
  have v: "vm_or_ended n2 r e x = vm_or_ended n r e x" for e x unfolding vm_or_ended_def k ..
  show ?thesis
  proof (cases x0)
    case x0: (Ret u)
    show ?thesis
    proof (cases x1)
      case x1: (Ret u')
      show ?thesis
      proof (cases x2)
        case (Ret cmd)
        obtain x w' where "connectGuest F P n2 r cmd (env_host s2) = Some (x, w')" "vm_or_ended n2 r (ended w') x"
          using deadline.connectGuest_returns [OF assms] by blast
        with 0 1 2 x0 x1 Ret k show ?thesis by (simp add: node_Setup_def v)
      qed (use 0 1 2 x0 x1 k in \<open>simp_all add: node_Setup_def vm_or_ended_def\<close>)
    qed (use 0 1 x0 in \<open>simp_all add: node_Setup_def vm_or_ended_def\<close>)
  qed (use 0 in \<open>simp_all add: node_Setup_def vm_or_ended_def\<close>)
qed

text \<open>
  C29. \<open>Setup\<close> of a node returns once its context has a deadline, however long swtpm and QEMU
  take to open their sockets. A VM that it returns is that of the node: the serial of the
  specification and the sockets below the run directory. It returns no VM and no error only
  when the context has ended, and then with an empty serial.
\<close>

theorem node_setup_returns:
  assumes "deadline F P clock ended"
  shows "\<exists>x n' s'. node_Setup F C N P vhost n r mtu s = Some (x, n', s') \<and> nd_name n' = nd_name n \<and>
    vm_or_ended n r (ended (env_host s')) x"
  by (rule node_Setup_ends [OF assms])

subsection \<open>Processes of the executable host\<close>

text \<open>The files that appear during each of the next waits; the context ends after the last one.\<close>

record refProcs = refLinks +
  rp_future :: "string list list"

definition refProcs_of :: "'z refProcs_scheme procs" where
  "refProcs_of =
     \<lparr>p_Dial = (\<lambda>p w. if rf_file w p = None then (Fail (ErrNew ''connect: no such file or directory''), w)
        else (Ret (rf_next w), w\<lparr>rf_next := Suc (rf_next w)\<rparr>)),
      p_Done = (\<lambda>w. case rp_future w of
          [] \<Rightarrow> (True, w)
        | ps # fut \<Rightarrow> (False, w\<lparr>rf_file := (\<lambda>q. if q \<in> set ps then Some [] else rf_file w q), rp_future := fut\<rparr>)),
      p_CloseConn = (\<lambda>c. retA ()), p_Wait = (\<lambda>c. retA ())\<rparr>"

lemma refFiles_future: "f_Stat refFiles p w = (r, w') \<Longrightarrow> rp_future w' = rp_future w"
  by (auto simp: refFiles_def faulty_def split: list.splits option.splits if_splits)

interpretation rdead: deadline refFiles refProcs_of "\<lambda>w. length (rp_future w)" "\<lambda>w. rp_future w = []"
  by unfold_locales (auto simp: refProcs_of_def refFiles_future split: list.splits)

theorem node_setup_returns_witness:
  "\<exists>x n' s'. node_Setup refFiles refCommands refNetlink refProcs_of True
      \<lparr>nd_name = ''a'', nd_taps = [], nd_volumes = [], nd_ignitionFile = '''',
        nd_smp = \<lparr>smp_CPUs = 1, smp_Cores = 0, smp_Threads = 0, smp_Dies = 0, smp_Sockets = 0, smp_MaxCPUs = 0\<rparr>,
        nd_memory = '''', nd_numa = 0, nd_networkDeviceQueue = 0, nd_uefi = False, nd_tpm = True,
        nd_smbios = \<lparr>sm_manufacturer = '''', sm_product = '''', sm_serial = ''s''\<rparr>\<rparr>
      \<lparr>r_Force = True, r_Graphic = False, r_RunDir = ''/run'', r_DataDir = ''/data'', r_ListenAddr = '''', r_ImageCacheDir = ''''\<rparr> 1460
      \<lparr>env_host = refLinks.extend bridgedNet \<lparr>rp_future = [[], [''/run/a.qmp'', ''/run/a.guest'']]\<rparr>, env_rng = []\<rparr> = Some (x, n', s')"
  using node_setup_returns [OF rdead.deadline_axioms] by blast

end
