(* ===== verification/Bmc.thy ===== *)
theory Bmc
  imports Node
begin

text \<open>
  The BMC server of \<open>v2/pkg/vm/bmc.go\<close>. A guest announces the address of its BMC as the
  first line on its serial port; \<open>guest_handle\<close> passes it on, once, and the server adds the
  address to the BMC network that contains it and starts an IPMI and a Redfish server there
  for the VM with the serial of the guest. The calls of package \<open>net\<close> are the parameter
  \<open>sockets\<close>; a failed call leaves a nil value that the code goes on with.
\<close>

subsection \<open>Announcements of guests\<close>

record BMCInfo =
  bi_serial :: string
  bi_bmcAddress :: string

text \<open>\<open>bytes.TrimSpace\<close>: the UTF-8 encodings of Unicode white space are removed at both ends.\<close>

definition space_encodings :: "bytes list" where
  "space_encodings =
     [[0x09], [0x0a], [0x0b], [0x0c], [0x0d], [0x20], [0xc2, 0x85], [0xc2, 0xa0], [0xe1, 0x9a, 0x80]] @
     map (\<lambda>b. [0xe2, 0x80, b]) [0x80, 0x81, 0x82, 0x83, 0x84, 0x85, 0x86, 0x87, 0x88, 0x89, 0x8a, 0xa8, 0xa9, 0xaf] @
     [[0xe2, 0x81, 0x9f], [0xe3, 0x80, 0x80]]"

definition strip_one :: "bytes list \<Rightarrow> bytes \<Rightarrow> bytes option" where
  "strip_one ps bs = map_option (\<lambda>p. drop (length p) bs) (find (\<lambda>p. take (length p) bs = p) ps)"

function trim_front :: "bytes list \<Rightarrow> bytes \<Rightarrow> bytes" where
  "trim_front ps bs =
     (case strip_one ps bs of
        None \<Rightarrow> bs
      | Some r \<Rightarrow> if length r < length bs then trim_front ps r else bs)"
  by pat_completeness auto
termination by (relation "measure (\<lambda>(ps, bs). length bs)") auto

declare trim_front.simps [simp del]

definition TrimSpace :: "bytes \<Rightarrow> bytes" where
  "TrimSpace bs = rev (trim_front (map rev space_encodings) (rev (trim_front space_encodings bs)))"

text \<open>
  The loop over \<open>ReadBytes\<close>: what the guest sends, up to the end of the connection, and what
  goes to the channel. A last line without a newline is not passed on.
\<close>

function guest_handle :: "string \<Rightarrow> bool \<Rightarrow> bytes \<Rightarrow> BMCInfo list" where
  "guest_handle serial sent bs =
     (if 0x0a \<notin> set bs then []
      else
        let line = takeWhile (\<lambda>b. b \<noteq> 0x0a) bs @ [0x0a]; rest = drop (length line) bs
        in if sent then guest_handle serial sent rest
           else \<lparr>bi_serial = serial, bi_bmcAddress = string_of_bytes (TrimSpace line)\<rparr> # guest_handle serial True rest)"
  by pat_completeness auto
termination
proof (relation "measure (\<lambda>(serial, sent, bs). length bs)", goal_cases)
  case 1 show ?case by simp
qed (auto simp: length_takeWhile_le intro!: diff_less)

declare guest_handle.simps [simp del]

subsection \<open>The server\<close>

record bmcServer =
  bs_networks :: "network list"
  bs_vms :: "string \<rightharpoonup> vm"

definition NewBMCServer :: "(string \<rightharpoonup> vm) \<Rightarrow> network list \<Rightarrow> bmcServer" where
  "NewBMCServer vms networks = \<lparr>bs_networks = filter (\<lambda>n. network_IsType n NetworkBMC) networks, bs_vms = vms\<rparr>"

definition findBridge :: "bmcServer \<Rightarrow> string \<Rightarrow> network res" where
  "findBridge s address =
     (case find (\<lambda>n. network_Contains n (ParseIP address)) (bs_networks s) of
        Some n \<Rightarrow> Ret n
      | None \<Rightarrow> Fail (ErrNew (''BMC address not in range of BMC networks: '' @ address)))"

definition addBMCAddrToNetwork :: "'w netlink \<Rightarrow> bmcServer \<Rightarrow> BMCInfo \<Rightarrow> ('w, unit) act" where
  "addBMCAddrToNetwork N s info =
     bindA (liftA (findBridge s (bi_bmcAddress info))) (\<lambda>br.
     wrapA (''failed to add IP Address: '' @ bi_bmcAddress info) (network_AddAddr N br (bi_bmcAddress info)))"

text \<open>Resolved addresses are kept as text; listening on a nil address is the wildcard with any port.\<close>

record 'w sockets =
  k_ResolveUDPAddr :: "string \<Rightarrow> ('w, string) act"
  k_ListenUDP :: "string option \<Rightarrow> ('w, nat) act"
  k_ResolveTCPAddr :: "string \<Rightarrow> ('w, string) act"
  k_ListenTCP :: "string option \<Rightarrow> ('w, nat) act"

text \<open>\<open>v, err := f()\<close> where the error is logged only: the value, or nil.\<close>

definition orNil :: "('w, 'a) act \<Rightarrow> ('w, 'a option) act" where
  "orNil m = bindA (tryA m) (\<lambda>r. retA (case r of Inl e \<Rightarrow> None | Inr x \<Rightarrow> Some x))"

text \<open>The goroutines that serve: their socket and the machine, both possibly nil.\<close>

datatype service = IPMIServer "nat option" "vm option" | RedfishServer "nat option" "vm option"

definition bmcAnnounced :: "'w netlink \<Rightarrow> 'w sockets \<Rightarrow> bmcServer \<Rightarrow> BMCInfo \<Rightarrow> ('w, service list) act" where
  "bmcAnnounced N K s info =
     bindA (ignoreA (addBMCAddrToNetwork N s info)) (\<lambda>_.
     bindA (orNil (k_ResolveUDPAddr K (bi_bmcAddress info @ '':623''))) (\<lambda>serverAddr.
     bindA (orNil (k_ListenUDP K serverAddr)) (\<lambda>conn.
     bindA (orNil (k_ResolveTCPAddr K (bi_bmcAddress info @ '':443''))) (\<lambda>addr.
     bindA (orNil (k_ListenTCP K addr)) (\<lambda>listener.
     retA [IPMIServer conn (bs_vms s (bi_serial info)), RedfishServer listener (bs_vms s (bi_serial info))])))))"

text \<open>\<open>Start\<close> on the announcements that it receives before its context ends.\<close>

definition bmcServer_Start :: "'w netlink \<Rightarrow> 'w sockets \<Rightarrow> bmcServer \<Rightarrow> BMCInfo list \<Rightarrow> ('w, service list) act" where
  "bmcServer_Start N K s infos = bindA (mapA (bmcAnnounced N K s) infos) (\<lambda>ss. retA (concat ss))"

subsection \<open>The line of a guest\<close>

definition ascii_blanks :: "byte list" where
  "ascii_blanks = [0x09, 0x0a, 0x0b, 0x0c, 0x0d, 0x20]"

text \<open>Bytes at which no encoding of white space starts or ends.\<close>

definition visible :: "byte \<Rightarrow> bool" where
  "visible b \<longleftrightarrow> b < 0x80 \<and> b \<notin> set ascii_blanks"

definition blank_patterns :: "bytes list \<Rightarrow> bool" where
  "blank_patterns ps \<longleftrightarrow>
     list_all (\<lambda>p. p \<noteq> [] \<and> \<not> visible (hd p) \<and> (hd p \<in> set ascii_blanks \<longrightarrow> tl p = [])) ps \<and>
     list_all (\<lambda>b. [b] \<in> set ps) ascii_blanks"

lemma patterns: "blank_patterns space_encodings" "blank_patterns (map rev space_encodings)"
  by code_simp+

lemma trim_visible:
  assumes "blank_patterns ps" "visible b"
  shows "trim_front ps (b # bs) = b # bs"
proof -
  have "take (length p) (b # bs) \<noteq> p" if "p \<in> set ps" for p
    using assms that by (cases p) (auto simp: blank_patterns_def list_all_iff)
  then have "strip_one ps (b # bs) = None" by (simp add: strip_one_def find_None_iff)
  then show ?thesis by (subst trim_front.simps) simp
qed

lemma trim_blank:
  assumes "blank_patterns ps" "b \<in> set ascii_blanks"
  shows "trim_front ps (b # bs) = trim_front ps bs"
proof -
  let ?P = "\<lambda>p. take (length p) (b # bs) = p"
  have m: "[b] \<in> set ps" using assms unfolding blank_patterns_def list_all_iff by blast
  have "find ?P ps \<noteq> None"
  proof
    assume "find ?P ps = None"
    with m have "\<not> ?P [b]" unfolding find_None_iff by blast
    then show False by simp
  qed
  then obtain p where p: "find ?P ps = Some p" by blast
  then have i: "p \<in> set ps" and t: "?P p" unfolding find_Some_iff by auto
  from i assms(1) have ne: "p \<noteq> []" "hd p \<in> set ascii_blanks \<longrightarrow> tl p = []" unfolding blank_patterns_def list_all_iff by blast+
  from t ne(1) have "hd p = b" by (cases p) auto
  with ne assms(2) have "p = [b]" by (cases p) auto
  with p have "strip_one ps (b # bs) = Some bs" by (simp add: strip_one_def)
  then show ?thesis by (subst trim_front.simps) simp
qed

lemma trim_blanks: "blank_patterns ps \<Longrightarrow> set pre \<subseteq> set ascii_blanks \<Longrightarrow> trim_front ps (pre @ bs) = trim_front ps bs"
  by (induction pre) (auto simp: trim_blank)

lemma TrimSpace_line:
  assumes "set pre \<subseteq> set ascii_blanks" "set post \<subseteq> set ascii_blanks" "body \<noteq> []" "visible (hd body)" "visible (last body)"
  shows "TrimSpace (pre @ body @ post) = body"
proof -
  obtain a as where a: "body = a # as" using assms(3) by (cases body) auto
  have f: "trim_front space_encodings (pre @ body @ post) = body @ post"
    using assms(4) by (simp add: trim_blanks [OF patterns(1) assms(1)] a trim_visible [OF patterns(1)])
  obtain z zs where z: "rev body = z # zs" using assms(3) by (metis neq_Nil_conv rev_is_Nil_conv)
  then have "visible z" using assms(5) by (metis hd_rev list.sel(1) rev_rev_ident last_rev)
  then have "trim_front (map rev space_encodings) (rev body) = rev body" by (simp add: z trim_visible [OF patterns(2)])
  then show ?thesis
    using assms(2) by (simp add: TrimSpace_def f trim_blanks [OF patterns(2)])
qed

lemma guest_handle_sent: "guest_handle serial True bs = []"
  by (induction serial True bs rule: guest_handle.induct) (subst guest_handle.simps, auto simp: Let_def)

lemma guest_handle_line:
  assumes "0x0a \<notin> set line"
  shows "guest_handle serial False (line @ 0x0a # rest) =
    [\<lparr>bi_serial = serial, bi_bmcAddress = string_of_bytes (TrimSpace (line @ [0x0a]))\<rparr>]"
proof -
  have "takeWhile (\<lambda>b. b \<noteq> 0x0a) (line @ 0x0a # rest) = line" using assms by (subst takeWhile_append2) auto
  then show ?thesis by (subst guest_handle.simps) (simp add: Let_def guest_handle_sent)
qed

lemma guest_handle_bound: "length (guest_handle serial sent bs) \<le> 1"
  by (subst guest_handle.simps) (cases sent; simp add: Let_def guest_handle_sent)

subsection \<open>The effect of an announcement\<close>

text \<open>Sockets have nothing to do with links and packet filter.\<close>

locale socket_host = link_host T tbl N lk for T :: "'w iptables" and tbl and N and lk +
  fixes K :: "'w sockets"
  assumes udp_law: "k_ResolveUDPAddr K x w = (r, w') \<Longrightarrow> lk w' = lk w \<and> tbl w' = tbl w \<and> (\<forall>p. r \<noteq> Panic p)"
      "k_ListenUDP K y w = (c, w') \<Longrightarrow> lk w' = lk w \<and> tbl w' = tbl w \<and> (\<forall>p. c \<noteq> Panic p)"
    and tcp_law: "k_ResolveTCPAddr K x w = (r, w') \<Longrightarrow> lk w' = lk w \<and> tbl w' = tbl w \<and> (\<forall>p. r \<noteq> Panic p)"
      "k_ListenTCP K y w = (c, w') \<Longrightarrow> lk w' = lk w \<and> tbl w' = tbl w \<and> (\<forall>p. c \<noteq> Panic p)"
begin

lemma orNil_returns:
  "(\<And>r w'. m w = (r, w') \<Longrightarrow> lk w' = lk w \<and> tbl w' = tbl w \<and> (\<forall>p. r \<noteq> Panic p)) \<Longrightarrow>
   \<exists>x w'. orNil m w = (Ret x, w') \<and> lk w' = lk w \<and> tbl w' = tbl w"
  by (cases "m w"; cases "fst (m w)") (auto simp: orNil_def bindA_def tryA_def retA_def)

lemma sock_returns:
  "\<exists>a w'. orNil (k_ResolveUDPAddr K x) w = (Ret a, w') \<and> lk w' = lk w \<and> tbl w' = tbl w"
  "\<exists>c w'. orNil (k_ListenUDP K y) w = (Ret c, w') \<and> lk w' = lk w \<and> tbl w' = tbl w"
  "\<exists>a w'. orNil (k_ResolveTCPAddr K x) w = (Ret a, w') \<and> lk w' = lk w \<and> tbl w' = tbl w"
  "\<exists>c w'. orNil (k_ListenTCP K y) w = (Ret c, w') \<and> lk w' = lk w \<and> tbl w' = tbl w"
  by (rule orNil_returns, erule udp_law tcp_law)+

text \<open>The four socket calls of an announcement, whatever they return.\<close>

lemma announced_after:
  assumes "ignoreA (addBMCAddrToNetwork N s info) w = (Ret (), w1)"
  shows "\<exists>w' c l. bmcAnnounced N K s info w =
      (Ret [IPMIServer c (bs_vms s (bi_serial info)), RedfishServer l (bs_vms s (bi_serial info))], w') \<and>
    lk w' = lk w1 \<and> tbl w' = tbl w1"
proof -
  obtain a w2 where 2: "orNil (k_ResolveUDPAddr K (bi_bmcAddress info @ '':623'')) w1 = (Ret a, w2)" "lk w2 = lk w1" "tbl w2 = tbl w1"
    using sock_returns(1) by blast
  obtain c w3 where 3: "orNil (k_ListenUDP K a) w2 = (Ret c, w3)" "lk w3 = lk w2" "tbl w3 = tbl w2" using sock_returns(2) by blast
  obtain b w4 where 4: "orNil (k_ResolveTCPAddr K (bi_bmcAddress info @ '':443'')) w3 = (Ret b, w4)" "lk w4 = lk w3" "tbl w4 = tbl w3"
    using sock_returns(3) by blast
  obtain l w5 where 5: "orNil (k_ListenTCP K b) w4 = (Ret l, w5)" "lk w5 = lk w4" "tbl w5 = tbl w4" using sock_returns(4) by blast
  have "bmcAnnounced N K s info w =
      (Ret [IPMIServer c (bs_vms s (bi_serial info)), RedfishServer l (bs_vms s (bi_serial info))], w5)"
    by (simp add: bmcAnnounced_def bindA_def assms 2(1) 3(1) 4(1) 5(1) retA_def)
  then show ?thesis using 2 3 4 5 by simp
qed

lemma AddAddr_returns:
  assumes "nw_addr n = Some net" "n_ParseAddr N (addr @ ''/'' @ fmt_d (Mask_Size (ip_Mask net))) = Ret a"
    "lk w (nw_name n) = Some st" "a \<notin> set (ls_addrs st)"
  shows "\<exists>w'. network_AddAddr N n addr w = (Ret (), w') \<and> lk w' = (lk w)(nw_name n \<mapsto> st\<lparr>ls_addrs := ls_addrs st @ [a]\<rparr>) \<and> tbl w' = tbl w"
proof -
  obtain w1 where 1: "n_LinkByName N (nw_name n) w = (Ret \<lparr>l_name = nw_name n, l_mtu = ls_mtu st, l_isBridge = (ls_kind st = KBridge)\<rparr>, w1)"
    "lk w1 = lk w" "tbl w1 = tbl w" using byname_law [OF assms(3)] by blast
  obtain w2 where 2: "n_AddrAdd N (nw_name n) a w1 = (Ret (), w2)" "lk w2 = (lk w1)(nw_name n \<mapsto> st\<lparr>ls_addrs := ls_addrs st @ [a]\<rparr>)" "tbl w2 = tbl w1"
    using addr_law [of w1 "nw_name n" st a] assms(3,4) 1(2) by auto
  have "network_AddAddr N n addr w = (Ret (), w2)"
    using assms(1,2) 1(1) 2(1) by (simp add: network_AddAddr_def bindA_def wrapA_def liftA_def)
  then show ?thesis using 1 2 by simp
qed

end

text \<open>Both servers of an announcement run for its VM, and the links are the given ones.\<close>

definition started ::
  "('w \<Rightarrow> links) \<Rightarrow> ('w \<Rightarrow> proto \<Rightarrow> string \<Rightarrow> table) \<Rightarrow> 'w netlink \<Rightarrow> 'w sockets \<Rightarrow> bmcServer \<Rightarrow> BMCInfo \<Rightarrow> 'w \<Rightarrow> links \<Rightarrow> bool" where
  "started lk tbl N K s info w l \<longleftrightarrow>
     (\<exists>w' c d. bmcServer_Start N K s [info] w =
        (Ret [IPMIServer c (bs_vms s (bi_serial info)), RedfishServer d (bs_vms s (bi_serial info))], w') \<and> lk w' = l \<and> tbl w' = tbl w)"


subsection \<open>Sockets of the executable host\<close>

definition refSockets :: "'z refFs_scheme sockets" where
  "refSockets =
     (let resolve = (\<lambda>a. if length (filter (\<lambda>c. c = CHR '':'') a) = 1 then retA a else failA (ErrNew ''too many colons in address''));
          listen = (\<lambda>a w. (Ret (rf_next w), w\<lparr>rf_next := Suc (rf_next w)\<rparr>))
      in \<lparr>k_ResolveUDPAddr = resolve, k_ListenUDP = listen, k_ResolveTCPAddr = resolve, k_ListenTCP = listen\<rparr>)"

interpretation rsock: socket_host refIptables rk_tables refNetlink ref_lk refSockets
  by unfold_locales (auto simp: refSockets_def Let_def retA_def failA_def ref_lk_def split: if_splits)

definition bmcNet :: network where
  "bmcNet = \<lparr>nw_name = ''br0'', nw_typ = ''bmc'', nw_useNAT = False,
     nw_addr = Some \<lparr>ip_IP = [10, 72, 16, 1], ip_Mask = [255, 255, 240, 0]\<rparr>\<rparr>"


end
