(* ===== verification/NetNs.thy ===== *)
theory NetNs
  imports Links Types Volume
begin

text \<open>
  Network namespaces, \<open>v2/pkg/dcnet/netns.go\<close>. What the code uses of \<open>vishvananda/netns\<close>
  and of the CNI plugins library is the parameter \<open>netns\<close>; \<open>ns_Do\<close> runs its argument with
  the calling thread inside a namespace, so that the netlink calls there act on the links of
  that namespace. The names of the host ends of the veths, which \<open>Setup\<close> appends to the
  object while it runs, are part of the state. The applications run one after the other, in
  the order given by a parameter.
\<close>

subsection \<open>Goroutines\<close>

text \<open>
  \<open>well.Environment\<close>: all goroutines run, a panic ends the process, and \<open>Wait\<close> returns the
  first error.
\<close>

fun goAll :: "('s, unit) act list \<Rightarrow> ('s, unit) act" where
  "goAll [] s = (Ret (), s)"
| "goAll (m # ms) s =
     (case m s of
        (Panic p, s1) \<Rightarrow> (Panic p, s1)
      | (Ret _, s1) \<Rightarrow> goAll ms s1
      | (Fail e, s1) \<Rightarrow> (case goAll ms s1 of (Panic p, s2) \<Rightarrow> (Panic p, s2) | (_, s2) \<Rightarrow> (Fail e, s2)))"

subsection \<open>Namespaces\<close>

record 'w vethEnv =
  ve_env :: "'w env"
  ve_hostVethNames :: "string list"

definition onEnv :: "('w env, 'a) act \<Rightarrow> ('w vethEnv, 'a) act" where
  "onEnv m s = (case m (ve_env s) of (r, e) \<Rightarrow> (r, s\<lparr>ve_env := e\<rparr>))"

definition inHost :: "('w, 'a) act \<Rightarrow> ('w vethEnv, 'a) act" where
  "inHost m = onEnv (onHost m)"

record 'w netns =
  ns_Get :: "('w, nat) act"
  ns_NewNamed :: "string \<Rightarrow> ('w, nat) act"
  ns_Set :: "nat \<Rightarrow> ('w, unit) act"
  ns_CloseHandle :: "nat \<Rightarrow> ('w, unit) act"
  ns_DeleteNamed :: "string \<Rightarrow> ('w, unit) act"
  ns_GetNS :: "string \<Rightarrow> ('w, nat) act"
  ns_Close :: "nat \<Rightarrow> ('w, unit) act"
  ns_Do :: "nat \<Rightarrow> (nat \<Rightarrow> ('w vethEnv, unit) act) \<Rightarrow> ('w vethEnv, unit) act"
  ns_SetupVethWithName :: "string \<Rightarrow> string \<Rightarrow> int \<Rightarrow> nat \<Rightarrow> ('w, string \<times> string) act"
  ns_Sysctl :: "string \<Rightarrow> string \<Rightarrow> ('w, unit) act"

record iface =
  if_network :: link
  if_addresses :: "ipNet list"

record app =
  ap_name :: string
  ap_command :: "string list"

record netNS =
  ne_name :: string
  ne_initScripts :: "string list"
  ne_interfaces :: "iface list"
  ne_apps :: "app list"

definition nilDeref :: string where
  "nilDeref = ''invalid memory address or nil pointer dereference''"

definition newScript :: "'w files \<Rightarrow> string \<Rightarrow> ('w, string) act" where
  "newScript F script = bindA (f_Abs F script) (\<lambda>s. bindA (f_Stat F s) (\<lambda>_. retA s))"

definition newIface :: "'w netlink \<Rightarrow> NetNSInterfaceSpec option \<Rightarrow> ('w, iface) act" where
  "newIface N i =
     (case i of
        None \<Rightarrow> panicA nilDeref
      | Some i \<Rightarrow>
          bindA (wrapA (''failed to find the bridge '' @ nif_Network i) (n_LinkByName N (nif_Network i))) (\<lambda>bridge.
          bindA (liftA (mapR (\<lambda>a. wrapR (''failed to parse the address '' @ a) (n_ParseAddr N a)) (nif_Addresses i))) (\<lambda>addrs.
          retA \<lparr>if_network = bridge, if_addresses = addrs\<rparr>)))"

definition newApp :: "NetNSAppSpec option \<Rightarrow> app res" where
  "newApp a = (case a of None \<Rightarrow> Panic nilDeref | Some a \<Rightarrow> Ret \<lparr>ap_name = app_Name a, ap_command = app_Command a\<rparr>)"

definition NewNetNS :: "'w files \<Rightarrow> 'w netlink \<Rightarrow> NetNSSpec \<Rightarrow> ('w, netNS) act" where
  "NewNetNS F N spec =
     bindA (mapA (newScript F) (ns_InitScripts spec)) (\<lambda>scripts.
     bindA (mapA (newIface N) (ns_Interfaces spec)) (\<lambda>ifaces.
     bindA (liftA (mapR newApp (ns_Apps spec))) (\<lambda>apps.
     retA \<lparr>ne_name = ns_Name spec, ne_initScripts = scripts, ne_interfaces = ifaces, ne_apps = apps\<rparr>)))"

text \<open>\<open>xdg\<close> is \<open>$XDG_RUNTIME_DIR\<close>, \<open>owner\<close> the owner of \<open>/var/run\<close> where it can be found out.\<close>

definition getNsRunDir :: "string \<Rightarrow> int option \<Rightarrow> int \<Rightarrow> string" where
  "getNsRunDir xdg owner euid =
     (if xdg \<noteq> '''' \<and> owner \<noteq> None \<and> owner \<noteq> Some euid then filepath_Join [xdg, ''netns''] else ''/var/run/netns'')"

definition createNetNS :: "'w netns \<Rightarrow> string \<Rightarrow> netNS \<Rightarrow> ('w, nat) act" where
  "createNetNS S runDir n =
     bindA (wrapA ''failed to get the current NetNS'' (ns_Get S)) (\<lambda>currentNs.
     bindA (wrapA (''failed to create network namespace '' @ ne_name n) (ns_NewNamed S (ne_name n))) (\<lambda>nsHandle.
     deferA
       (bindA (wrapA ''failed to set the original NetNS'' (ns_Set S currentNs)) (\<lambda>_.
        wrapA (''failed to get network namespace '' @ ne_name n) (ns_GetNS S (filepath_Join [runDir, ne_name n]))))
       (ns_CloseHandle S nsHandle)))"

definition netNS_Cleanup :: "'w netns \<Rightarrow> netNS \<Rightarrow> ('w, unit) act" where
  "netNS_Cleanup S n = ignoreA (ns_DeleteNamed S (ne_name n))"

subsection \<open>Setup\<close>

definition addVethName :: "string \<Rightarrow> ('w vethEnv, unit) act" where
  "addVethName x = modifyA (\<lambda>s. s\<lparr>ve_hostVethNames := ve_hostVethNames s @ [x]\<rparr>)"

definition createVeth :: "'w netns \<Rightarrow> 'w netlink \<Rightarrow> int \<Rightarrow> nat \<Rightarrow> nat \<times> iface \<Rightarrow> ('w vethEnv, unit) act" where
  "createVeth S N mtu hostNS p =
     (case p of (i, iface) \<Rightarrow>
     bindA (onEnv (onRng (RandomLinkName LinkTypeVeth))) (\<lambda>hostVethName.
     bindA (inHost (wrapA ''failed to set up veth''
       (ns_SetupVethWithName S (''eth'' @ fmt_d i) hostVethName mtu hostNS))) (\<lambda>(hostVeth, containerVeth).
     bindA (addVethName hostVeth) (\<lambda>_.
     inHost (
       bindA (wrapA (''failed to find the container veth '' @ containerVeth) (n_LinkByName N containerVeth)) (\<lambda>l.
       bindA (forA (\<lambda>a. wrapA (''failed to add the address '' @ ipNet_String a @ '' to '' @ l_name l) (n_AddrAdd N (l_name l) a))
         (if_addresses iface)) (\<lambda>_.
       wrapA (''failed to set '' @ l_name l @ '' up'') (n_LinkSetUp N (l_name l)))))))))"

text \<open>Loopback and forwarding, at the start of the work inside the namespace.\<close>

definition setupLo :: "'w netns \<Rightarrow> 'w netlink \<Rightarrow> ('w, unit) act" where
  "setupLo S N =
     bindA (wrapA ''failed to find lo'' (n_LinkByName N ''lo'')) (\<lambda>lo.
     bindA (wrapA ''failed to set up to lo '' (n_LinkSetUp N (l_name lo))) (\<lambda>_.
     bindA (wrapA ''failed to enable IPv4 forwarding'' (n_EnableIP4Forward N)) (\<lambda>_.
     bindA (wrapA ''failed to enable IPv6 forwarding'' (n_EnableIP6Forward N)) (\<lambda>_.
     bindA (wrapA ''failed to set net.ipv4.conf.default.rp_filter=0'' (ns_Sysctl S ''net.ipv4.conf.default.rp_filter'' ''0'')) (\<lambda>_.
     wrapA ''failed to set net.ipv4.conf.all.rp_filter=0'' (ns_Sysctl S ''net.ipv4.conf.all.rp_filter'' ''0''))))))"

definition setupInside :: "'w netns \<Rightarrow> 'w netlink \<Rightarrow> netNS \<Rightarrow> int \<Rightarrow> nat \<Rightarrow> ('w vethEnv, unit) act" where
  "setupInside S N n mtu hostNS =
     bindA (inHost (setupLo S N)) (\<lambda>_.
     forA (createVeth S N mtu hostNS) (List.enumerate 0 (ne_interfaces n)))"

definition attachVeth :: "'w netlink \<Rightarrow> netNS \<Rightarrow> nat \<times> string \<Rightarrow> ('w, unit) act" where
  "attachVeth N n p =
     (case p of (i, hostVethName) \<Rightarrow>
     bindA (wrapA (''failed to find the host veth '' @ hostVethName) (n_LinkByName N hostVethName)) (\<lambda>l.
     if i < length (ne_interfaces n)
     then (let bridge = if_network (ne_interfaces n ! i)
           in wrapA (''failed to set '' @ l_name l @ '' to bridge '' @ l_name bridge) (n_LinkSetMaster N (l_name l) (l_name bridge)))
     else panicA ''index out of range''))"

definition runApp :: "'w commands \<Rightarrow> app \<Rightarrow> ('w, unit) act" where
  "runApp C a = (if ap_command a = [] then panicA ''index out of range'' else c_Run C (ap_command a))"

definition netNS_Setup ::
  "'w netns \<Rightarrow> 'w netlink \<Rightarrow> 'w commands \<Rightarrow> string \<Rightarrow> (app list \<Rightarrow> app list) \<Rightarrow> netNS \<Rightarrow> int \<Rightarrow> bool \<Rightarrow> ('w vethEnv, unit) act" where
  "netNS_Setup S N C runDir sched n mtu force =
     bindA (if force then inHost (netNS_Cleanup S n) else retA ()) (\<lambda>_.
     bindA (inHost (createNetNS S runDir n)) (\<lambda>createdNS.
     deferA
       (bindA (wrapA (''failed to create veths in the namespace '' @ ne_name n) (ns_Do S createdNS (setupInside S N n mtu))) (\<lambda>_.
        bindA (getA ve_hostVethNames) (\<lambda>names.
        bindA (inHost (forA (attachVeth N n) (List.enumerate 0 names))) (\<lambda>_.
        bindA (wrapA (''failed to run init scripts in namespace '' @ ne_name n)
          (ns_Do S createdNS (\<lambda>_. inHost (forA (\<lambda>script. wrapA (''failed to run the script '' @ script) (c_Run C [script])) (ne_initScripts n))))) (\<lambda>_.
        goAll (map (\<lambda>a. ns_Do S createdNS (\<lambda>_. inHost (runApp C a))) (sched (ne_apps n))))))))
       (inHost (ns_Close S createdNS))))"

definition netNS_HostVethNames :: "'w vethEnv \<Rightarrow> string list" where
  "netNS_HostVethNames s = ve_hostVethNames s"

subsection \<open>The contract of namespaces\<close>

text \<open>
  Handles are numbered by the namespace they refer to. The view \<open>inside\<close> gives the links of
  every namespace, \<open>cur\<close> the namespace of the calling thread, \<open>named\<close> the namespaces bound to
  names below the run directory. Netlink calls work on the current namespace.
\<close>

record nsView =
  nv_cur :: nat
  nv_inside :: "nat \<Rightarrow> links"
  nv_named :: "string \<rightharpoonup> nat"

definition loopback :: "bool \<Rightarrow> linkState" where
  "loopback up = \<lparr>ls_kind = KOther, ls_mtu = 65536, ls_up = up, ls_master = None, ls_addrs = []\<rparr>"

definition veth :: "int \<Rightarrow> string option \<Rightarrow> ipNet list \<Rightarrow> linkState" where
  "veth mtu master addrs = \<lparr>ls_kind = KOther, ls_mtu = mtu, ls_up = True, ls_master = master, ls_addrs = addrs\<rparr>"

definition set_cur_links :: "links \<Rightarrow> nsView \<Rightarrow> nsView" where
  "set_cur_links l v = v\<lparr>nv_inside := (nv_inside v)(nv_cur v := l)\<rparr>"

text \<open>Only the links of the current namespace.\<close>

definition here :: "nsView \<Rightarrow> links" where
  "here v = nv_inside v (nv_cur v)"

lemma here_set [simp]: "here (set_cur_links l v) = l" "nv_cur (set_cur_links l v) = nv_cur v"
  "set_cur_links l (set_cur_links l' v) = set_cur_links l v"
  by (simp_all add: here_def set_cur_links_def)

lemma set_here [simp]: "set_cur_links (here v) v = v"
  by (simp add: here_def set_cur_links_def)

text \<open>A call returns a value and takes the view to a given one.\<close>

definition gives :: "('w \<Rightarrow> nsView) \<Rightarrow> ('w, 'a) act \<Rightarrow> 'w \<Rightarrow> 'a \<Rightarrow> nsView \<Rightarrow> bool" where
  "gives vw m w x v \<longleftrightarrow> (\<exists>w'. m w = (Ret x, w') \<and> vw w' = v)"

locale netns_host =
  fixes S :: "'w netns" and N :: "'w netlink" and vw :: "'w \<Rightarrow> nsView" and runDir :: string
  assumes get_law: "gives vw (ns_Get S) w (nv_cur (vw w)) (vw w)"
    and new_law: "plain_comp x \<Longrightarrow> nv_named (vw w) x = None \<Longrightarrow>
      \<exists>h. h \<noteq> nv_cur (vw w) \<and> h \<notin> ran (nv_named (vw w)) \<and>
        gives vw (ns_NewNamed S x) w h ((vw w)\<lparr>nv_cur := h, nv_inside := (nv_inside (vw w))(h := [''lo'' \<mapsto> loopback False]),
          nv_named := (nv_named (vw w))(x \<mapsto> h)\<rparr>)"
    and set_law: "gives vw (ns_Set S h) w () ((vw w)\<lparr>nv_cur := h\<rparr>)"
    and getns_law: "plain_comp x \<Longrightarrow> nv_named (vw w) x = Some h \<Longrightarrow> gives vw (ns_GetNS S (filepath_Join [runDir, x])) w h (vw w)"
    and close_law: "gives vw (ns_CloseHandle S h) w () (vw w)" "gives vw (ns_Close S h) w () (vw w)"
    and do_law: "\<exists>w1. vw w1 = (vw (env_host (ve_env s)))\<lparr>nv_cur := h\<rparr> \<and>
      (case f (nv_cur (vw (env_host (ve_env s)))) (s\<lparr>ve_env := (ve_env s)\<lparr>env_host := w1\<rparr>\<rparr>) of (r, s2) \<Rightarrow>
        \<exists>w3. ns_Do S h f s = (r, s2\<lparr>ve_env := (ve_env s2)\<lparr>env_host := w3\<rparr>\<rparr>) \<and>
          vw w3 = (vw (env_host (ve_env s2)))\<lparr>nv_cur := nv_cur (vw (env_host (ve_env s)))\<rparr>)"
    and veth_law: "link_name_ok c \<Longrightarrow> link_name_ok x \<Longrightarrow> 0 < mtu \<Longrightarrow> h \<noteq> nv_cur (vw w) \<Longrightarrow>
      nv_inside (vw w) (nv_cur (vw w)) c = None \<Longrightarrow> nv_inside (vw w) h x = None \<Longrightarrow>
      gives vw (ns_SetupVethWithName S c x mtu h) w (x, c)
        ((vw w)\<lparr>nv_inside := (nv_inside (vw w))(nv_cur (vw w) := (nv_inside (vw w) (nv_cur (vw w)))(c \<mapsto> veth mtu None []),
          h := (nv_inside (vw w) h)(x \<mapsto> veth mtu None []))\<rparr>)"
    and sysctl_law: "gives vw (ns_Sysctl S k val) w () (vw w)"
    and byname: "nv_inside (vw w) (nv_cur (vw w)) x = Some st \<Longrightarrow>
      gives vw (n_LinkByName N x) w \<lparr>l_name = x, l_mtu = ls_mtu st, l_isBridge = (ls_kind st = KBridge)\<rparr> (vw w)"
    and up: "nv_inside (vw w) (nv_cur (vw w)) x = Some st \<Longrightarrow>
      gives vw (n_LinkSetUp N x) w () (set_cur_links ((nv_inside (vw w) (nv_cur (vw w)))(x \<mapsto> st\<lparr>ls_up := True\<rparr>)) (vw w))"
    and addr: "nv_inside (vw w) (nv_cur (vw w)) x = Some st \<Longrightarrow> a \<notin> set (ls_addrs st) \<Longrightarrow>
      gives vw (n_AddrAdd N x a) w () (set_cur_links ((nv_inside (vw w) (nv_cur (vw w)))(x \<mapsto> st\<lparr>ls_addrs := ls_addrs st @ [a]\<rparr>)) (vw w))"
    and master: "nv_inside (vw w) (nv_cur (vw w)) x = Some st \<Longrightarrow> nv_inside (vw w) (nv_cur (vw w)) b = Some t \<Longrightarrow> ls_kind t = KBridge \<Longrightarrow> x \<noteq> b \<Longrightarrow>
      gives vw (n_LinkSetMaster N x b) w () (set_cur_links ((nv_inside (vw w) (nv_cur (vw w)))(x \<mapsto> st\<lparr>ls_master := Some b\<rparr>)) (vw w))"
    and forward: "gives vw (n_EnableIP4Forward N) w () (vw w)" "gives vw (n_EnableIP6Forward N) w () (vw w)"
begin

lemma gives_bind: "gives vw m w x v \<Longrightarrow> (\<And>w'. vw w' = v \<Longrightarrow> gives vw (f x) w' y v') \<Longrightarrow> gives vw (bindA m f) w y v'"
  by (force simp: gives_def bindA_def)

lemma gives_wrap: "gives vw m w x v \<Longrightarrow> gives vw (wrapA msg m) w x v"
  by (auto simp: gives_def)

lemma gives_addrs:
  assumes "here (vw w) x = Some st" "distinct (ls_addrs st @ as)"
  shows "gives vw (forA (\<lambda>a. wrapA (msg a) (n_AddrAdd N x a)) as) w ()
    (set_cur_links ((here (vw w))(x \<mapsto> st\<lparr>ls_addrs := ls_addrs st @ as\<rparr>)) (vw w))"
  using assms
proof (induction as arbitrary: w st)
  case Nil
  then have "(here (vw w))(x \<mapsto> st\<lparr>ls_addrs := ls_addrs st @ []\<rparr>) = here (vw w)" by (simp add: fun_upd_idem)
  then show ?case by (simp add: gives_def retA_def)
next
  case (Cons a as)
  let ?l = "(here (vw w))(x \<mapsto> st\<lparr>ls_addrs := ls_addrs st @ [a]\<rparr>)"
  have "gives vw (n_AddrAdd N x a) w () (set_cur_links ?l (vw w))"
    using addr [of w x st a] Cons.prems by (simp add: here_def)
  then show ?case
    unfolding forA.simps
  proof (rule gives_bind [OF gives_wrap])
    fix w' assume w': "vw w' = set_cur_links ?l (vw w)"
    have "here (vw w') x = Some (st\<lparr>ls_addrs := ls_addrs st @ [a]\<rparr>)" by (simp add: w')
    moreover have "distinct (ls_addrs (st\<lparr>ls_addrs := ls_addrs st @ [a]\<rparr>) @ as)" using Cons.prems(2) by simp
    moreover have "st\<lparr>ls_addrs := ls_addrs st @ [a], ls_addrs := ls_addrs (st\<lparr>ls_addrs := ls_addrs st @ [a]\<rparr>) @ as\<rparr>
      = st\<lparr>ls_addrs := ls_addrs st @ a # as\<rparr>" by simp
    ultimately show "gives vw (forA (\<lambda>a. wrapA (msg a) (n_AddrAdd N x a)) as) w' ()
        (set_cur_links ((here (vw w))(x \<mapsto> st\<lparr>ls_addrs := ls_addrs st @ a # as\<rparr>)) (vw w))"
      using Cons.IH [of w' "st\<lparr>ls_addrs := ls_addrs st @ [a]\<rparr>"] unfolding w' here_set fun_upd_upd by metis
  qed
qed

lemma gives_up: "here (vw w) x = Some st \<Longrightarrow> gives vw (n_LinkSetUp N x) w () (set_cur_links ((here (vw w))(x \<mapsto> st\<lparr>ls_up := True\<rparr>)) (vw w))"
  using up by (simp add: here_def)

lemma gives_byname: "here (vw w) x = Some st \<Longrightarrow>
    gives vw (n_LinkByName N x) w \<lparr>l_name = x, l_mtu = ls_mtu st, l_isBridge = (ls_kind st = KBridge)\<rparr> (vw w)"
  using byname by (simp add: here_def)

text \<open>The container end of a new veth gets its addresses.\<close>

lemma gives_configure:
  assumes "here (vw w) c = Some (veth mtu None [])" "distinct as"
  shows "gives vw (bindA (wrapA m1 (n_LinkByName N c)) (\<lambda>l.
       bindA (forA (\<lambda>a. wrapA (m2 l a) (n_AddrAdd N (l_name l) a)) as) (\<lambda>_. wrapA (m3 l) (n_LinkSetUp N (l_name l))))) w ()
    (set_cur_links ((here (vw w))(c \<mapsto> veth mtu None as)) (vw w))"
proof (rule gives_bind [OF gives_wrap [OF gives_byname [OF assms(1)]]], unfold link.select_convs)
  let ?l = "\<lparr>l_name = c, l_mtu = ls_mtu (veth mtu None []), l_isBridge = (ls_kind (veth mtu None []) = KBridge)\<rparr>"
  fix w1 assume w1: "vw w1 = vw w"
  have a: "gives vw (forA (\<lambda>a. wrapA (m2 ?l a) (n_AddrAdd N c a)) as) w1 () (set_cur_links ((here (vw w))(c \<mapsto> veth mtu None as)) (vw w))"
    using gives_addrs [of w1 c "veth mtu None []" as "m2 ?l"] assms by (simp add: w1 veth_def)
  show "gives vw (bindA (forA (\<lambda>a. wrapA (m2 ?l a) (n_AddrAdd N c a)) as) (\<lambda>_. wrapA (m3 ?l) (n_LinkSetUp N c))) w1 ()
      (set_cur_links ((here (vw w))(c \<mapsto> veth mtu None as)) (vw w))"
  proof (rule gives_bind [OF a], rule gives_wrap)
    fix w2 assume w2: "vw w2 = set_cur_links ((here (vw w))(c \<mapsto> veth mtu None as)) (vw w)"
    show "gives vw (n_LinkSetUp N c) w2 () (set_cur_links ((here (vw w))(c \<mapsto> veth mtu None as)) (vw w))"
      using gives_up [of w2 c "veth mtu None as"] by (simp add: w2 veth_def)
  qed
qed

end

subsection \<open>Veths\<close>

definition eth :: "nat \<Rightarrow> string" where
  "eth i = ''eth'' @ fmt_d i"

definition veth_name :: "bytes \<Rightarrow> string" where
  "veth_name bs = ''pm_veth'' @ hex_string bs"

lemma fmt_d_value: "foldl (\<lambda>m c. 10 * m + (of_char c - 48)) 0 (fmt_d n) = n"
proof (induction n rule: fmt_d.induct)
  case (1 n)
  have "n mod 10 < 10" by simp
  then have "(48 + n mod 10) mod 256 = 48 + n mod 10" by simp
  with 1 show ?case by (subst fmt_d.simps) (simp add: of_char_of)
qed

lemma fmt_d_inj: "fmt_d m = fmt_d n \<Longrightarrow> m = n"
  by (metis fmt_d_value)

lemma fmt_d_length: "n < 1000 \<Longrightarrow> length (fmt_d n) \<le> 3"
  by (subst fmt_d.simps, subst fmt_d.simps, subst fmt_d.simps) (auto simp: fmt_d.simps)

lemma eth_ok: "i < 1000 \<Longrightarrow> link_name_ok (eth i)"
  using fmt_d_length [of i] fmt_d_no_slash [of i] by (simp add: link_name_ok_def eth_def)

lemma veth_ok: "length bs = 4 \<Longrightarrow> link_name_ok (veth_name bs)"
  using hex_string_chars [of bs] by (auto simp: link_name_ok_def veth_name_def)

lemma RandomLinkName_veth: "length bs = 4 \<Longrightarrow> RandomLinkName LinkTypeVeth (Some bs # g) = (Ret (veth_name bs), g)"
  by (simp add: RandomLinkName_def link_prefix_def LinkTypeVeth_def veth_name_def)

lemma eth_inj: "eth i = eth j \<longleftrightarrow> i = j"
  by (auto simp: eth_def dest: fmt_d_inj)

lemma eth_lo: "eth i \<noteq> ''lo''"
  by (simp add: eth_def)

text \<open>One veth between the namespaces \<open>c\<close> and \<open>h\<close>, and one per interface.\<close>

definition add_veth :: "nat \<Rightarrow> nat \<Rightarrow> int \<Rightarrow> nat \<Rightarrow> iface \<Rightarrow> bytes \<Rightarrow> (nat \<Rightarrow> links) \<Rightarrow> nat \<Rightarrow> links" where
  "add_veth c h mtu i f b ins =
     ins(c := (ins c)(eth i \<mapsto> veth mtu None (if_addresses f)), h := (ins h)(veth_name b \<mapsto> veth mtu None []))"

fun add_veths :: "nat \<Rightarrow> nat \<Rightarrow> int \<Rightarrow> nat \<Rightarrow> (iface \<times> bytes) list \<Rightarrow> (nat \<Rightarrow> links) \<Rightarrow> nat \<Rightarrow> links" where
  "add_veths c h mtu i [] ins = ins"
| "add_veths c h mtu i ((f, b) # fbs) ins = add_veths c h mtu (Suc i) fbs (add_veth c h mtu i f b ins)"

text \<open>The host ends behind their bridges.\<close>

fun masters :: "int \<Rightarrow> (iface \<times> bytes) list \<Rightarrow> links \<Rightarrow> links" where
  "masters mtu [] l = l"
| "masters mtu ((f, b) # fbs) l = masters mtu fbs (l(veth_name b \<mapsto> veth mtu (Some (l_name (if_network f))) []))"

text \<open>What \<open>Setup\<close> needs: a fresh name, free veth names, and bridges that exist.\<close>

definition setup_ok :: "netNS \<Rightarrow> (iface \<times> bytes) list \<Rightarrow> int \<Rightarrow> nsView \<Rightarrow> bool" where
  "setup_ok n fbs mtu v \<longleftrightarrow> ne_interfaces n = map fst fbs \<and> length fbs \<le> 1000 \<and> 0 < mtu \<and>
     plain_comp (ne_name n) \<and> nv_named v (ne_name n) = None \<and>
     (\<forall>(f, b) \<in> set fbs. length b = 4 \<and> distinct (if_addresses f) \<and> here v (veth_name b) = None) \<and>
     distinct (map (\<lambda>p. veth_name (snd p)) fbs) \<and>
     (\<forall>p \<in> set fbs. \<exists>t. here v (l_name (if_network (fst p))) = Some t \<and> ls_kind t = KBridge)"

context netns_host
begin

text \<open>View, entropy and veth names of a state.\<close>

definition at :: "'w vethEnv \<Rightarrow> nsView \<Rightarrow> rng \<Rightarrow> string list \<Rightarrow> bool" where
  "at s v g ns \<longleftrightarrow> vw (env_host (ve_env s)) = v \<and> env_rng (ve_env s) = g \<and> ve_hostVethNames s = ns"

lemma inHost_gives:
  assumes "gives vw m (env_host (ve_env s)) x v'" "at s v g ns"
  shows "\<exists>s'. inHost m s = (Ret x, s') \<and> at s' v' g ns"
  using assms by (auto simp: gives_def inHost_def onEnv_def onHost_def at_def)

lemma createVeth_at:
  assumes at: "at s v (Some b # g) ns" and b: "length b = 4" "i < 1000" "0 < mtu" "h \<noteq> nv_cur v" "distinct (if_addresses f)"
    and free: "nv_inside v (nv_cur v) (eth i) = None" "nv_inside v h (veth_name b) = None"
  shows "\<exists>s'. createVeth S N mtu h (i, f) s = (Ret (), s') \<and>
    at s' (v\<lparr>nv_inside := add_veth (nv_cur v) h mtu i f b (nv_inside v)\<rparr>) g (ns @ [veth_name b])"
proof -
  let ?c = "nv_cur v" and ?x = "veth_name b"
  let ?v1 = "v\<lparr>nv_inside := (nv_inside v)(?c := (nv_inside v ?c)(eth i \<mapsto> veth mtu None []), h := (nv_inside v h)(?x \<mapsto> veth mtu None []))\<rparr>"
  have 1: "onEnv (onRng (RandomLinkName LinkTypeVeth)) s = (Ret ?x, s\<lparr>ve_env := (ve_env s)\<lparr>env_rng := g\<rparr>\<rparr>)"
    using at b(1) by (simp add: onEnv_def onRng_def at_def RandomLinkName_veth)
  let ?s1 = "s\<lparr>ve_env := (ve_env s)\<lparr>env_rng := g\<rparr>\<rparr>"
  have at1: "at ?s1 v g ns" using at by (simp add: at_def)
  have v1: "vw (env_host (ve_env ?s1)) = v" using at1 by (simp add: at_def)
  have "gives vw (ns_SetupVethWithName S (eth i) ?x mtu h) (env_host (ve_env ?s1)) (?x, eth i) ?v1"
    using veth_law [OF eth_ok [OF b(2)] veth_ok [OF b(1)] b(3), of h "env_host (ve_env ?s1)"] b(4) free unfolding v1 by blast
  from inHost_gives [OF gives_wrap [OF this] at1]
  obtain s2 where 2: "inHost (wrapA ''failed to set up veth'' (ns_SetupVethWithName S (eth i) ?x mtu h)) ?s1 = (Ret (?x, eth i), s2)" "at s2 ?v1 g ns"
    by blast
  let ?s3 = "s2\<lparr>ve_hostVethNames := ve_hostVethNames s2 @ [?x]\<rparr>"
  have 3: "addVethName ?x s2 = (Ret (), ?s3)" "at ?s3 ?v1 g (ns @ [?x])" using 2(2) by (simp_all add: addVethName_def modifyA_def at_def)
  have v3: "vw (env_host (ve_env ?s3)) = ?v1" using 3(2) unfolding at_def by blast
  have "here (vw (env_host (ve_env ?s3))) (eth i) = Some (veth mtu None [])" unfolding v3 using b(4) by (simp add: here_def)
  note conf = gives_configure [OF this b(5), where ?m1.0 = "''failed to find the container veth '' @ eth i"
      and ?m2.0 = "\<lambda>l a. ''failed to add the address '' @ ipNet_String a @ '' to '' @ l_name l" and ?m3.0 = "\<lambda>l. ''failed to set '' @ l_name l @ '' up''"]
  have v4: "set_cur_links ((here ?v1)(eth i \<mapsto> veth mtu None (if_addresses f))) ?v1 = v\<lparr>nv_inside := add_veth ?c h mtu i f b (nv_inside v)\<rparr>"
    using b(4) by (auto simp: set_cur_links_def here_def add_veth_def fun_upd_twist)
  from inHost_gives [OF conf 3(2)] obtain s4 where
    "inHost (bindA (wrapA (''failed to find the container veth '' @ eth i) (n_LinkByName N (eth i))) (\<lambda>l.
       bindA (forA (\<lambda>a. wrapA (''failed to add the address '' @ ipNet_String a @ '' to '' @ l_name l) (n_AddrAdd N (l_name l) a)) (if_addresses f)) (\<lambda>_.
       wrapA (''failed to set '' @ l_name l @ '' up'') (n_LinkSetUp N (l_name l))))) ?s3 = (Ret (), s4)"
    "at s4 (v\<lparr>nv_inside := add_veth ?c h mtu i f b (nv_inside v)\<rparr>) g (ns @ [?x])" unfolding v3 v4 by blast
  with 1 2(1) 3(1) show ?thesis by (simp add: createVeth_def bindA_def eth_def)
qed

lemma createVeths_at:
  assumes "at s v (map Some (map snd fbs) @ g) ns" "nv_cur v = c" "0 < mtu" "h \<noteq> c" "i + length fbs \<le> 1000"
    "\<forall>(f, b) \<in> set fbs. length b = 4 \<and> distinct (if_addresses f) \<and> nv_inside v h (veth_name b) = None"
    "distinct (map (\<lambda>p. veth_name (snd p)) fbs)" "\<forall>j \<ge> i. nv_inside v c (eth j) = None"
  shows "\<exists>s'. forA (createVeth S N mtu h) (List.enumerate i (map fst fbs)) s = (Ret (), s') \<and>
    at s' (v\<lparr>nv_inside := add_veths c h mtu i fbs (nv_inside v)\<rparr>) g (ns @ map (\<lambda>p. veth_name (snd p)) fbs)"
  using assms
proof (induction fbs arbitrary: i s v ns)
  case Nil
  then show ?case by (simp add: retA_def)
next
  case (Cons p fbs)
  obtain f b where p: "p = (f, b)" by force
  let ?v1 = "v\<lparr>nv_inside := add_veth c h mtu i f b (nv_inside v)\<rparr>"
  have "\<exists>s1. createVeth S N mtu h (i, f) s = (Ret (), s1) \<and> at s1 ?v1 (map Some (map snd fbs) @ g) (ns @ [veth_name b])"
    using createVeth_at [of s v b "map Some (map snd fbs) @ g" ns i mtu h f] Cons.prems p by simp
  then obtain s1 where s1: "createVeth S N mtu h (i, f) s = (Ret (), s1)" "at s1 ?v1 (map Some (map snd fbs) @ g) (ns @ [veth_name b])" by blast
  have "\<exists>s'. forA (createVeth S N mtu h) (List.enumerate (Suc i) (map fst fbs)) s1 = (Ret (), s') \<and>
      at s' (?v1\<lparr>nv_inside := add_veths c h mtu (Suc i) fbs (nv_inside ?v1)\<rparr>) g ((ns @ [veth_name b]) @ map (\<lambda>p. veth_name (snd p)) fbs)"
  proof (rule Cons.IH [OF s1(2)])
    show "\<forall>(f', b') \<in> set fbs. length b' = 4 \<and> distinct (if_addresses f') \<and> nv_inside ?v1 h (veth_name b') = None"
    proof clarify
      fix f' b' assume m: "(f', b') \<in> set fbs"
      then have "veth_name b' \<noteq> veth_name b" using Cons.prems(7) by (force simp: p)
      with m Cons.prems(6) show "length b' = 4 \<and> distinct (if_addresses f') \<and> nv_inside ?v1 h (veth_name b') = None"
        by (auto simp: p add_veth_def)
    qed
    show "\<forall>j \<ge> Suc i. nv_inside ?v1 c (eth j) = None"
      using Cons.prems(4,8) by (simp add: add_veth_def eth_inj)
  qed (use Cons.prems p in simp_all)
  with s1(1) show ?case by (simp add: p bindA_def)
qed

lemma setupInside_at:
  assumes at: "at s v (map Some (map snd fbs) @ g) ns" and c: "nv_cur v = c" "nv_inside v c = [''lo'' \<mapsto> loopback False]"
    and ifs: "ne_interfaces n = map fst fbs" "length fbs \<le> 1000" "0 < mtu" "h \<noteq> c"
    "\<forall>(f, b) \<in> set fbs. length b = 4 \<and> distinct (if_addresses f) \<and> nv_inside v h (veth_name b) = None"
    "distinct (map (\<lambda>p. veth_name (snd p)) fbs)"
  shows "\<exists>s'. setupInside S N n mtu h s = (Ret (), s') \<and>
    at s' (v\<lparr>nv_inside := add_veths c h mtu 0 fbs ((nv_inside v)(c := [''lo'' \<mapsto> loopback True]))\<rparr>) g (ns @ map (\<lambda>p. veth_name (snd p)) fbs)"
proof -
  let ?w = "env_host (ve_env s)" and ?v1 = "v\<lparr>nv_inside := (nv_inside v)(c := [''lo'' \<mapsto> loopback True])\<rparr>"
  have w: "vw ?w = v" using at by (simp add: at_def)
  have lo: "here (vw ?w) ''lo'' = Some (loopback False)" using c by (simp add: w here_def)
  let ?lo = "\<lparr>l_name = ''lo'', l_mtu = ls_mtu (loopback False), l_isBridge = (ls_kind (loopback False) = KBridge)\<rparr>"
  have up: "gives vw (n_LinkSetUp N (l_name ?lo)) w1 () ?v1" if "vw w1 = v" for w1
    using gives_up [of w1 "''lo''" "loopback False"] that c
    by (simp add: here_def set_cur_links_def loopback_def)
  have "gives vw (setupLo S N) ?w () ?v1"
    unfolding setupLo_def
    apply (rule gives_bind [OF gives_wrap [OF gives_byname [OF lo]]])
    apply (rule gives_bind [OF gives_wrap [OF up]], simp add: w)
    apply (rule gives_bind [OF gives_wrap [OF forward(1)]], rule gives_bind [OF gives_wrap [OF forward(2)]])
    apply (rule gives_bind [OF gives_wrap [OF sysctl_law]])
    by (metis gives_wrap sysctl_law)
  from inHost_gives [OF this at] obtain s1 where s1: "inHost (setupLo S N) s = (Ret (), s1)"
    "at s1 ?v1 (map Some (map snd fbs) @ g) ns" by blast
  have "\<exists>s'. forA (createVeth S N mtu h) (List.enumerate 0 (map fst fbs)) s1 = (Ret (), s') \<and>
    at s' (?v1\<lparr>nv_inside := add_veths c h mtu 0 fbs (nv_inside ?v1)\<rparr>) g (ns @ map (\<lambda>p. veth_name (snd p)) fbs)"
    by (rule createVeths_at [OF s1(2)]) (use c ifs eth_lo in \<open>auto simp: fun_upd_apply\<close>)
  with s1(1) show ?thesis by (simp add: setupInside_def bindA_def ifs(1))
qed

lemma Do_at:
  assumes at: "at s v g ns" and f: "\<And>s1. at s1 (v\<lparr>nv_cur := h\<rparr>) g ns \<Longrightarrow> \<exists>s2. f (nv_cur v) s1 = (Ret (), s2) \<and> at s2 v2 g2 ns2"
  shows "\<exists>s3. ns_Do S h f s = (Ret (), s3) \<and> at s3 (v2\<lparr>nv_cur := nv_cur v\<rparr>) g2 ns2"
proof -
  have v: "vw (env_host (ve_env s)) = v" using at by (simp add: at_def)
  obtain w1 where w1: "vw w1 = v\<lparr>nv_cur := h\<rparr>"
    "case f (nv_cur v) (s\<lparr>ve_env := (ve_env s)\<lparr>env_host := w1\<rparr>\<rparr>) of (r, s2) \<Rightarrow>
        \<exists>w3. ns_Do S h f s = (r, s2\<lparr>ve_env := (ve_env s2)\<lparr>env_host := w3\<rparr>\<rparr>) \<and> vw w3 = (vw (env_host (ve_env s2)))\<lparr>nv_cur := nv_cur v\<rparr>"
    using do_law [where s = s and h = h and f = f] unfolding v by (elim exE conjE) (rule that)
  have "at (s\<lparr>ve_env := (ve_env s)\<lparr>env_host := w1\<rparr>\<rparr>) (v\<lparr>nv_cur := h\<rparr>) g ns" using at w1(1) by (simp add: at_def)
  from f [OF this] obtain s2 where "f (nv_cur v) (s\<lparr>ve_env := (ve_env s)\<lparr>env_host := w1\<rparr>\<rparr>) = (Ret (), s2)" "at s2 v2 g2 ns2" by blast
  with w1(2) show ?thesis by (auto simp: at_def)
qed

lemma attachVeth_gives:
  assumes "here (vw w) (veth_name b) = Some (veth mtu None [])" "i < length (ne_interfaces n)"
    "here (vw w) (l_name (if_network (ne_interfaces n ! i))) = Some t" "ls_kind t = KBridge"
  shows "gives vw (attachVeth N n (i, veth_name b)) w ()
    (set_cur_links ((here (vw w))(veth_name b \<mapsto> veth mtu (Some (l_name (if_network (ne_interfaces n ! i)))) [])) (vw w))"
proof -
  let ?br = "l_name (if_network (ne_interfaces n ! i))"
  have ne: "veth_name b \<noteq> ?br" using assms(1,3,4) by (auto simp: veth_def)
  have "gives vw (n_LinkSetMaster N (veth_name b) ?br) w1 ()
      (set_cur_links ((here (vw w))(veth_name b \<mapsto> veth mtu (Some ?br) [])) (vw w))" if w1: "vw w1 = vw w" for w1
  proof -
    have "(veth mtu None [])\<lparr>ls_master := Some ?br\<rparr> = veth mtu (Some ?br) []" by (simp add: veth_def)
    then show ?thesis
      using master [of w1 "veth_name b" "veth mtu None []" ?br t] assms(1,3,4) ne unfolding w1 here_def by metis
  qed
  then show ?thesis
    unfolding attachVeth_def prod.case
    by (intro gives_bind [OF gives_wrap [OF gives_byname [OF assms(1)]]]) (simp add: assms(2) Let_def gives_wrap)
qed

lemma attachVeths_gives:
  assumes "\<forall>p \<in> set fbs. here (vw w) (veth_name (snd p)) = Some (veth mtu None [])"
    "\<forall>p \<in> set fbs. \<exists>t. here (vw w) (l_name (if_network (fst p))) = Some t \<and> ls_kind t = KBridge"
    "ne_interfaces n = pre @ map fst fbs" "distinct (map (\<lambda>p. veth_name (snd p)) fbs)"
  shows "gives vw (forA (attachVeth N n) (List.enumerate (length pre) (map (\<lambda>p. veth_name (snd p)) fbs))) w ()
    (set_cur_links (masters mtu fbs (here (vw w))) (vw w))"
  using assms
proof (induction fbs arbitrary: w pre)
  case Nil
  then show ?case by (simp add: gives_def retA_def)
next
  case (Cons p fbs)
  obtain f b where p: "p = (f, b)" by force
  let ?l = "(here (vw w))(veth_name b \<mapsto> veth mtu (Some (l_name (if_network f))) [])"
  obtain t where t: "here (vw w) (l_name (if_network f)) = Some t" "ls_kind t = KBridge" using Cons.prems(2) p by auto
  have i: "length pre < length (ne_interfaces n)" "ne_interfaces n ! length pre = f" using Cons.prems(3) by (simp_all add: p)
  have a: "gives vw (attachVeth N n (length pre, veth_name b)) w () (set_cur_links ?l (vw w))"
    using attachVeth_gives [of w b mtu "length pre" n t] Cons.prems(1) i t p by simp
  have "gives vw (bindA (attachVeth N n (length pre, veth_name b)) (\<lambda>_.
      forA (attachVeth N n) (List.enumerate (Suc (length pre)) (map (\<lambda>p. veth_name (snd p)) fbs)))) w () (set_cur_links (masters mtu fbs ?l) (vw w))"
  proof (rule gives_bind [OF a])
    fix w1 assume w1: "vw w1 = set_cur_links ?l (vw w)"
    have h: "here (vw w1) = ?l" unfolding w1 here_set ..
    have 1: "\<forall>p \<in> set fbs. here (vw w1) (veth_name (snd p)) = Some (veth mtu None [])"
      using Cons.prems(1,4) unfolding h p by (auto simp: rev_image_eqI)
    have 2: "\<forall>p \<in> set fbs. \<exists>t. here (vw w1) (l_name (if_network (fst p))) = Some t \<and> ls_kind t = KBridge"
    proof
      fix q assume "q \<in> set fbs"
      then obtain u where u: "here (vw w) (l_name (if_network (fst q))) = Some u" "ls_kind u = KBridge" using Cons.prems(2) by auto
      then have "l_name (if_network (fst q)) \<noteq> veth_name b" using Cons.prems(1) p by (auto simp: veth_def)
      then show "\<exists>t. here (vw w1) (l_name (if_network (fst q))) = Some t \<and> ls_kind t = KBridge" unfolding h using u by simp
    qed
    have "gives vw (forA (attachVeth N n) (List.enumerate (Suc (length pre)) (map (\<lambda>p. veth_name (snd p)) fbs))) w1 ()
        (set_cur_links (masters mtu fbs (here (vw w1))) (vw w1))"
      using Cons.IH [OF 1 2, of "pre @ [f]"] Cons.prems(3,4) by (simp add: p)
    then show "gives vw (forA (attachVeth N n) (List.enumerate (Suc (length pre)) (map (\<lambda>p. veth_name (snd p)) fbs))) w1 ()
        (set_cur_links (masters mtu fbs ?l) (vw w))" unfolding w1 here_set .
  qed
  then show ?case unfolding p by (simp only: map_eq_Cons_conv list.map snd_conv enumerate_simps forA.simps masters.simps)
qed

end

subsection \<open>The links of a namespace and of the host\<close>

definition container_ends :: "int \<Rightarrow> nat \<Rightarrow> (iface \<times> bytes) list \<Rightarrow> links" where
  "container_ends mtu i fbs = map_of (map (\<lambda>(j, p). (eth j, veth mtu None (if_addresses (fst p)))) (List.enumerate i fbs))"

definition host_ends :: "int \<Rightarrow> (iface \<Rightarrow> string option) \<Rightarrow> (iface \<times> bytes) list \<Rightarrow> links" where
  "host_ends mtu m fbs = map_of (map (\<lambda>p. (veth_name (snd p), veth mtu (m (fst p)) [])) fbs)"

lemma dom_container: "eth j \<in> dom (container_ends mtu i fbs) \<Longrightarrow> i \<le> j"
  by (auto simp: container_ends_def dom_map_of_conv_image_fst eth_inj in_set_enumerate_eq)

lemma dom_host: "dom (host_ends mtu m fbs) = (\<lambda>p. veth_name (snd p)) ` set fbs"
  by (simp add: host_ends_def dom_map_of_conv_image_fst image_image)

lemma container_Cons: "container_ends mtu i ((f, b) # fbs) = (container_ends mtu (Suc i) fbs)(eth i \<mapsto> veth mtu None (if_addresses f))"
  by (simp add: container_ends_def)

lemma host_Cons: "host_ends mtu m ((f, b) # fbs) = (host_ends mtu m fbs)(veth_name b \<mapsto> veth mtu (m f) [])"
  by (simp add: host_ends_def)

lemma add_veths_eq:
  "h \<noteq> c \<Longrightarrow> distinct (map (\<lambda>p. veth_name (snd p)) fbs) \<Longrightarrow>
   add_veths c h mtu i fbs ins = ins(c := ins c ++ container_ends mtu i fbs, h := ins h ++ host_ends mtu (\<lambda>_. None) fbs)"
proof (induction fbs arbitrary: i ins)
  case Nil
  then show ?case by (simp add: container_ends_def host_ends_def)
next
  case (Cons p fbs)
  obtain f b where p: "p = (f, b)" by force
  have e: "eth i \<notin> dom (container_ends mtu (Suc i) fbs)" using dom_container [of i mtu "Suc i" fbs] by auto
  have v: "veth_name b \<notin> dom (host_ends mtu (\<lambda>_. None) fbs)" using Cons.prems(2) unfolding dom_host p by auto
  have c: "add_veth c h mtu i f b ins c = (ins c)(eth i \<mapsto> veth mtu None (if_addresses f))"
    "add_veth c h mtu i f b ins h = (ins h)(veth_name b \<mapsto> veth mtu None [])"
    using Cons.prems(1) by (simp_all add: add_veth_def)
  have o: "add_veth c h mtu i f b ins = ins(c := add_veth c h mtu i f b ins c, h := add_veth c h mtu i f b ins h)"
    using Cons.prems(1) by (simp add: add_veth_def)
  have "add_veths c h mtu i (p # fbs) ins = (add_veth c h mtu i f b ins)
     (c := add_veth c h mtu i f b ins c ++ container_ends mtu (Suc i) fbs, h := add_veth c h mtu i f b ins h ++ host_ends mtu (\<lambda>_. None) fbs)"
    unfolding p add_veths.simps by (rule Cons.IH) (use Cons.prems in simp_all)
  also have "\<dots> = ins(c := add_veth c h mtu i f b ins c ++ container_ends mtu (Suc i) fbs, h := add_veth c h mtu i f b ins h ++ host_ends mtu (\<lambda>_. None) fbs)"
    by (subst (1) o) (use Cons.prems(1) in \<open>simp add: fun_upd_twist\<close>)
  finally show ?case
    unfolding c map_add_upd_left [OF e] map_add_upd_left [OF v] p container_Cons host_Cons map_add_upd .
qed

lemma masters_eq:
  "distinct (map (\<lambda>p. veth_name (snd p)) fbs) \<Longrightarrow> masters mtu fbs l = l ++ host_ends mtu (\<lambda>f. Some (l_name (if_network f))) fbs"
proof (induction fbs arbitrary: l)
  case Nil
  then show ?case by (simp add: host_ends_def)
next
  case (Cons p fbs)
  obtain f b where p: "p = (f, b)" by force
  have v: "veth_name b \<notin> dom (host_ends mtu (\<lambda>f. Some (l_name (if_network f))) fbs)" using Cons.prems unfolding dom_host p by auto
  show ?case
    unfolding p masters.simps host_Cons map_add_upd map_add_upd_left [OF v, symmetric] by (rule Cons.IH) (use Cons.prems in simp)
qed

lemma host_ends_lookup:
  "p \<in> set fbs \<Longrightarrow> distinct (map (\<lambda>p. veth_name (snd p)) fbs) \<Longrightarrow> host_ends mtu m fbs (veth_name (snd p)) = Some (veth mtu (m (fst p)) [])"
  unfolding host_ends_def by (rule map_of_is_SomeI) (auto simp: comp_def)

lemma host_ends_override: "(l ++ host_ends mtu m fbs) ++ host_ends mtu m' fbs = l ++ host_ends mtu m' fbs"
  using dom_host [of mtu m fbs] dom_host [of mtu m' fbs] by (intro ext) (auto simp: map_add_def split: option.splits)

context netns_host
begin

lemma gives_defer: "gives vw m w x v \<Longrightarrow> (\<And>w'. vw w' = v \<Longrightarrow> gives vw c w' y v) \<Longrightarrow> gives vw (deferA m c) w x v"
  by (force simp: gives_def deferA_def)

lemma createNetNS_gives:
  assumes "plain_comp (ne_name n)" "nv_named (vw w) (ne_name n) = None"
  shows "\<exists>c. c \<noteq> nv_cur (vw w) \<and> gives vw (createNetNS S runDir n) w c
    ((vw w)\<lparr>nv_inside := (nv_inside (vw w))(c := [''lo'' \<mapsto> loopback False]), nv_named := (nv_named (vw w))(ne_name n \<mapsto> c)\<rparr>)"
proof -
  let ?v2 = "\<lambda>c. (vw w)\<lparr>nv_inside := (nv_inside (vw w))(c := [''lo'' \<mapsto> loopback False]), nv_named := (nv_named (vw w))(ne_name n \<mapsto> c)\<rparr>"
  obtain w1 where 1: "ns_Get S w = (Ret (nv_cur (vw w)), w1)" "vw w1 = vw w" using get_law [of w] by (auto simp: gives_def)
  obtain c w2 where c: "c \<noteq> nv_cur (vw w)" and 2: "ns_NewNamed S (ne_name n) w1 = (Ret c, w2)" "vw w2 = (?v2 c)\<lparr>nv_cur := c\<rparr>"
    using new_law [OF assms(1), of w1] assms(2) unfolding 1(2) gives_def by auto
  have "gives vw (deferA (bindA (wrapA ''failed to set the original NetNS'' (ns_Set S (nv_cur (vw w)))) (\<lambda>_.
        wrapA (''failed to get network namespace '' @ ne_name n) (ns_GetNS S (filepath_Join [runDir, ne_name n])))) (ns_CloseHandle S c)) w2 c (?v2 c)"
  proof (rule gives_defer [OF gives_bind [OF gives_wrap [OF set_law] gives_wrap]])
    fix w3 assume w3: "vw w3 = (vw w2)\<lparr>nv_cur := nv_cur (vw w)\<rparr>"
    then have v3: "vw w3 = ?v2 c" using 2(2) by simp
    then have "nv_named (vw w3) (ne_name n) = Some c" by simp
    from getns_law [OF assms(1) this] show "gives vw (ns_GetNS S (filepath_Join [runDir, ne_name n])) w3 c (?v2 c)" unfolding v3 .
  next
    fix w4 assume "vw w4 = ?v2 c"
    then show "gives vw (ns_CloseHandle S c) w4 () (?v2 c)" using close_law(1) [of c w4] by simp
  qed
  then have "gives vw (createNetNS S runDir n) w c (?v2 c)"
    unfolding createNetNS_def gives_def by (subst bindA_Ret [of _ _ "nv_cur (vw w)" w1], simp add: 1(1), subst bindA_Ret [of _ _ c w2], simp add: 2(1))
  with c show ?thesis by blast
qed

lemma gives_for: "(\<And>x w. x \<in> set xs \<Longrightarrow> gives vw (f x) w () (vw w)) \<Longrightarrow> gives vw (forA f xs) w () (vw w)"
proof (induction xs arbitrary: w)
  case Nil
  then show ?case by (simp add: gives_def retA_def)
next
  case (Cons x xs)
  show ?case
    unfolding forA.simps
  proof (rule gives_bind [of _ _ "()" "vw w"])
    show "gives vw (f x) w () (vw w)" using Cons.prems by simp
    fix w' assume "vw w' = vw w"
    then show "gives vw (forA f xs) w' () (vw w)" using Cons.IH [of w'] Cons.prems by simp
  qed
qed

text \<open>Work inside a namespace that leaves all links alone.\<close>

lemma Do_same:
  assumes "at s v g ns" "\<And>w. gives vw m w () (vw w)"
  shows "\<exists>s'. ns_Do S c (\<lambda>_. inHost m) s = (Ret (), s') \<and> at s' v g ns"
proof -
  have "\<exists>s3. ns_Do S c (\<lambda>_. inHost m) s = (Ret (), s3) \<and> at s3 ((v\<lparr>nv_cur := c\<rparr>)\<lparr>nv_cur := nv_cur v\<rparr>) g ns"
  proof (rule Do_at [OF assms(1)])
    fix s1 assume a: "at s1 (v\<lparr>nv_cur := c\<rparr>) g ns"
    then have "gives vw m (env_host (ve_env s1)) () (v\<lparr>nv_cur := c\<rparr>)" using assms(2) [of "env_host (ve_env s1)"] by (simp add: at_def)
    from inHost_gives [OF this a] show "\<exists>s2. inHost m s1 = (Ret (), s2) \<and> at s2 (v\<lparr>nv_cur := c\<rparr>) g ns" .
  qed
  then show ?thesis by simp
qed

lemma goAll_same:
  assumes "at s v g ns" "\<And>m w. m \<in> set ms \<Longrightarrow> gives vw m w () (vw w)"
  shows "\<exists>s'. goAll (map (\<lambda>m. ns_Do S c (\<lambda>_. inHost m)) ms) s = (Ret (), s') \<and> at s' v g ns"
  using assms
proof (induction ms arbitrary: s)
  case Nil
  then show ?case by simp
next
  case (Cons m ms)
  obtain s1 where s1: "ns_Do S c (\<lambda>_. inHost m) s = (Ret (), s1)" "at s1 v g ns" using Do_same [OF Cons.prems(1)] Cons.prems(2) by (meson list.set_intros(1))
  from Cons.IH [OF s1(2)] Cons.prems(2) s1(1) show ?case by simp
qed

lemma attach_all:
  assumes ok: "setup_ok n fbs mtu v" and h: "here (vw w) = here v ++ host_ends mtu (\<lambda>_. None) fbs"
  shows "gives vw (forA (attachVeth N n) (List.enumerate 0 (map (\<lambda>p. veth_name (snd p)) fbs))) w ()
    (set_cur_links (here v ++ host_ends mtu (\<lambda>f. Some (l_name (if_network f))) fbs) (vw w))"
proof -
  have "gives vw (forA (attachVeth N n) (List.enumerate (length ([] :: iface list)) (map (\<lambda>p. veth_name (snd p)) fbs))) w ()
      (set_cur_links (masters mtu fbs (here (vw w))) (vw w))"
  proof (rule attachVeths_gives)
    show "\<forall>p \<in> set fbs. here (vw w) (veth_name (snd p)) = Some (veth mtu None [])"
      using ok host_ends_lookup [of _ fbs mtu "\<lambda>_. None"] unfolding h by (simp add: setup_ok_def map_add_Some_iff)
    have "l_name (if_network (fst p)) \<notin> dom (host_ends mtu (\<lambda>_. None) fbs)" if "p \<in> set fbs" for p
      using ok that unfolding dom_host setup_ok_def by force
    then show "\<forall>p \<in> set fbs. \<exists>t. here (vw w) (l_name (if_network (fst p))) = Some t \<and> ls_kind t = KBridge"
      using ok unfolding h by (auto simp: setup_ok_def map_add_dom_app_simps(3))
  qed (use ok in \<open>auto simp: setup_ok_def\<close>)
  moreover have "masters mtu fbs (here (vw w)) = here v ++ host_ends mtu (\<lambda>f. Some (l_name (if_network f))) fbs"
    unfolding h by (subst masters_eq) (use ok in \<open>auto simp: setup_ok_def host_ends_override\<close>)
  ultimately show ?thesis by simp
qed

lemma links_at:
  assumes at: "at s v (map Some (map snd fbs) @ g) []" and ok: "setup_ok n fbs mtu v"
  shows "\<exists>c s1 s2 s3 v3. c \<noteq> nv_cur v \<and> inHost (createNetNS S runDir n) s = (Ret c, s1) \<and>
    ns_Do S c (setupInside S N n mtu) s1 = (Ret (), s2) \<and> ve_hostVethNames s2 = map (\<lambda>p. veth_name (snd p)) fbs \<and>
    inHost (forA (attachVeth N n) (List.enumerate 0 (ve_hostVethNames s2))) s2 = (Ret (), s3) \<and>
    at s3 v3 g (map (\<lambda>p. veth_name (snd p)) fbs) \<and> v3 = v\<lparr>nv_named := (nv_named v)(ne_name n \<mapsto> c),
      nv_inside := (nv_inside v)(c := [''lo'' \<mapsto> loopback True] ++ container_ends mtu 0 fbs,
        nv_cur v := here v ++ host_ends mtu (\<lambda>f. Some (l_name (if_network f))) fbs)\<rparr>"
proof -
  let ?h = "nv_cur v" and ?ns = "map (\<lambda>p. veth_name (snd p)) fbs"
  have v: "vw (env_host (ve_env s)) = v" using at by (simp add: at_def)
  obtain c where c: "c \<noteq> ?h" and cr: "gives vw (createNetNS S runDir n) (env_host (ve_env s)) c
      (v\<lparr>nv_inside := (nv_inside v)(c := [''lo'' \<mapsto> loopback False]), nv_named := (nv_named v)(ne_name n \<mapsto> c)\<rparr>)"
    using createNetNS_gives [of n "env_host (ve_env s)"] ok unfolding v by (auto simp: setup_ok_def)
  let ?v1 = "v\<lparr>nv_inside := (nv_inside v)(c := [''lo'' \<mapsto> loopback False]), nv_named := (nv_named v)(ne_name n \<mapsto> c)\<rparr>"
  obtain s1 where s1: "inHost (createNetNS S runDir n) s = (Ret c, s1)" "at s1 ?v1 (map Some (map snd fbs) @ g) []"
    using inHost_gives [OF cr at] by blast
  let ?ins = "(nv_inside v)(c := [''lo'' \<mapsto> loopback True])"
  let ?v2 = "?v1\<lparr>nv_cur := c, nv_inside := add_veths c ?h mtu 0 fbs ?ins\<rparr>"
  have "\<exists>s2. ns_Do S c (setupInside S N n mtu) s1 = (Ret (), s2) \<and> at s2 (?v2\<lparr>nv_cur := nv_cur ?v1\<rparr>) g ?ns"
  proof (rule Do_at [OF s1(2)])
    fix t assume t: "at t (?v1\<lparr>nv_cur := c\<rparr>) (map Some (map snd fbs) @ g) []"
    have "\<exists>s2. setupInside S N n mtu ?h t = (Ret (), s2) \<and>
      at s2 ((?v1\<lparr>nv_cur := c\<rparr>)\<lparr>nv_inside := add_veths c ?h mtu 0 fbs ((nv_inside (?v1\<lparr>nv_cur := c\<rparr>))(c := [''lo'' \<mapsto> loopback True]))\<rparr>) g ([] @ ?ns)"
      by (rule setupInside_at [OF t]) (use ok c in \<open>auto simp: setup_ok_def here_def\<close>)
    then show "\<exists>s2. setupInside S N n mtu (nv_cur ?v1) t = (Ret (), s2) \<and> at s2 ?v2 g ?ns" by simp
  qed
  then obtain s2 where s2: "ns_Do S c (setupInside S N n mtu) s1 = (Ret (), s2)" "at s2 (?v2\<lparr>nv_cur := ?h\<rparr>) g ?ns" by auto
  have ins: "add_veths c ?h mtu 0 fbs ?ins = (nv_inside v)(c := [''lo'' \<mapsto> loopback True] ++ container_ends mtu 0 fbs,
      ?h := nv_inside v ?h ++ host_ends mtu (\<lambda>_. None) fbs)"
    using ok c by (subst add_veths_eq) (auto simp: setup_ok_def)
  let ?V = "?v2\<lparr>nv_cur := ?h\<rparr>" and ?m = "\<lambda>f. Some (l_name (if_network f))"
  have V: "here ?V = here v ++ host_ends mtu (\<lambda>_. None) fbs" using c by (simp add: here_def ins)
  have w2: "vw (env_host (ve_env s2)) = ?V" using s2(2) unfolding at_def by blast
  have hw: "here (vw (env_host (ve_env s2))) = here v ++ host_ends mtu (\<lambda>_. None) fbs" unfolding w2 V ..
  note a = attach_all [OF ok hw, unfolded w2]
  let ?v3 = "v\<lparr>nv_named := (nv_named v)(ne_name n \<mapsto> c), nv_inside := (nv_inside v)(c := [''lo'' \<mapsto> loopback True] ++ container_ends mtu 0 fbs,
        ?h := here v ++ host_ends mtu ?m fbs)\<rparr>"
  have v3: "set_cur_links (here v ++ host_ends mtu ?m fbs) ?V = ?v3" by (simp add: set_cur_links_def ins)
  have names: "ve_hostVethNames s2 = ?ns" using s2(2) by (simp add: at_def)
  from inHost_gives [OF a s2(2)] obtain s3 where
    "inHost (forA (attachVeth N n) (List.enumerate 0 ?ns)) s2 = (Ret (), s3)" "at s3 ?v3 g ?ns" unfolding v3 by auto
  then show ?thesis using c s1(1) s2(1) names by (intro exI [of _ c] exI [of _ s1] exI [of _ s2] exI [of _ s3] exI [of _ ?v3]) simp
qed

end


subsection \<open>Namespaces of the executable host\<close>

text \<open>The links of the current namespace are those netlink works on; switching exchanges them.\<close>

record refNs = refLinks +
  rn_cur :: nat
  rn_other :: "nat \<Rightarrow> (string \<times> linkState) list"
  rn_names :: "(string \<times> nat) list"

definition ref_vw :: "refNs \<Rightarrow> nsView" where
  "ref_vw w = \<lparr>nv_cur = rn_cur w, nv_inside = (\<lambda>k. if k = rn_cur w then map_of (rl_links w) else map_of (rn_other w k)),
     nv_named = map_of (rn_names w)\<rparr>"

definition switch :: "nat \<Rightarrow> refNs \<Rightarrow> refNs" where
  "switch h w = w\<lparr>rn_other := (rn_other w)(rn_cur w := rl_links w), rl_links := (if h = rn_cur w then rl_links w else rn_other w h), rn_cur := h\<rparr>"

definition hostMap :: "('w \<Rightarrow> 'w) \<Rightarrow> 'w vethEnv \<Rightarrow> 'w vethEnv" where
  "hostMap f s = s\<lparr>ve_env := (ve_env s)\<lparr>env_host := f (env_host (ve_env s))\<rparr>\<rparr>"

definition refNamed :: "string \<Rightarrow> (refNs, nat) act" where
  "refNamed x w =
     (let h = Suc (sum_list (rn_cur w # map snd (rn_names w)))
      in if map_of (rn_names w) x \<noteq> None then (Fail (ErrNew ''file exists''), w)
         else (Ret h, (switch h (w\<lparr>rn_other := (rn_other w)(h := [(''lo'', loopback False)])\<rparr>))\<lparr>rn_names := (x, h) # rn_names w\<rparr>))"

definition refGetNS :: "string \<Rightarrow> (refNs, nat) act" where
  "refGetNS p w =
     (case find (\<lambda>(x, h). plain_comp x \<and> filepath_Join [''/var/run/netns'', x] = p) (rn_names w) of
        None \<Rightarrow> (Fail ErrNotExist, w)
      | Some (x, h) \<Rightarrow> (Ret h, w))"

definition refSetupVeth :: "string \<Rightarrow> string \<Rightarrow> int \<Rightarrow> nat \<Rightarrow> (refNs, string \<times> string) act" where
  "refSetupVeth c x mtu h w =
     (if h = rn_cur w \<or> map_of (rl_links w) c \<noteq> None \<or> map_of (rn_other w h) x \<noteq> None then (Fail (ErrNew ''file exists''), w)
      else (Ret (x, c), w\<lparr>rl_links := (c, veth mtu None []) # rl_links w, rn_other := (rn_other w)(h := (x, veth mtu None []) # rn_other w h)\<rparr>))"

definition refNetns :: "refNs netns" where
  "refNetns =
     \<lparr>ns_Get = (\<lambda>w. (Ret (rn_cur w), w)), ns_NewNamed = refNamed, ns_Set = (\<lambda>h w. (Ret (), switch h w)), ns_CloseHandle = (\<lambda>h. retA ()),
      ns_DeleteNamed = (\<lambda>x w. (Ret (), w\<lparr>rn_names := filter (\<lambda>(y, h). y \<noteq> x) (rn_names w)\<rparr>)),
      ns_GetNS = refGetNS, ns_Close = (\<lambda>h. retA ()),
      ns_Do = (\<lambda>h f s. case f (rn_cur (env_host (ve_env s))) (hostMap (switch h) s) of
         (r, s2) \<Rightarrow> (r, hostMap (switch (rn_cur (env_host (ve_env s)))) s2)),
      ns_SetupVethWithName = refSetupVeth, ns_Sysctl = (\<lambda>k v. retA ())\<rparr>"

lemma ref_vw_switch: "ref_vw (switch h w) = (ref_vw w)\<lparr>nv_cur := h\<rparr>"
  by (auto simp: ref_vw_def switch_def fun_eq_iff)

lemma refGetNS_law:
  assumes "plain_comp x" "map_of (rn_names w) x = Some h"
  shows "refGetNS (filepath_Join [''/var/run/netns'', x]) w = (Ret h, w)"
proof -
  have "filepath_Join [''/var/run/netns'', y] = filepath_Join [''/var/run/netns'', x] \<longleftrightarrow> y = x" if "plain_comp y" for y
    using Join_last [OF that] Join_last [OF assms(1)] by metis
  then have "(\<lambda>(y, h :: nat). plain_comp y \<and> filepath_Join [''/var/run/netns'', y] = filepath_Join [''/var/run/netns'', x]) = (\<lambda>(y, h). y = x)"
    using assms(1) by (auto simp: fun_eq_iff)
  moreover have "find (\<lambda>(y, h). y = x) xs = Some (x, h)" if "map_of xs x = Some h" for xs using that by (induction xs) (auto split: if_splits)
  ultimately show ?thesis using assms(2) by (simp add: refGetNS_def)
qed

lemma refNamed_law:
  assumes "map_of (rn_names w) x = None"
  shows "\<exists>h. h \<noteq> rn_cur w \<and> h \<notin> ran (map_of (rn_names w)) \<and> gives ref_vw (refNamed x) w h
    ((ref_vw w)\<lparr>nv_cur := h, nv_inside := (nv_inside (ref_vw w))(h := [''lo'' \<mapsto> loopback False]), nv_named := (nv_named (ref_vw w))(x \<mapsto> h)\<rparr>)"
proof -
  let ?h = "Suc (sum_list (rn_cur w # map snd (rn_names w)))"
  have "k < ?h" if "k \<in> set (rn_cur w # map snd (rn_names w))" for k using member_le_sum_list [OF that] by simp
  then have h: "?h \<noteq> rn_cur w" "?h \<notin> ran (map_of (rn_names w))"
    by (fastforce simp: ran_def dest!: map_of_SomeD)+
  have "gives ref_vw (refNamed x) w ?h ((ref_vw w)\<lparr>nv_cur := ?h, nv_inside := (nv_inside (ref_vw w))(?h := [''lo'' \<mapsto> loopback False]),
      nv_named := (nv_named (ref_vw w))(x \<mapsto> ?h)\<rparr>)"
    using assms h(1) by (auto simp: gives_def refNamed_def Let_def ref_vw_def switch_def fun_eq_iff)
  with h show ?thesis by blast
qed

interpretation rns: netns_host refNetns refNetlink ref_vw "''/var/run/netns''"
proof (unfold_locales, goal_cases)
  case (2 x w)
  then show ?case using refNamed_law [of w x] by (simp add: refNetns_def ref_vw_def)
next
  case (3 h w)
  then show ?case by (simp add: gives_def refNetns_def ref_vw_switch)
next
  case (7 h s f)
  show ?case
    by (rule exI [of _ "switch h (env_host (ve_env s))"])
      (auto simp: refNetns_def hostMap_def ref_vw_switch ref_vw_def [of "env_host (ve_env s)"] split: prod.splits)
next
  case (4 x w h)
  then show ?case using refGetNS_law [of x w h] by (simp add: gives_def refNetns_def ref_vw_def)
qed (auto simp: gives_def refNetns_def retA_def ref_vw_switch refSetupVeth_def hostMap_def refNetlink_def ref_lk_def ref_change_def
    ref_vw_def set_cur_links_def fun_eq_iff split: option.splits)

definition exampleNs :: refNs where
  "exampleNs = refLinks.extend (refKernel.extend (refFs.extend
       \<lparr>rf_file = Map.empty, rf_dirs = [], rf_src = Map.empty, rf_dst = Map.empty, rf_next = 0, rf_faults = []\<rparr>
       \<lparr>rk_tables = (\<lambda>p t. Map.empty)\<rparr>) \<lparr>rl_links = [(''br0'', newLink KBridge)]\<rparr>)
     \<lparr>rn_cur = 0, rn_other = (\<lambda>_. []), rn_names = []\<rparr>"

definition exampleIface :: iface where
  "exampleIface = \<lparr>if_network = \<lparr>l_name = ''br0'', l_mtu = 1500, l_isBridge = True\<rparr>,
     if_addresses = [\<lparr>ip_IP = [10, 0, 0, 1], ip_Mask = [255, 255, 255, 0]\<rparr>]\<rparr>"

definition exampleNetNS :: netNS where
  "exampleNetNS = \<lparr>ne_name = ''core'', ne_initScripts = [], ne_interfaces = [exampleIface], ne_apps = []\<rparr>"


end
