(* ===== verification/RuntimeInit.thy ===== *)
theory RuntimeInit
  imports Volume
begin

text \<open>
  The start of the program, \<open>v2/pkg/vm/runtime.go\<close>: loading the kernel module for vhost-net
  and creating the directories of a run. The lines that \<open>bufio.Scanner\<close> delivers from an open
  file are a parameter.
\<close>

definition contains :: "string \<Rightarrow> string \<Rightarrow> bool" where
  "contains s sub \<longleftrightarrow> list_ex (\<lambda>i. take (length sub) (drop i s) = sub) [0..<Suc (length s)]"

text \<open>The result is \<open>vhostNetSupported\<close>; a failed \<open>Open\<close> leaves a nil file, on which the scanner ends at once.\<close>

definition LoadModules :: "'w files \<Rightarrow> 'w commands \<Rightarrow> (nat \<Rightarrow> ('w, string list) act) \<Rightarrow> ('w, bool) act" where
  "LoadModules F C scan =
     bindA (ignoreA (c_Run C [''modprobe'', ''vhost-net''])) (\<lambda>_.
     bindA (tryA (f_Open F ''/proc/modules'')) (\<lambda>f.
     case f of
       Inl e \<Rightarrow> retA False
     | Inr h \<Rightarrow> deferA (bindA (scan h) (\<lambda>ls. retA (list_ex (\<lambda>l. contains l ''vhost_net'') ls))) (f_Close F h)))"

text \<open>A directory that has to be there: an existing one, or a new one.\<close>

definition ensureDir :: "'w files \<Rightarrow> string \<Rightarrow> ('w, unit) act" where
  "ensureDir F dir =
     bindA (tryA (f_Stat F dir)) (\<lambda>fi.
     case fi of
       Inr isDir \<Rightarrow> if isDir then retA () else failA (ErrNew (dir @ '' is not a directory''))
     | Inl e \<Rightarrow> if IsNotExist e then f_MkdirAll F dir else failA e)"

definition NewRuntime :: "'w files \<Rightarrow> bool \<Rightarrow> bool \<Rightarrow> string \<Rightarrow> string \<Rightarrow> string \<Rightarrow> string \<Rightarrow> ('w, Runtime) act" where
  "NewRuntime F force graphic runDir dataDir cacheDir listenAddr =
     (let imageCacheDir = filepath_Join [cacheDir, ''image_cache''] in
      bindA (ensureDir F cacheDir) (\<lambda>_.
      bindA (f_MkdirAll F imageCacheDir) (\<lambda>_.
      bindA (ensureDir F dataDir) (\<lambda>_.
      bindA (f_MkdirAll F (filepath_Join [dataDir, ''volumes''])) (\<lambda>_.
      bindA (f_MkdirAll F (filepath_Join [dataDir, ''nvram''])) (\<lambda>_.
      retA \<lparr>r_Force = force, r_Graphic = graphic, r_RunDir = runDir, r_DataDir = dataDir, r_ListenAddr = listenAddr,
        r_ImageCacheDir = imageCacheDir\<rparr>))))))"

context filesystem
begin

lemma ensureDir_view: "ensureDir F dir w = (r, w') \<Longrightarrow> view w' = view w"
  using stat_view [of dir w] mkdir_view(1)
  by (auto simp: ensureDir_def bindA_def tryA_def act_defs split: prod.splits res.splits sum.splits if_splits)

lemma ensureDir_keeps: "keeps (\<lambda>w. view w = v) (ensureDir F dir)"
  unfolding keeps_def by (metis ensureDir_view prod.collapse)

lemma mkdir_keeps: "keeps (\<lambda>w. view w = v) (f_MkdirAll F dir)"
  unfolding keeps_def by (metis mkdir_view(1) prod.collapse)

lemma NewRuntime_view: "NewRuntime F force graphic runDir dataDir cacheDir listenAddr w = (r, w') \<Longrightarrow> view w' = view w"
proof (rule keepsD [of "\<lambda>u. view u = view w"])
  show "keeps (\<lambda>u. view u = view w) (NewRuntime F force graphic runDir dataDir cacheDir listenAddr)"
    unfolding NewRuntime_def Let_def by (intro keep_intros ensureDir_keeps mkdir_keeps)
qed simp_all

end

lemma NewRuntime_fields:
  "NewRuntime F force graphic runDir dataDir cacheDir listenAddr w = (Ret r, w') \<Longrightarrow>
   r_Force r = force \<and> r_RunDir r = runDir \<and> r_DataDir r = dataDir \<and> r_ImageCacheDir r = filepath_Join [cacheDir, ''image_cache'']"
  by (auto simp: NewRuntime_def Let_def bindA_eq_Ret retA_def)

end
