(* ===== verification/Cluster.thy ===== *)
theory Cluster
  imports Bmc NetNs "HOL-Library.AList"
begin

text \<open>
  The cluster, \<open>v2/pkg/placemat/cluster.go\<close>: setting up networks, nodes, the BMC server and
  namespaces in the order of the code, with its deferred cleanups. The interfaces to the host
  are collected in the record \<open>host\<close>.

  Goroutines run one after the other: those that set up nodes in the order \<open>sc_nodes\<close>, the
  others (BMC server, namespaces, waiting for VMs) to their end before the API server
  returns. A panic in a goroutine ends the process, \<open>ce_dead\<close>: then no deferred call runs.
  \<open>None\<close> stands for a \<open>Setup\<close> that does not return. The map \<open>vms\<close> is an association list, for
  the order in which \<open>range\<close> visits it; its values are nil for a node whose setup was cut off
  by the end of the context.
\<close>

subsection \<open>State\<close>

record 'w host =
  y_files :: "'w files"
  y_http :: "'w http"
  y_netlink :: "'w netlink"
  y_iptables :: "'w iptables"
  y_commands :: "'w commands"
  y_procs :: "'w procs"
  y_sockets :: "'w sockets"
  y_netns :: "'w netns"
  y_DetectMTU :: "('w, int) act"
  y_Serve :: "nat \<Rightarrow> ('w, unit) act"
  y_vhostNetSupported :: bool
  y_nsRunDir :: string

record schedule =
  sc_nodes :: "nat list"
  sc_apps :: "app list \<Rightarrow> app list"
  sc_infos :: "BMCInfo list"

record cluster =
  cl_spec :: ClusterSpec
  cl_networks :: "network list"
  cl_netNss :: "netNS list"
  cl_nodes :: "node list"
  cl_vms :: "(string \<times> vm option) list"
  cl_networkMap :: "string \<rightharpoonup> network"
  cl_nodeSpecMap :: "string \<rightharpoonup> NodeSpec"
  cl_nodeMap :: "string \<rightharpoonup> nat"

text \<open>\<open>nodeMap\<close> holds pointers to the elements of \<open>nodes\<close>, here their positions.\<close>

definition NewCluster :: "ClusterSpec \<Rightarrow> cluster" where
  "NewCluster spec =
     \<lparr>cl_spec = spec, cl_networks = [], cl_netNss = [], cl_nodes = [], cl_vms = [], cl_networkMap = Map.empty,
      cl_nodeSpecMap = map_of (rev (map (\<lambda>n. (node_Name n, n)) (cs_Nodes spec))), cl_nodeMap = Map.empty\<rparr>"

record 'w clEnv =
  ce_env :: "'w env"
  ce_cl :: cluster
  ce_dead :: bool

definition onCl :: "('w env, 'a) act \<Rightarrow> ('w clEnv, 'a) act" where
  "onCl m s = (case m (ce_env s) of (r, e) \<Rightarrow> (r, s\<lparr>ce_env := e\<rparr>))"

definition hostC :: "('w, 'a) act \<Rightarrow> ('w clEnv, 'a) act" where
  "hostC m = onCl (onHost m)"

definition modCl :: "(cluster \<Rightarrow> cluster) \<Rightarrow> ('w clEnv, unit) act" where
  "modCl f = modifyA (\<lambda>s. s\<lparr>ce_cl := f (ce_cl s)\<rparr>)"

subsection \<open>Networks and nodes\<close>

definition setupNetwork :: "'w host \<Rightarrow> Runtime \<Rightarrow> int \<Rightarrow> NetworkSpec \<Rightarrow> ('w clEnv, unit) act" where
  "setupNetwork Y r mtu spec =
     bindA (liftA (NewNetwork (y_netlink Y) spec)) (\<lambda>network.
     bindA (modCl (\<lambda>c. c\<lparr>cl_networks := cl_networks c @ [network], cl_networkMap := (cl_networkMap c)(net_Name spec \<mapsto> network)\<rparr>)) (\<lambda>_.
     hostC (wrapA ''failed to create Network'' (network_Setup (y_netlink Y) (y_iptables Y) network mtu (r_Force r)))))"

definition prepareNode :: "'w host \<Rightarrow> Runtime \<Rightarrow> NodeSpec \<Rightarrow> ('w clEnv, unit) act" where
  "prepareNode Y r spec =
     bindA (getA (\<lambda>s. cl_spec (ce_cl s))) (\<lambda>cs.
     bindA (hostC (NewNode (y_http Y) (y_netlink Y) spec (cs_Images cs) (cs_DeviceClasses cs))) (\<lambda>node.
     bindA (modCl (\<lambda>c. c\<lparr>cl_nodes := cl_nodes c @ [node], cl_nodeMap := (cl_nodeMap c)(node_Name spec \<mapsto> length (cl_nodes c))\<rparr>)) (\<lambda>_.
     bindA (hostC (wrapA ''failed to prepare Node'' (node_Prepare (y_files Y) (y_http Y) (r_ImageCacheDir r) node))) (\<lambda>node'.
     modCl (\<lambda>c. c\<lparr>cl_nodes := (cl_nodes c)[length (cl_nodes c) - 1 := node']\<rparr>)))))"

text \<open>\<open>Setup\<close> up to the nodes' goroutines; the result is the MTU.\<close>

definition prologue :: "'w host \<Rightarrow> Runtime \<Rightarrow> ('w clEnv, int) act" where
  "prologue Y r =
     bindA (if r_Force r
            then hostC (bindA (CleanupNatRules (y_iptables Y)) (\<lambda>_. CleanupAllLinks (y_netlink Y)))
            else retA ()) (\<lambda>_.
     bindA (hostC (CreateNatRules (y_iptables Y))) (\<lambda>_.
     bindA (hostC (wrapA ''failed to detect MTU'' (y_DetectMTU Y))) (\<lambda>mtu.
     bindA (getA (\<lambda>s. cl_spec (ce_cl s))) (\<lambda>cs.
     bindA (forA (setupNetwork Y r mtu) (cs_Networks cs)) (\<lambda>_.
     bindA (forA (prepareNode Y r) (cs_Nodes cs)) (\<lambda>_.
     retA mtu))))))"

definition setupNode :: "'w host \<Rightarrow> Runtime \<Rightarrow> int \<Rightarrow> nat \<Rightarrow> 'w clEnv \<Rightarrow> (unit res \<times> 'w clEnv) option" where
  "setupNode Y r mtu i s =
     map_option (\<lambda>(x, n, e).
       let s1 = s\<lparr>ce_env := e, ce_cl := (ce_cl s)\<lparr>cl_nodes := (cl_nodes (ce_cl s))[i := n]\<rparr>\<rparr>
       in case x of
            Ret (v, serial) \<Rightarrow> (Ret (), s1\<lparr>ce_cl := (ce_cl s1)\<lparr>cl_vms := AList.update serial v (cl_vms (ce_cl s1))\<rparr>\<rparr>)
          | Fail err \<Rightarrow> (Fail err, s1)
          | Panic p \<Rightarrow> (Panic p, s1\<lparr>ce_dead := True\<rparr>))
       (node_Setup (y_files Y) (y_commands Y) (y_netlink Y) (y_procs Y) (y_vhostNetSupported Y) (cl_nodes (ce_cl s) ! i) r mtu (ce_env s))"

fun setupNodes :: "'w host \<Rightarrow> Runtime \<Rightarrow> int \<Rightarrow> nat list \<Rightarrow> 'w clEnv \<Rightarrow> (unit res \<times> 'w clEnv) option" where
  "setupNodes Y r mtu [] s = Some (Ret (), s)"
| "setupNodes Y r mtu (i # is) s =
     (case setupNode Y r mtu i s of
        None \<Rightarrow> None
      | Some (Panic p, s1) \<Rightarrow> Some (Panic p, s1)
      | Some (Ret _, s1) \<Rightarrow> setupNodes Y r mtu is s1
      | Some (Fail e, s1) \<Rightarrow>
          (case setupNodes Y r mtu is s1 of
             None \<Rightarrow> None | Some (Panic p, s2) \<Rightarrow> Some (Panic p, s2) | Some (_, s2) \<Rightarrow> Some (Fail e, s2)))"

subsection \<open>Services\<close>

definition startNetNS :: "'w host \<Rightarrow> NetNSSpec \<Rightarrow> ('w clEnv, unit) act" where
  "startNetNS Y spec =
     bindA (hostC (NewNetNS (y_files Y) (y_netlink Y) spec)) (\<lambda>n. modCl (\<lambda>c. c\<lparr>cl_netNss := cl_netNss c @ [n]\<rparr>))"

text \<open>What \<open>c.vms[serial]\<close> gives: nil also for an absent key.\<close>

definition vmOf :: "cluster \<Rightarrow> string \<rightharpoonup> vm" where
  "vmOf c serial = (case map_of (cl_vms c) serial of None \<Rightarrow> None | Some v \<Rightarrow> v)"

definition netNSTask :: "'w host \<Rightarrow> schedule \<Rightarrow> Runtime \<Rightarrow> int \<Rightarrow> netNS \<Rightarrow> ('w clEnv, unit) act" where
  "netNSTask Y sc r mtu n s =
     (case netNS_Setup (y_netns Y) (y_netlink Y) (y_commands Y) (y_nsRunDir Y) (sc_apps sc) n mtu (r_Force r)
        \<lparr>ve_env = ce_env s, ve_hostVethNames = []\<rparr> of (x, v) \<Rightarrow> (x, s\<lparr>ce_env := ve_env v\<rparr>))"

definition waitTask :: "'w host \<Rightarrow> vm option \<Rightarrow> ('w clEnv, unit) act" where
  "waitTask Y v = (case v of None \<Rightarrow> panicA nilDeref | Some v \<Rightarrow> hostC (vm_Wait (y_procs Y) v))"

definition bmcTask :: "'w host \<Rightarrow> schedule \<Rightarrow> ('w clEnv, unit) act" where
  "bmcTask Y sc =
     bindA (getA ce_cl) (\<lambda>c.
     bindA (hostC (bmcServer_Start (y_netlink Y) (y_sockets Y) (NewBMCServer (vmOf c) (cl_networks c)) (sc_infos sc))) (\<lambda>_. retA ()))"

definition goroutine :: "('w clEnv, unit) act \<Rightarrow> ('w clEnv, unit) act" where
  "goroutine m s = (case m s of (Panic p, s1) \<Rightarrow> (Panic p, s1\<lparr>ce_dead := True\<rparr>) | x \<Rightarrow> x)"

text \<open>\<open>apiServer.start\<close> asks the listener for its address, which panics when it is nil.\<close>

definition apiServer_start :: "'w host \<Rightarrow> nat option \<Rightarrow> ('w clEnv, unit) act" where
  "apiServer_start Y listener = (case listener of None \<Rightarrow> panicA nilDeref | Some l \<Rightarrow> hostC (y_Serve Y l))"

definition serve :: "'w host \<Rightarrow> schedule \<Rightarrow> Runtime \<Rightarrow> int \<Rightarrow> ('w clEnv, unit) act" where
  "serve Y sc r mtu =
     bindA (getA ce_cl) (\<lambda>c0.
     bindA (forA (startNetNS Y) (cs_NetNSs (cl_spec c0))) (\<lambda>_.
     bindA (getA ce_cl) (\<lambda>c.
     bindA (hostC (orNil (k_ResolveTCPAddr (y_sockets Y) (r_ListenAddr r)))) (\<lambda>addr.
     bindA (hostC (orNil (k_ListenTCP (y_sockets Y) addr))) (\<lambda>listener.
     bindA (tryA (goAll (map goroutine (bmcTask Y sc # map (netNSTask Y sc r mtu) (cl_netNss c) @ map (\<lambda>(k, v). waitTask Y v) (cl_vms c))))) (\<lambda>waited.
     bindA (apiServer_start Y listener) (\<lambda>_.
     case waited of Inl e \<Rightarrow> failA e | Inr _ \<Rightarrow> retA ())))))))"

subsection \<open>Cleanup and Setup\<close>

definition cleanupVMs :: "'w host \<Rightarrow> ('w clEnv, unit) act" where
  "cleanupVMs Y =
     bindA (getA (\<lambda>s. cl_vms (ce_cl s))) (forA (\<lambda>(k, v).
       case v of None \<Rightarrow> panicA nilDeref | Some v \<Rightarrow> hostC (vm_Cleanup (y_files Y) (y_procs Y) v)))"

definition cluster_cleanup :: "'w host \<Rightarrow> ('w clEnv, unit) act" where
  "cluster_cleanup Y =
     bindA (hostC (CleanupNatRules (y_iptables Y))) (\<lambda>_.
     bindA (getA ce_cl) (\<lambda>c.
     bindA (hostC (forA (network_Cleanup (y_netlink Y)) (cl_networks c))) (\<lambda>_.
     bindA (hostC (forA (node_Cleanup (y_netlink Y)) (cl_nodes c))) (\<lambda>_.
     bindA (hostC (forA (netNS_Cleanup (y_netns Y)) (cl_netNss c))) (\<lambda>_.
     cleanupVMs Y)))))"

text \<open>\<open>defer c\<close> around a body that may not return or may kill the process.\<close>

definition deferP :: "('w clEnv \<Rightarrow> (unit res \<times> 'w clEnv) option) \<Rightarrow> ('w clEnv, unit) act \<Rightarrow> 'w clEnv \<Rightarrow> (unit res \<times> 'w clEnv) option" where
  "deferP m c s =
     (case m s of
        None \<Rightarrow> None
      | Some (r, s1) \<Rightarrow>
          if ce_dead s1 then Some (r, s1)
          else Some (case c s1 of (Panic p, s2) \<Rightarrow> (Panic p, s2) | (_, s2) \<Rightarrow> (r, s2)))"

definition setupBody :: "'w host \<Rightarrow> schedule \<Rightarrow> Runtime \<Rightarrow> 'w clEnv \<Rightarrow> (unit res \<times> 'w clEnv) option" where
  "setupBody Y sc r s =
     (case prologue Y r s of
        (Ret mtu, s1) \<Rightarrow>
          (case setupNodes Y r mtu (sc_nodes sc) s1 of
             None \<Rightarrow> None
           | Some (x, s2) \<Rightarrow>
               if ce_dead s2 then Some (x, s2)
               else deferP (\<lambda>t. Some (case x of Ret _ \<Rightarrow> serve Y sc r mtu t | _ \<Rightarrow> (x, t))) (cleanupVMs Y) s2)
      | (Fail e, s1) \<Rightarrow> Some (Fail e, s1)
      | (Panic p, s1) \<Rightarrow> Some (Panic p, s1))"

definition cluster_Setup :: "'w host \<Rightarrow> schedule \<Rightarrow> Runtime \<Rightarrow> 'w clEnv \<Rightarrow> (unit res \<times> 'w clEnv) option" where
  "cluster_Setup Y sc r = deferP (setupBody Y sc r) (cluster_cleanup Y)"

end
