(* ===== verification/Api.thy ===== *)
theory Api
  imports Cluster Redfish
begin

text \<open>
  The API server of a running cluster, \<open>v2/pkg/placemat/server.go\<close>: the status of the
  nodes and the actions on them. The server holds pointers to the cluster and the runtime;
  both stay as they are while it runs and are arguments here. Every virtual machine has its own QMP
  socket, so the peers are a family indexed by socket path over one state. The bodies of
  the answers are the Go values before they are marshalled; the web framework is not part
  of the program, the router is given by its patterns.
\<close>

subsection \<open>Status of a node\<close>

record SMBIOSStatus =
  ss_Manufacturer :: string
  ss_Product :: string
  ss_Serial :: string

record NodeStatus =
  ns_Name :: string
  ns_Taps :: "string \<rightharpoonup> string"
  ns_Volumes :: "string list"
  ns_CPU :: int
  ns_Memory :: string
  ns_UEFI :: bool
  ns_TPM :: bool
  ns_SMBIOS :: SMBIOSStatus
  ns_PowerStatus :: PowerStatus
  ns_SocketPath :: string

record apiServer =
  as_cluster :: cluster
  as_runtime :: Runtime

definition newAPIServer :: "cluster \<Rightarrow> Runtime \<Rightarrow> apiServer" where
  "newAPIServer c r = \<lparr>as_cluster = c, as_runtime = r\<rparr>"

text \<open>An error of \<open>PowerStatus\<close> is logged; the value that comes with it is \<open>PowerStatusUnknown\<close>.\<close>

definition powerStatusOf :: "'q qmp \<Rightarrow> ('q, PowerStatus) act" where
  "powerStatusOf Q = bindA (tryA (vm_PowerStatus Q)) (\<lambda>x. retA (case x of Inl e \<Rightarrow> PowerStatusUnknown | Inr p \<Rightarrow> p))"

definition newNodeStatus :: "(string \<Rightarrow> 'q qmp) \<Rightarrow> NodeSpec \<Rightarrow> node option \<Rightarrow> vm option \<Rightarrow> Runtime \<Rightarrow> ('q, NodeStatus) act" where
  "newNodeStatus Q spec node vm runtime =
     (case vm of
        None \<Rightarrow> panicA nilDeref
      | Some v \<Rightarrow>
          bindA (powerStatusOf (Q (vm_qmp v))) (\<lambda>powerStatus.
          case node of
            None \<Rightarrow> panicA nilDeref
          | Some n \<Rightarrow>
              retA \<lparr>ns_Name = node_Name spec, ns_Taps = node_Taps n, ns_Volumes = map v_Name (node_Volumes spec),
                ns_CPU = node_CPU spec, ns_Memory = node_Memory spec, ns_UEFI = node_UEFI spec, ns_TPM = node_TPM spec,
                ns_SMBIOS = \<lparr>ss_Manufacturer = sb_Manufacturer (node_SMBIOS spec), ss_Product = sb_Product (node_SMBIOS spec),
                  ss_Serial = sb_Serial (node_SMBIOS spec)\<rparr>,
                ns_PowerStatus = powerStatus, ns_SocketPath = (if r_Graphic runtime then '''' else vm_socket v)\<rparr>))"

subsection \<open>Handlers\<close>

datatype apiBody = NullBody | NodeBody NodeStatus | NodesBody "NodeStatus list"

record apiResponse =
  ar_status :: nat
  ar_body :: apiBody

text \<open>What \<open>nodeMap[name]\<close> and \<open>vms[spec.SMBIOS.Serial]\<close> give.\<close>

definition nodeOf :: "cluster \<Rightarrow> string \<rightharpoonup> node" where
  "nodeOf c name = map_option (\<lambda>i. cl_nodes c ! i) (cl_nodeMap c name)"

definition vmOfSpec :: "cluster \<Rightarrow> NodeSpec \<rightharpoonup> vm" where
  "vmOfSpec c spec = vmOf c (sb_Serial (node_SMBIOS spec))"

definition handleNode :: "(string \<Rightarrow> 'q qmp) \<Rightarrow> apiServer \<Rightarrow> string \<Rightarrow> ('q, apiResponse) act" where
  "handleNode Q s name =
     (case cl_nodeSpecMap (as_cluster s) name of
        None \<Rightarrow> retA \<lparr>ar_status = StatusNotFound, ar_body = NullBody\<rparr>
      | Some spec \<Rightarrow>
          bindA (newNodeStatus Q spec (nodeOf (as_cluster s) name) (vmOfSpec (as_cluster s) spec) (as_runtime s)) (\<lambda>st.
          retA \<lparr>ar_status = StatusOK, ar_body = NodeBody st\<rparr>))"

definition handleNodes :: "(string \<Rightarrow> 'q qmp) \<Rightarrow> apiServer \<Rightarrow> ('q, apiResponse) act" where
  "handleNodes Q s =
     bindA (mapA (\<lambda>spec. newNodeStatus Q spec (nodeOf (as_cluster s) (node_Name spec)) (vmOfSpec (as_cluster s) spec) (as_runtime s))
       (cs_Nodes (cl_spec (as_cluster s)))) (\<lambda>statuses.
     retA \<lparr>ar_status = StatusOK, ar_body = NodesBody statuses\<rparr>)"

text \<open>\<open>if err := v.PowerOn(); err != nil { log; c.JSON(500, nil); return }\<close>, with \<open>v\<close> nil when the serial has no machine.\<close>

definition orServerError :: "('q, unit) act \<Rightarrow> ('q, apiResponse) act \<Rightarrow> ('q, apiResponse) act" where
  "orServerError f k =
     bindA (tryA f) (\<lambda>x. case x of Inl e \<Rightarrow> retA \<lparr>ar_status = StatusInternalServerError, ar_body = NullBody\<rparr> | Inr _ \<Rightarrow> k)"

definition callVM :: "(string \<Rightarrow> 'q qmp) \<Rightarrow> vm option \<Rightarrow> ('q qmp \<Rightarrow> ('q, unit) act) \<Rightarrow> ('q, unit) act" where
  "callVM Q vm f = (case vm of None \<Rightarrow> panicA nilDeref | Some v \<Rightarrow> f (Q (vm_qmp v)))"

definition handleNodeAction :: "(string \<Rightarrow> 'q qmp) \<Rightarrow> apiServer \<Rightarrow> string \<Rightarrow> string \<Rightarrow> ('q, apiResponse) act" where
  "handleNodeAction Q s name action =
     (case cl_nodeSpecMap (as_cluster s) name of
        None \<Rightarrow> retA \<lparr>ar_status = StatusNotFound, ar_body = NullBody\<rparr>
      | Some spec \<Rightarrow>
          (let v = vmOfSpec (as_cluster s) spec; ok = retA \<lparr>ar_status = StatusOK, ar_body = NullBody\<rparr>
           in if action = ''start'' then orServerError (callVM Q v vm_PowerOn) ok
              else if action = ''stop'' then orServerError (callVM Q v vm_PowerOff) ok
              else if action = ''restart'' then
                orServerError (callVM Q v vm_PowerOff) (orServerError (callVM Q v vm_PowerOn) ok)
              else retA \<lparr>ar_status = StatusBadRequest, ar_body = NullBody\<rparr>))"

datatype apiRoute = GetNodes | GetNode string | PostNodeAction string string

definition apiServer_prepareRouter :: "(string \<Rightarrow> 'q qmp) \<Rightarrow> apiServer \<Rightarrow> apiRoute \<Rightarrow> ('q, apiResponse) act" where
  "apiServer_prepareRouter Q s r =
     (case r of
        GetNodes \<Rightarrow> handleNodes Q s
      | GetNode name \<Rightarrow> handleNode Q s name
      | PostNodeAction name action \<Rightarrow> handleNodeAction Q s name action)"

subsection \<open>Specification\<close>

text \<open>
  The status code and the power state of the machine after an action. Starting a running
  machine resets the guest, waits in vain for it to resume and fails.
\<close>

definition action_spec :: "string \<Rightarrow> bool \<Rightarrow> nat \<times> bool" where
  "action_spec action r =
     (if action = ''start'' then (if r then 500 else 200, True)
      else if action = ''stop'' then (if r then 200 else 500, False)
      else if action = ''restart'' then (if r then (200, True) else (500, False))
      else (400, r))"

text \<open>The status of a node in full.\<close>

definition statusOf :: "Runtime \<Rightarrow> NodeSpec \<Rightarrow> node \<Rightarrow> vm \<Rightarrow> bool \<Rightarrow> NodeStatus" where
  "statusOf rt spec n v r =
     \<lparr>ns_Name = node_Name spec, ns_Taps = node_Taps n, ns_Volumes = map v_Name (node_Volumes spec), ns_CPU = node_CPU spec,
      ns_Memory = node_Memory spec, ns_UEFI = node_UEFI spec, ns_TPM = node_TPM spec,
      ns_SMBIOS = \<lparr>ss_Manufacturer = sb_Manufacturer (node_SMBIOS spec), ss_Product = sb_Product (node_SMBIOS spec),
        ss_Serial = sb_Serial (node_SMBIOS spec)\<rparr>,
      ns_PowerStatus = (if r then PowerStatusOn else PowerStatusOff), ns_SocketPath = (if r_Graphic rt then '''' else vm_socket v)\<rparr>"

subsection \<open>A family of machines\<close>

text \<open>Every socket leads to a QEMU of its own: what is done over one leaves the others alone.\<close>

locale qmp_peers =
  fixes Q :: "string \<Rightarrow> 'q qmp" and ph :: "string \<Rightarrow> 'q \<Rightarrow> phase"
  assumes peer: "quiet_peer (Q p) (ph p)"
    and frame: "p \<noteq> p' \<Longrightarrow> keeps (\<lambda>w. ph p' w = x) (q_dial (Q p))" "p \<noteq> p' \<Longrightarrow> keeps (\<lambda>w. ph p' w = x) (q_setDeadline (Q p))"
      "p \<noteq> p' \<Longrightarrow> keeps (\<lambda>w. ph p' w = x) (q_readLine (Q p))" "p \<noteq> p' \<Longrightarrow> keeps (\<lambda>w. ph p' w = x) (q_write (Q p) c)"
      "p \<noteq> p' \<Longrightarrow> ph p' (q_close (Q p) w) = ph p' w"
begin

lemma frame_deferClose [keep_intros]:
  "p \<noteq> p' \<Longrightarrow> keeps (\<lambda>w. ph p' w = x) m \<Longrightarrow> keeps (\<lambda>w. ph p' w = x) (deferClose (Q p) m)"
  by (auto simp: keeps_def deferClose_def frame(5) split: prod.splits)

lemma frame_calls:
  assumes "p \<noteq> p'"
  shows "keeps (\<lambda>w. ph p' w = x) (vm_PowerStatus (Q p))" "keeps (\<lambda>w. ph p' w = x) (vm_PowerOn (Q p))"
    "keeps (\<lambda>w. ph p' w = x) (vm_PowerOff (Q p))"
  unfolding vm_PowerStatus_def vm_PowerOn_def vm_PowerOff_def qmp_read_def writeCommand_def
  by (intro keep_intros frame assms)+

text \<open>What a call does to its own machine, given by the contract of one peer, it does to the family.\<close>

definition only :: "string \<Rightarrow> bool \<Rightarrow> 'q \<Rightarrow> 'q \<Rightarrow> bool" where
  "only p r m m' \<longleftrightarrow> ph p m' = Idle r \<and> (\<forall>p'. p' \<noteq> p \<longrightarrow> ph p' m' = ph p' m)"

lemma only_trans: "only p r m m1 \<Longrightarrow> only p r' m1 m2 \<Longrightarrow> only p r' m m2"
  by (simp add: only_def)

lemma onlyI:
  assumes "f m = (x, m')" "ph p m' = Idle r" "\<And>p' y. p \<noteq> p' \<Longrightarrow> keeps (\<lambda>w. ph p' w = y) f"
  shows "only p r m m'"
proof -
  have "ph p' m' = ph p' m" if "p' \<noteq> p" for p'
    by (rule keepsD [OF assms(3) [OF that [symmetric], of "ph p' m"] refl assms(1)])
  then show ?thesis using assms(2) by (simp add: only_def)
qed

lemma calls:
  assumes "ph p m = Idle r"
  shows "\<exists>m'. vm_PowerStatus (Q p) m = (Ret (if r then PowerStatusOn else PowerStatusOff), m') \<and> only p r m m'"
    and "\<exists>m' x. vm_PowerOn (Q p) m = (x, m') \<and> (if r then \<exists>e. x = Fail e else x = Ret ()) \<and> only p True m m'"
    and "\<exists>m' x. vm_PowerOff (Q p) m = (x, m') \<and> (if r then x = Ret () else \<exists>e. x = Fail e) \<and> only p False m m'"
proof -
  note one = quiet_peer.axioms(1) [OF peer [of p]]
  show "\<exists>m'. vm_PowerStatus (Q p) m = (Ret (if r then PowerStatusOn else PowerStatusOff), m') \<and> only p r m m'"
    using qmp_peer.PowerStatus_leads [OF one assms] unfolding qmp_peer.leads_def [OF one]
    by (metis onlyI [OF _ _ frame_calls(1)])
  show "\<exists>m' x. vm_PowerOn (Q p) m = (x, m') \<and> (if r then \<exists>e. x = Fail e else x = Ret ()) \<and> only p True m m'"
    using qmp_peer.PowerOn_leads [OF one, of m] quiet_peer.PowerOn_again [OF peer [of p], of m] assms
    unfolding qmp_peer.leads_def [OF one] by (cases r) (metis (full_types) onlyI [OF _ _ frame_calls(2)])+
  show "\<exists>m' x. vm_PowerOff (Q p) m = (x, m') \<and> (if r then x = Ret () else \<exists>e. x = Fail e) \<and> only p False m m'"
    using qmp_peer.PowerOff_leads [OF one, of m] quiet_peer.PowerOff_again [OF peer [of p], of m] assms
    unfolding qmp_peer.leads_def [OF one] by (cases r) (metis (full_types) onlyI [OF _ _ frame_calls(3)])+
qed

lemma newNodeStatus_is:
  assumes "ph (vm_qmp v) m = Idle r"
  shows "\<exists>m'. newNodeStatus Q spec (Some n) (Some v) rt m = (Ret (statusOf rt spec n v r), m') \<and> (\<forall>p. ph p m' = ph p m)"
proof -
  obtain m' where m': "vm_PowerStatus (Q (vm_qmp v)) m = (Ret (if r then PowerStatusOn else PowerStatusOff), m')"
    "only (vm_qmp v) r m m'" using calls(1) [OF assms] by blast
  have "ph p m' = ph p m" for p using m'(2) assms by (cases "p = vm_qmp v") (auto simp: only_def)
  moreover have "powerStatusOf (Q (vm_qmp v)) m = (Ret (if r then PowerStatusOn else PowerStatusOff), m')"
    using m'(1) by (simp add: powerStatusOf_def bindA_def tryA_def retA_def)
  ultimately show ?thesis by (simp add: newNodeStatus_def bindA_Ret retA_def statusOf_def)
qed

lemma action:
  assumes "cl_nodeSpecMap (as_cluster s) name = Some spec" "vmOfSpec (as_cluster s) spec = Some v" "ph (vm_qmp v) m = Idle r"
  shows "\<exists>m'. handleNodeAction Q s name action m = (Ret \<lparr>ar_status = fst (action_spec action r), ar_body = NullBody\<rparr>, m') \<and>
    only (vm_qmp v) (snd (action_spec action r)) m m'"
proof -
  let ?p = "vm_qmp v"
  obtain m1 x where off: "vm_PowerOff (Q ?p) m = (x, m1)" "if r then x = Ret () else \<exists>e. x = Fail e" "only ?p False m m1"
    using calls(3) [OF assms(3)] by blast
  obtain m2 y where on: "vm_PowerOn (Q ?p) m = (y, m2)" "if r then \<exists>e. y = Fail e else y = Ret ()" "only ?p True m m2"
    using calls(2) [OF assms(3)] by blast
  have "ph ?p m1 = Idle False" using off(3) by (simp add: only_def)
  then obtain m3 where cyc: "vm_PowerOn (Q ?p) m1 = (Ret (), m3)" "only ?p True m1 m3"
    using calls(2) [of ?p m1 False] by auto
  have "only ?p r m m" using assms(3) by (simp add: only_def)
  then show ?thesis
    using off on cyc only_trans [OF off(3) cyc(2)]
    by (cases r) (auto simp: handleNodeAction_def assms(1,2) callVM_def orServerError_def action_spec_def bindA_def tryA_def retA_def
        status_codes)
qed

lemma statuses_are:
  assumes "list_all2 (\<lambda>spec (n, v, r). f spec = Some n \<and> g spec = Some v \<and> ph (vm_qmp v) m = Idle r) specs xs"
  shows "\<exists>m'. mapA (\<lambda>spec. newNodeStatus Q spec (f spec) (g spec) rt) specs m =
      (Ret (map2 (\<lambda>spec (n, v, r). statusOf rt spec n v r) specs xs), m') \<and> (\<forall>p. ph p m' = ph p m)"
  using assms
proof (induction specs arbitrary: m xs)
  case (Cons spec specs)
  then obtain n v r ys where x: "xs = (n, v, r) # ys" "f spec = Some n" "g spec = Some v" "ph (vm_qmp v) m = Idle r"
    "list_all2 (\<lambda>spec (n, v, r). f spec = Some n \<and> g spec = Some v \<and> ph (vm_qmp v) m = Idle r) specs ys"
    by (auto simp: list_all2_Cons1)
  obtain m1 where 1: "newNodeStatus Q spec (Some n) (Some v) rt m = (Ret (statusOf rt spec n v r), m1)" "\<forall>p. ph p m1 = ph p m"
    using newNodeStatus_is [OF x(4)] by blast
  have "list_all2 (\<lambda>spec (n, v, r). f spec = Some n \<and> g spec = Some v \<and> ph (vm_qmp v) m1 = Idle r) specs ys" using x(5) 1(2) by simp
  from Cons.IH [OF this] show ?case using 1 x by (auto simp: bindA_def retA_def)
qed (simp add: retA_def)

text \<open>The list of nodes over the API, in full.\<close>

lemma nodes_listed:
  assumes "list_all2 (\<lambda>spec (n, v, r). nodeOf c (node_Name spec) = Some n \<and> vmOf c (sb_Serial (node_SMBIOS spec)) = Some v \<and>
      ph (vm_qmp v) m = Idle r) (cs_Nodes (cl_spec c)) xs"
  shows "\<exists>m'. apiServer_prepareRouter Q (newAPIServer c rt) GetNodes m = (Ret \<lparr>ar_status = 200,
      ar_body = NodesBody (map2 (\<lambda>spec (n, v, r). statusOf rt spec n v r) (cs_Nodes (cl_spec c)) xs)\<rparr>, m') \<and> (\<forall>p. ph p m' = ph p m)"
  using statuses_are [OF assms, of rt]
  by (auto simp: apiServer_prepareRouter_def handleNodes_def newAPIServer_def vmOfSpec_def bindA_def retA_def status_codes)

end

subsection \<open>An executable family\<close>

definition at :: "string \<Rightarrow> (refqemu, 'a) act \<Rightarrow> (string \<Rightarrow> refqemu, 'a) act" where
  "at p f w = (case f (w p) of (r, q) \<Rightarrow> (r, w(p := q)))"

definition refPeers :: "string \<Rightarrow> (string \<Rightarrow> refqemu) qmp" where
  "refPeers p =
     \<lparr>q_dial = at p (q_dial refQmp), q_setDeadline = at p (q_setDeadline refQmp), q_readLine = at p (q_readLine refQmp),
      q_write = (\<lambda>c. at p (q_write refQmp c)), q_close = (\<lambda>w. w(p := q_close refQmp (w p)))\<rparr>"

lemma at_frame: "p \<noteq> p' \<Longrightarrow> keeps (\<lambda>w. ref_phase (w p') = x) (at p f)"
  by (auto simp: keeps_def at_def split: prod.splits)

lemma refPeers_peer: "quiet_peer (refPeers p) (\<lambda>w. ref_phase (w p))"
  by unfold_locales
    (auto simp: refPeers_def at_def refQmp_def ref_phase_iff retA_def ref_read_def ref_write_def ref_answer_simps unmarshal_status_line)

interpretation rpeers: qmp_peers refPeers "\<lambda>p w. ref_phase (w p)"
  by (intro qmp_peers.intro refPeers_peer) (simp_all add: refPeers_def at_frame)

subsection \<open>Properties\<close>

text \<open>
  An action on a node over machines that keep the QMP protocol is answered with the
  specified status and takes the machine of that node, and no other, to the specified power
  state, whichever state it was in; an action that does not exist is a bad request, and a
  name that the cluster does not know is not found: both leave every machine alone.
\<close>

lemma api_node_actions:
  assumes "qmp_peers Q ph"
  shows "(\<forall>spec v r. cl_nodeSpecMap c name = Some spec \<longrightarrow> vmOf c (sb_Serial (node_SMBIOS spec)) = Some v \<longrightarrow> ph (vm_qmp v) m = Idle r \<longrightarrow>
      (\<exists>m'. apiServer_prepareRouter Q (newAPIServer c rt) (PostNodeAction name action) m =
          (Ret \<lparr>ar_status = fst (action_spec action r), ar_body = NullBody\<rparr>, m') \<and>
        ph (vm_qmp v) m' = Idle (snd (action_spec action r)) \<and> (\<forall>p. p \<noteq> vm_qmp v \<longrightarrow> ph p m' = ph p m))) \<and>
    (cl_nodeSpecMap c name = None \<longrightarrow>
      apiServer_prepareRouter Q (newAPIServer c rt) (PostNodeAction name action) m = (Ret \<lparr>ar_status = 404, ar_body = NullBody\<rparr>, m))"
proof (intro conjI allI impI)
  fix spec v r assume "cl_nodeSpecMap c name = Some spec" "vmOf c (sb_Serial (node_SMBIOS spec)) = Some v" "ph (vm_qmp v) m = Idle r"
  then show "\<exists>m'. apiServer_prepareRouter Q (newAPIServer c rt) (PostNodeAction name action) m =
          (Ret \<lparr>ar_status = fst (action_spec action r), ar_body = NullBody\<rparr>, m') \<and>
        ph (vm_qmp v) m' = Idle (snd (action_spec action r)) \<and> (\<forall>p. p \<noteq> vm_qmp v \<longrightarrow> ph p m' = ph p m)"
    using qmp_peers.action [OF assms, of "newAPIServer c rt" name spec v m r action]
    by (simp add: apiServer_prepareRouter_def newAPIServer_def vmOfSpec_def qmp_peers.only_def [OF assms])
qed (simp add: apiServer_prepareRouter_def newAPIServer_def handleNodeAction_def retA_def status_codes)

definition bootSpec :: NodeSpec where
  "bootSpec = \<lparr>node_Name = ''boot'', node_Interfaces = [], node_Volumes = [], node_IgnitionFile = '''', node_CPU = 0, node_SMP = None,
     node_Memory = ''2G'', node_NUMA_Nodes = 0, node_NetworkDeviceQueue = 0, node_UEFI = False, node_TPM = False,
     node_SMBIOS = \<lparr>sb_Manufacturer = '''', sb_Product = '''', sb_Serial = ''s1''\<rparr>\<rparr>"

definition bootVM :: vm where
  "bootVM = \<lparr>vm_cmd = 1, vm_qmp = ''/run/boot.qmp'', vm_connGuest = 2, vm_guest = ''/run/boot.guest'', vm_socket = ''/run/boot.socket'',
     vm_swtpmDir = ''/run/boot''\<rparr>"

definition bootNode :: node where
  "bootNode = \<lparr>nd_name = ''boot'', nd_taps = [], nd_volumes = [], nd_ignitionFile = '''',
     nd_smp = \<lparr>smp_CPUs = 1, smp_Cores = 0, smp_Threads = 0, smp_Dies = 0, smp_Sockets = 0, smp_MaxCPUs = 0\<rparr>, nd_memory = ''2G'', nd_numa = 0,
     nd_networkDeviceQueue = 0, nd_uefi = False, nd_tpm = False, nd_smbios = \<lparr>sm_manufacturer = '''', sm_product = '''', sm_serial = ''s1''\<rparr>\<rparr>"

definition bootCluster :: cluster where
  "bootCluster = (NewCluster \<lparr>cs_Networks = [], cs_NetNSs = [], cs_DeviceClasses = [], cs_Nodes = [bootSpec], cs_Images = []\<rparr>)
     \<lparr>cl_vms := [(''s1'', Some bootVM)], cl_nodes := [bootNode], cl_nodeMap := [''boot'' \<mapsto> 0]\<rparr>"

lemma example:
  "cl_nodeSpecMap bootCluster ''boot'' = Some bootSpec" "vmOf bootCluster ''s1'' = Some bootVM"
  "nodeOf bootCluster ''boot'' = Some bootNode" "cs_Nodes (cl_spec bootCluster) = [bootSpec]"
  "sb_Serial (node_SMBIOS bootSpec) = ''s1''" "node_Name bootSpec = ''boot''" "vm_qmp bootVM = ''/run/boot.qmp''"
  "vm_socket bootVM = ''/run/boot.socket''"
  by (simp_all add: bootCluster_def NewCluster_def bootSpec_def bootVM_def vmOf_def nodeOf_def)

abbreviation bootRuntime :: Runtime where
  "bootRuntime \<equiv> \<lparr>r_Force = False, r_Graphic = False, r_RunDir = ''/run'', r_DataDir = ''/data'', r_ListenAddr = '''', r_ImageCacheDir = ''''\<rparr>"

abbreviation allRunning :: "string \<Rightarrow> refqemu" where
  "allRunning \<equiv> \<lambda>p. \<lparr>rq_running = True, rq_conn = None\<rparr>"

end
