(* ===== verification/Apart.thy ===== *)
theory Apart
  imports Cluster
begin

text \<open>
  The host of a cluster as a locale: the contracts of links, packet filter and sockets, and
  that files, commands, processes and HTTP have nothing to do with links and packet filter.
  From these, what preparing and setting up a node does to the links: it adds the taps of
  the node, and nothing else.
\<close>

subsection \<open>Calls that leave the network alone\<close>

definition apart :: "('w \<Rightarrow> links) \<Rightarrow> ('w \<Rightarrow> proto \<Rightarrow> string \<Rightarrow> table) \<Rightarrow> ('w, 'a) act \<Rightarrow> bool" where
  "apart lk tbl m \<longleftrightarrow> (\<forall>l t. keeps (\<lambda>w. lk w = l \<and> tbl w = t) m)"

lemma apartD: "apart lk tbl m \<Longrightarrow> m w = (r, w') \<Longrightarrow> lk w' = lk w \<and> tbl w' = tbl w"
  unfolding apart_def using keepsD [of "\<lambda>v. lk v = lk w \<and> tbl v = tbl w" m w r w'] by blast

text \<open>
  Files, HTTP, commands, processes and sockets have nothing to do with links and packet
  filter. The host detects an MTU, and the HTTP library that serves the API returns when the
  context ends.
\<close>

locale datacenter = socket_host "y_iptables Y" tbl "y_netlink Y" lk "y_sockets Y" for Y :: "'w host" and tbl and lk +
  assumes files_apart: "apart lk tbl (f_Stat (y_files Y) p)" "apart lk tbl (f_MkdirAll (y_files Y) p)" "apart lk tbl (f_Mkdir (y_files Y) p)"
      "apart lk tbl (f_Abs (y_files Y) p)" "apart lk tbl (f_Open (y_files Y) p)" "apart lk tbl (f_Create (y_files Y) p)"
      "apart lk tbl (f_OpenWrite (y_files Y) p)" "apart lk tbl (f_CreateTemp (y_files Y) p q)" "apart lk tbl (f_Copy (y_files Y) h k)"
      "apart lk tbl (f_Gunzip (y_files Y) h)" "apart lk tbl (f_Bunzip2 (y_files Y) h)" "apart lk tbl (f_Sync (y_files Y) h)"
      "apart lk tbl (f_Close (y_files Y) h)" "apart lk tbl (f_Remove (y_files Y) p)" "apart lk tbl (f_RemoveAll (y_files Y) p)"
      "apart lk tbl (f_Rename (y_files Y) p q)"
    and commands_apart: "apart lk tbl (c_Run (y_commands Y) a)" "apart lk tbl (c_Output (y_commands Y) a)" "apart lk tbl (c_Start (y_commands Y) a)"
    and http_apart: "apart lk tbl (h_Do (y_http Y) p)"
    and procs_apart: "apart lk tbl (p_Dial (y_procs Y) p)" "apart lk tbl (p_CloseConn (y_procs Y) h)" "apart lk tbl (p_Wait (y_procs Y) h)"
      "lk (snd (p_Done (y_procs Y) w)) = lk w" "tbl (snd (p_Done (y_procs Y) w)) = tbl w"
    and mtu_apart: "apart lk tbl (y_DetectMTU Y)"
    and serve_apart: "apart lk tbl (y_Serve Y h)"
begin

abbreviation same_net :: "links \<Rightarrow> (proto \<Rightarrow> string \<Rightarrow> table) \<Rightarrow> 'w \<Rightarrow> bool" where
  "same_net l t \<equiv> \<lambda>w. lk w = l \<and> tbl w = t"

lemmas apart_calls = files_apart commands_apart http_apart procs_apart(1-3) mtu_apart serve_apart

lemma calls_keep [keep_intros]:
  "keeps (same_net l t) (f_Stat (y_files Y) p)" "keeps (same_net l t) (f_MkdirAll (y_files Y) p)" "keeps (same_net l t) (f_Mkdir (y_files Y) p)"
  "keeps (same_net l t) (f_Abs (y_files Y) p)" "keeps (same_net l t) (f_Open (y_files Y) p)" "keeps (same_net l t) (f_Create (y_files Y) p)"
  "keeps (same_net l t) (f_OpenWrite (y_files Y) p)" "keeps (same_net l t) (f_CreateTemp (y_files Y) p q)" "keeps (same_net l t) (f_Copy (y_files Y) h k)"
  "keeps (same_net l t) (f_Gunzip (y_files Y) h)" "keeps (same_net l t) (f_Bunzip2 (y_files Y) h)" "keeps (same_net l t) (f_Sync (y_files Y) h)"
  "keeps (same_net l t) (f_Close (y_files Y) h)" "keeps (same_net l t) (f_Remove (y_files Y) p)" "keeps (same_net l t) (f_RemoveAll (y_files Y) p)"
  "keeps (same_net l t) (f_Rename (y_files Y) p q)" "keeps (same_net l t) (c_Run (y_commands Y) a)" "keeps (same_net l t) (c_Output (y_commands Y) a)"
  "keeps (same_net l t) (c_Start (y_commands Y) a)" "keeps (same_net l t) (h_Do (y_http Y) p)" "keeps (same_net l t) (p_Dial (y_procs Y) p)"
  "keeps (same_net l t) (p_CloseConn (y_procs Y) h)" "keeps (same_net l t) (p_Wait (y_procs Y) h)"
  "keeps (same_net l t) (y_DetectMTU Y)" "keeps (same_net l t) (y_Serve Y h)"
  by (rule apart_calls [unfolded apart_def, rule_format])+

lemma keeps_sockets [keep_intros]:
  "keeps (same_net l t) (k_ResolveUDPAddr (y_sockets Y) x)" "keeps (same_net l t) (k_ListenUDP (y_sockets Y) y)"
  "keeps (same_net l t) (k_ResolveTCPAddr (y_sockets Y) x)" "keeps (same_net l t) (k_ListenTCP (y_sockets Y) y)"
  unfolding keeps_def using udp_law tcp_law by (metis prod.collapse)+

lemma decompress_keep [keep_intros]: "keeps (same_net l t) (Decompress (y_files Y) d h)"
  by (cases d) (simp_all add: calls_keep)

lemma closeOnError_keep [keep_intros]:
  assumes "keeps (same_net l t) m"
  shows "keeps (same_net l t) (closeOnError (y_files Y) h m)"
proof (rule keepsI)
  fix w assume w: "same_net l t w"
  obtain r w1 where m: "m w = (r, w1)" by force
  have 1: "same_net l t w1" by (rule keepsD [OF assms w m])
  have "keeps (same_net l t) (deferA (\<lambda>v. (r', v)) (f_Close (y_files Y) h))" for r' :: "'a res"
    by (intro keep_intros) (simp add: keeps_def)
  then have "same_net l t (snd (deferA (\<lambda>v. (r', v)) (f_Close (y_files Y) h) w1))" for r' :: "'a res"
    using 1 unfolding keeps_def by blast
  then show "same_net l t (snd (closeOnError (y_files Y) h m w))"
    using 1 by (cases r) (auto simp: closeOnError_def m)
qed

text \<open>Downloads and volumes.\<close>

lemma volumes_keep:
  "keeps (same_net l t) (volume_prepare (y_files Y) (y_http Y) dir v)"
  "keeps (same_net l t) (volume_create (y_files Y) (y_commands Y) dir part v)"
proof -
  have d: "keeps (same_net l t) (DownloadData (y_files Y) (y_http Y) u dec dir)" for u dec
    unfolding DownloadData_def storeResponse_def cache_Put_def putBody_def cache_Contains_def decompressed_def
    by (intro keep_intros)
  show "keeps (same_net l t) (volume_prepare (y_files Y) (y_http Y) dir v)"
    by (cases v) (auto simp: image_prepare_def intro!: keep_intros d)
  have c: "keeps (same_net l t) (fillImageVolume (y_files Y) (y_commands Y) iv p)" for iv p
    unfolding fillImageVolume_def createCoWImageFromBase_def copyFile_def WriteToFile_def decompressed_def by (intro keep_intros)
  show "keeps (same_net l t) (volume_create (y_files Y) (y_commands Y) dir part v)"
    by (cases v) (auto simp: imageVolume_create_def localDSVolume_create_def rawVolume_create_def hostPathVolume_create_def makeVolumeDir_def
        unlessExists_def Let_def intro!: keep_intros c)
qed

text \<open>Waiting, processes and garbage.\<close>

lemma appeared_keep: "keeps (same_net l t) (all_appeared (y_files Y) ps)"
  by (induction ps) (auto simp: appeared_def intro!: keep_intros)

lemma waitFor_net: "waitFor (y_files Y) (y_procs Y) ps w = Some (x, w') \<Longrightarrow> lk w' = lk w \<and> tbl w' = tbl w"
proof -
  let ?Q = "\<lambda>(((F, P), ps :: string list), w) (y :: bool res \<times> 'w). F = y_files Y \<longrightarrow> P = y_procs Y \<longrightarrow> lk (snd y) = lk w \<and> tbl (snd y) = tbl w"
  have "?Q (((F, P), ps), w) y" if "waitFor F P ps w = Some y" for F P ps w y
  proof (rule waitFor.raw_induct [of ?Q, OF _ that], unfold prod.case, intro impI)
    fix wait F P ps w y
    assume IH: "\<And>F P ps w y. wait F P ps w = Some y \<Longrightarrow> F = y_files Y \<longrightarrow> P = y_procs Y \<longrightarrow> lk (snd y) = lk w \<and> tbl (snd y) = tbl w"
      and body: "(case all_appeared F ps w of
        (Ret ok, w1) \<Rightarrow> if ok then Some (Ret True, w1)
          else (case p_Done P w1 of (stop, w2) \<Rightarrow> if stop then Some (Ret False, w2) else wait F P ps w2)
      | (Fail e, w1) \<Rightarrow> Some (Fail e, w1)
      | (Panic q, w1) \<Rightarrow> Some (Panic q, w1)) = Some y" and FP: "F = y_files Y" "P = y_procs Y"
    obtain r w1 where a: "all_appeared (y_files Y) ps w = (r, w1)" by force
    have n1: "lk w1 = lk w \<and> tbl w1 = tbl w"
      using keepsD [OF appeared_keep [of "lk w" "tbl w" ps] _ a] by simp
    obtain b w2 where d: "p_Done (y_procs Y) w1 = (b, w2)" by force
    have n2: "lk w2 = lk w \<and> tbl w2 = tbl w" using procs_apart(4,5) [of w1] n1 d by simp
    show "lk (snd y) = lk w \<and> tbl (snd y) = tbl w"
      using body n1 n2 IH [of F P ps w2 y] FP by (cases r) (auto simp: a d split: if_splits)
  qed
  then show "waitFor (y_files Y) (y_procs Y) ps w = Some (x, w') \<Longrightarrow> lk w' = lk w \<and> tbl w' = tbl w" by fastforce
qed

lemma startSWTPM_net:
  assumes "startSWTPM (y_files Y) (y_commands Y) (y_procs Y) n r w = Some (x, w')"
  shows "lk w' = lk w \<and> tbl w' = tbl w"
proof -
  let ?m = "bindA (f_Mkdir (y_files Y) (swtpmSocketDirPath r (nd_name n))) (\<lambda>_. c_Start (y_commands Y)
      [''swtpm'', ''socket'', ''--tpmstate'', ''dir='' @ swtpmSocketDirPath r (nd_name n), ''--tpm2'', ''--ctrl'',
       ''type=unixio,path='' @ swtpmSocketPath r (nd_name n)])"
  obtain y w1 where m: "?m w = (y, w1)" by force
  have "keeps (same_net (lk w) (tbl w)) ?m" by (intro keep_intros)
  from keepsD [OF this _ m] have 1: "lk w1 = lk w \<and> tbl w1 = tbl w" by simp
  show ?thesis
  proof (cases y)
    case (Ret u)
    then obtain z where "waitFor (y_files Y) (y_procs Y) [swtpmSocketPath r (nd_name n)] w1 = Some (z, w')"
      using assms m by (auto simp: startSWTPM_def)
    from waitFor_net [OF this] 1 show ?thesis by simp
  qed (use assms m 1 in \<open>auto simp: startSWTPM_def\<close>)
qed

lemma connectGuest_net:
  assumes "connectGuest (y_files Y) (y_procs Y) n r cmd w = Some (x, w')"
  shows "lk w' = lk w \<and> tbl w' = tbl w"
proof -
  obtain y w1 where wt: "waitFor (y_files Y) (y_procs Y) [qmpSocketPath r (nd_name n), guestSocketPath r (nd_name n)] w = Some (y, w1)"
    using assms by (cases "waitFor (y_files Y) (y_procs Y) [qmpSocketPath r (nd_name n), guestSocketPath r (nd_name n)] w")
      (auto simp: connectGuest_def Let_def)
  note 1 = waitFor_net [OF wt]
  have k: "keeps (same_net (lk w) (tbl w)) (bindA (p_Dial (y_procs Y) p) (\<lambda>c. retA (f c)))" for p f by (intro keep_intros)
  show ?thesis
  proof (cases "y = Ret True")
    case True
    with assms wt have "bindA (p_Dial (y_procs Y) (guestSocketPath r (nd_name n))) (\<lambda>c. retA (Some \<lparr>vm_cmd = cmd,
       vm_qmp = qmpSocketPath r (nd_name n), vm_connGuest = c, vm_guest = guestSocketPath r (nd_name n), vm_socket = socketPath r (nd_name n),
       vm_swtpmDir = swtpmSocketDirPath r (nd_name n)\<rparr>, sm_serial (nd_smbios n))) w1 = (x, w')" by (simp add: connectGuest_def Let_def)
    from keepsD [OF k _ this] 1 show ?thesis by simp
  next
    case False
    with assms wt 1 show ?thesis by (cases y) (auto simp: connectGuest_def Let_def)
  qed
qed

lemma garbage_keep: "keeps (same_net l t) (node_CleanupGarbage (y_files Y) n r)" "keeps (same_net l t) (vm_Cleanup (y_files Y) (y_procs Y) v)"
  unfolding node_CleanupGarbage_def vm_Cleanup_def removeIfExists_def removeDirIfExists_def by (intro keep_intros)+

text \<open>The taps that a node has gained, and nothing else.\<close>

definition gained :: "int \<Rightarrow> node \<Rightarrow> node \<Rightarrow> 'w \<Rightarrow> 'w \<Rightarrow> bool" where
  "gained mtu n n' w w' \<longleftrightarrow> tbl w' = tbl w \<and> lk w' = with_taps mtu (nd_networkDeviceQueue n) (made (nd_taps n')) (lk w) \<and>
     map tp_bridge (nd_taps n') = map tp_bridge (nd_taps n) \<and> fst ` set (made (nd_taps n')) \<inter> dom (lk w) = {}"

lemma gained_refl:
  assumes "\<forall>t \<in> set (nd_taps n). tp_tapName t = ''''" "lk w' = lk w" "tbl w' = tbl w"
  shows "gained mtu n n w w'"
proof -
  have "made (nd_taps n) = []" using assms(1) by (simp add: made_def)
  then show ?thesis using assms(2,3) by (simp add: gained_def)
qed

lemma onHost_net:
  assumes "keeps (same_net (lk (env_host s)) (tbl (env_host s))) m" "onHost m s = (r, s')"
  shows "lk (env_host s') = lk (env_host s) \<and> tbl (env_host s') = tbl (env_host s)"
proof -
  obtain x w where m: "m (env_host s) = (x, w)" by force
  have "same_net (lk (env_host s)) (tbl (env_host s)) w" by (rule keepsD [OF assms(1) _ m]) simp
  then show ?thesis using assms(2) m by (auto simp: onHost_def)
qed

lemma onRng_net: "onRng q s = (r, s') \<Longrightarrow> env_host s' = env_host s"
  by (auto simp: onRng_def split: prod.splits)

text \<open>Everything after the taps: the NVRAM and the QEMU process.\<close>

lemma launch_net:
  assumes "bindA (onHost (if uefi then createNVRAM (y_files Y) (y_commands Y) p else retA ())) (\<lambda>_.
    bindA (onRng q) (\<lambda>c. onHost (wrapA msg (c_Start (y_commands Y) c)))) s = (r, s')"
  shows "lk (env_host s') = lk (env_host s) \<and> tbl (env_host s') = tbl (env_host s)"
proof -
  have k1: "keeps (same_net l t) (if uefi then createNVRAM (y_files Y) (y_commands Y) p else retA ())" for l t
    unfolding createNVRAM_def by (intro keep_intros)
  have k2: "keeps (same_net l t) (wrapA msg (c_Start (y_commands Y) c))" for l t c by (intro keep_intros)
  from assms show ?thesis
  proof (cases rule: bindA_cases)
    case (ok u s1)
    note 1 = onHost_net [OF k1 ok(1)]
    from ok(2) show ?thesis
    proof (cases rule: bindA_cases)
      case (ok c s2)
      from onHost_net [OF k2 ok(2)] onRng_net [OF ok(1)] 1 show ?thesis by simp
    next
      case (stop r0)
      from onRng_net [OF stop(1)] 1 show ?thesis by simp
    qed
  next
    case (stop r0)
    from onHost_net [OF k1 stop(1)] show ?thesis .
  qed
qed

lemma startQemu_net:
  assumes "startQemu (y_files Y) (y_commands Y) (y_netlink Y) vhost n r mtu s = (x, n', s')"
    "\<forall>t \<in> set (nd_taps n). on_bridge (lk (env_host s)) t"
  shows "gained mtu n n' (env_host s) (env_host s')"
proof -
  have names: "\<forall>t \<in> set (nd_taps n). tp_tapName t = ''''" using assms(2) by (simp add: on_bridge_def)
  obtain v s1 where v: "onHost (createVolumes (y_files Y) (y_commands Y) n (r_DataDir r)) s = (v, s1)" by force
  have k: "keeps (same_net l t) (createVolumes (y_files Y) (y_commands Y) n (r_DataDir r))" for l t
    unfolding createVolumes_def by (intro keep_intros volumes_keep)
  note 1 = onHost_net [OF k v]
  show ?thesis
  proof (cases v)
    case (Ret vArgs)
    obtain y ts s2 where t: "createTaps (y_netlink Y) mtu (nd_networkDeviceQueue n) (nd_taps n) s1 = (y, ts, s2)" by (metis prod_cases3)
    have b: "\<forall>t \<in> set (nd_taps n). on_bridge (lk (env_host s1)) t" using assms(2) 1 by simp
    have 2: "gained mtu n (n\<lparr>nd_taps := ts\<rparr>) (env_host s) (env_host s2)"
      using createTaps_outcome [OF t b] 1 by (simp add: gained_def)
    have eq: "n' = n\<lparr>nd_taps := ts\<rparr>" using assms(1) v Ret t by (auto simp: startQemu_def split: res.splits prod.splits)
    show ?thesis
    proof (cases y)
      case y: (Ret infos)
      let ?q = "qemu_command vhost (newQemu (nd_name n) infos vArgs (nd_ignitionFile n) (nd_smp n) (nd_memory n) (nd_numa n)
          (nd_networkDeviceQueue n) (nd_uefi n) (nd_tpm n) (nd_smbios n)) r"
      let ?launch = "bindA (onHost (if nd_uefi n then createNVRAM (y_files Y) (y_commands Y) (nvramPath r (nd_name n)) else retA ())) (\<lambda>_.
          bindA (onRng ?q) (\<lambda>c. onHost (wrapA ''failed to start qemuCommand'' (c_Start (y_commands Y) c)))) s2"
      obtain x3 s3 where l: "?launch = (x3, s3)" by force
      have "startQemu (y_files Y) (y_commands Y) (y_netlink Y) vhost n r mtu s = (x3, n\<lparr>nd_taps := ts\<rparr>, s3)"
        unfolding startQemu_def v Ret prod.case res.case t y l ..
      with assms(1) have "x = x3" "s' = s3" by simp_all
      with l have "?launch = (x, s')" by (simp only:)
      note 3 = launch_net [OF this]
      with 2 show ?thesis by (simp add: eq gained_def)
    qed (use assms(1) v Ret t 2 eq in \<open>auto simp: startQemu_def\<close>)
  qed (use assms(1) v 1 names gained_refl in \<open>auto simp: startQemu_def\<close>)
qed

lemma node_Setup_net:
  assumes "node_Setup (y_files Y) (y_commands Y) (y_netlink Y) (y_procs Y) vhost n r mtu s = Some (x, n', s')"
    "\<forall>t \<in> set (nd_taps n). on_bridge (lk (env_host s)) t"
  shows "gained mtu n n' (env_host s) (env_host s')"
proof -
  have names: "\<forall>t \<in> set (nd_taps n). tp_tapName t = ''''" using assms(2) by (simp add: on_bridge_def)
  obtain x0 w0 where 0: "(if r_Force r then node_CleanupGarbage (y_files Y) n r else retA ()) (env_host s) = (x0, w0)" by force
  have "keeps (same_net (lk (env_host s)) (tbl (env_host s))) (if r_Force r then node_CleanupGarbage (y_files Y) n r else retA ())"
    by (intro keep_intros garbage_keep)
  from keepsD [OF this _ 0] have n0: "lk w0 = lk (env_host s)" "tbl w0 = tbl (env_host s)" by simp_all
  let ?tpm = "if nd_tpm n then startSWTPM (y_files Y) (y_commands Y) (y_procs Y) n r w0 else Some (Ret (), w0)"
  show ?thesis
  proof (cases x0)
    case x0: (Ret u)
    obtain x1 w1 where 1: "?tpm = Some (x1, w1)"
      using assms(1) unfolding node_Setup_def 0 x0 prod.case res.case by (cases ?tpm) auto
    have n1: "lk w1 = lk (env_host s)" "tbl w1 = tbl (env_host s)"
      using 1 n0 startSWTPM_net [of n r w0 x1 w1] by (cases "nd_tpm n"; simp)+
    show ?thesis
    proof (cases x1)
      case x1: (Ret u')
      obtain x2 n2 s2 where 2: "startQemu (y_files Y) (y_commands Y) (y_netlink Y) vhost n r mtu (s\<lparr>env_host := w1\<rparr>) = (x2, n2, s2)" by (metis prod_cases3)
      have "gained mtu n n2 w1 (env_host s2)" using startQemu_net [OF 2] assms(2) n1 by simp
      then have g: "gained mtu n n2 (env_host s) (env_host s2)" using n1 by (simp add: gained_def)
      note step = assms(1) [unfolded node_Setup_def 0 x0 prod.case res.case 1 option.case x1 2]
      show ?thesis
      proof (cases x2)
        case (Ret cmd)
        then obtain w3 where c: "connectGuest (y_files Y) (y_procs Y) n2 r cmd (env_host s2) = Some (x, w3)" "n' = n2" "s' = s2\<lparr>env_host := w3\<rparr>"
          using step by auto
        from connectGuest_net [OF c(1)] g c(2,3) show ?thesis by (simp add: gained_def)
      qed (use step g in auto)
    qed (use assms(1) 0 x0 1 n1 gained_refl [OF names] in \<open>auto simp: node_Setup_def\<close>)
  qed (use assms(1) 0 n0 gained_refl [OF names] in \<open>auto simp: node_Setup_def\<close>)
qed

end

end
