(* ===== verification/Teardown.thy ===== *)
theory Teardown
  imports Apart
begin

text \<open>
  What \<open>Setup\<close> of a cluster leaves behind. The theory \<open>Apart\<close> shows that everything but
  networks, taps and BMC addresses leaves links and packet filter alone. Here an invariant
  describes the links and rules of a cluster at every point of \<open>Setup\<close>: outside the names
  it owns the links are the initial ones. Every phase keeps it, and the
  deferred cleanup turns it into the initial state.
\<close>

subsection \<open>The invariant\<close>

text \<open>The names of the bridges and taps that a cluster has made.\<close>

definition owned :: "cluster \<Rightarrow> string set" where
  "owned c = nw_name ` set (cl_networks c) \<union> (\<Union>n \<in> set (cl_nodes c). fst ` set (made (nd_taps n)))"

text \<open>The tables as \<open>CreateNatRules\<close> has made them, but for the rules in the chains.\<close>

definition chained :: "(proto \<Rightarrow> string \<Rightarrow> table) \<Rightarrow> (proto \<Rightarrow> string \<Rightarrow> table) \<Rightarrow> bool" where
  "chained t0 tb \<longleftrightarrow> chains_ready tb \<and>
     (\<forall>p t c. t \<in> {''filter'', ''nat''} \<and> c = ''PLACEMAT'' \<or> tb p t c = both_tables created (t0 p) t c)"

lemma chained_created: "\<forall>p. hookable (t0 p) \<Longrightarrow> chained t0 (\<lambda>p. both_tables created (t0 p))"
  by (auto simp: chained_def chains_ready_def both_tables_def created_def)

lemma chained_add: "chained t0 tb \<Longrightarrow> chained t0 (add_rules n tb)"
proof -
  assume c: "chained t0 tb"
  have "t \<in> {''filter'', ''nat''} \<and> ch = ''PLACEMAT'' \<or> add_rules n tb p t ch = both_tables created (t0 p) t ch" for p t ch
    using c [unfolded chained_def, THEN conjunct2, rule_format, of t ch p] by (auto simp: add_rules_def)
  then show ?thesis using c by (simp add: chained_def add_rules_ready)
qed

lemma chained_cleaned:
  assumes "chained t0 tb" "\<forall>p. hookable (t0 p)" "\<forall>p. \<not> jumps_to (t0 p ''filter'') ''PLACEMAT'' \<and> \<not> jumps_to (t0 p ''nat'') ''PLACEMAT''"
  shows "(\<lambda>p. both_tables cleaned (tb p)) = t0"
  by (rule cleaned_both) (use assms in \<open>auto simp: chained_def\<close>)

text \<open>
  Every name that the cluster owns was free before, its bridges exist, and the interfaces
  of its nodes are its own bridges.
\<close>

definition hold :: "links \<Rightarrow> (proto \<Rightarrow> string \<Rightarrow> table) \<Rightarrow> cluster \<Rightarrow> links \<Rightarrow> (proto \<Rightarrow> string \<Rightarrow> table) \<Rightarrow> bool" where
  "hold l0 t0 c l tb \<longleftrightarrow>
     (\<forall>x. x \<notin> owned c \<longrightarrow> l x = l0 x) \<and> owned c \<inter> dom l0 = {} \<and> '''' \<notin> owned c \<and>
     (\<forall>b \<in> nw_name ` set (cl_networks c). \<exists>st. l b = Some st \<and> ls_kind st = KBridge) \<and>
     (\<forall>n \<in> set (cl_nodes c). \<forall>t \<in> set (nd_taps n). l_isBridge (tp_bridge t) \<and> l_name (tp_bridge t) \<in> nw_name ` set (cl_networks c)) \<and>
     cl_netNss c = [] \<and> chained t0 tb"

lemma holdD:
  assumes "hold l0 t0 c l tb"
  shows "x \<notin> owned c \<Longrightarrow> l x = l0 x" "owned c \<inter> dom l0 = {}" "b \<in> nw_name ` set (cl_networks c) \<Longrightarrow> \<exists>st. l b = Some st \<and> ls_kind st = KBridge"
    "n \<in> set (cl_nodes c) \<Longrightarrow> t \<in> set (nd_taps n) \<Longrightarrow> l_isBridge (tp_bridge t) \<and> l_name (tp_bridge t) \<in> nw_name ` set (cl_networks c)"
    "cl_netNss c = []" "chained t0 tb" "'''' \<notin> owned c"
  using assms unfolding hold_def by blast+

lemma hold_network:
  assumes "hold l0 t0 c l tb" "x \<notin> owned c" "x \<notin> dom l0" "x \<noteq> ''''" "ls_kind st = KBridge" "nw_name n = x" "chained t0 tb'"
  shows "hold l0 t0 (c\<lparr>cl_networks := cl_networks c @ [n], cl_networkMap := m\<rparr>) (l(x \<mapsto> st)) tb'"
  using assms by (auto simp: hold_def owned_def)

text \<open>New nodes without taps, and a node that gains its taps.\<close>

lemma hold_node:
  assumes "hold l0 t0 c l tb" "made (nd_taps n) = []"
    "\<forall>t \<in> set (nd_taps n). l_isBridge (tp_bridge t) \<and> l_name (tp_bridge t) \<in> nw_name ` set (cl_networks c)"
  shows "hold l0 t0 (c\<lparr>cl_nodes := cl_nodes c @ [n], cl_nodeMap := m\<rparr>) l tb"
  using assms by (auto simp: hold_def owned_def)

lemma hold_prepared:
  assumes "hold l0 t0 c l tb" "cl_nodes c = ns @ [n]" "nd_taps n' = nd_taps n"
  shows "hold l0 t0 (c\<lparr>cl_nodes := ns @ [n']\<rparr>) l tb"
  using assms by (auto simp: hold_def owned_def)

lemma owned_update:
  assumes "i < length (cl_nodes c)" "made (nd_taps (cl_nodes c ! i)) = []"
  shows "owned (c\<lparr>cl_nodes := (cl_nodes c)[i := n']\<rparr>) = owned c \<union> fst ` set (made (nd_taps n'))"
proof -
  let ?f = "\<lambda>n. fst ` set (made (nd_taps n))" and ?ns = "cl_nodes c"
  have "(\<Union>n \<in> set (?ns[i := n']). ?f n) = (\<Union>n \<in> set ?ns. ?f n) \<union> ?f n'"
  proof -
    have s: "set ?ns = insert (?ns ! i) (set (take i ?ns) \<union> set (drop (Suc i) ?ns))"
      by (subst id_take_nth_drop [OF assms(1)]) auto
    have "set (?ns[i := n']) = insert n' (set (take i ?ns) \<union> set (drop (Suc i) ?ns))"
      using assms(1) by (simp add: upd_conv_take_nth_drop)
    then show ?thesis using assms(2) unfolding s by auto
  qed
  then show ?thesis by (auto simp: owned_def)
qed

lemma hold_taps:
  assumes h: "hold l0 t0 c l tb" and i: "i < length (cl_nodes c)" "made (nd_taps (cl_nodes c ! i)) = []"
    and t: "map tp_bridge (nd_taps n') = map tp_bridge (nd_taps (cl_nodes c ! i))" "fst ` set (made (nd_taps n')) \<inter> dom l = {}"
  shows "hold l0 t0 (c\<lparr>cl_nodes := (cl_nodes c)[i := n']\<rparr>) (with_taps mtu q (made (nd_taps n')) l) tb"
proof -
  let ?c = "c\<lparr>cl_nodes := (cl_nodes c)[i := n']\<rparr>" and ?m = "made (nd_taps n')" and ?nets = "nw_name ` set (cl_networks c)"
  note o = owned_update [OF i, of n']
  have dom: "dom l0 \<subseteq> dom l"
  proof
    fix x assume "x \<in> dom l0"
    then have "x \<notin> owned c" using h unfolding hold_def by blast
    then have "l x = l0 x" using h unfolding hold_def by blast
    then show "x \<in> dom l" using \<open>x \<in> dom l0\<close> by auto
  qed
  have keep: "with_taps mtu q ?m l x = l x" if "x \<notin> fst ` set ?m" for x using that by (rule with_taps_other)
  have "\<exists>st. with_taps mtu q ?m l b = Some st \<and> ls_kind st = KBridge" if b: "b \<in> ?nets" for b
  proof -
    obtain st where st: "l b = Some st" "ls_kind st = KBridge" using h b unfolding hold_def by blast
    then have "b \<notin> fst ` set ?m" using t(2) by auto
    then show ?thesis using keep st by simp
  qed
  moreover have "l_isBridge (tp_bridge t') \<and> l_name (tp_bridge t') \<in> ?nets"
    if n: "n \<in> set ((cl_nodes c)[i := n'])" "t' \<in> set (nd_taps n)" for n t'
  proof -
    have old: "l_isBridge (tp_bridge u) \<and> l_name (tp_bridge u) \<in> ?nets" if "k \<in> set (cl_nodes c)" "u \<in> set (nd_taps k)" for k u
      using h that unfolding hold_def by blast
    have "tp_bridge t' \<in> tp_bridge ` (\<Union>k \<in> set (cl_nodes c). set (nd_taps k))"
    proof (cases "n = n'")
      case True
      then have "tp_bridge t' \<in> set (map tp_bridge (nd_taps (cl_nodes c ! i)))" using n(2) t(1) [symmetric] by simp
      then show ?thesis using nth_mem [OF i(1)] by fastforce
    next
      case False
      then have "n \<in> set (cl_nodes c)" using n(1) set_update_subset_insert by fastforce
      then show ?thesis using n(2) by blast
    qed
    then show ?thesis using old by fastforce
  qed
  moreover have "'''' \<notin> fst ` set ?m" by (auto simp: made_def)
  moreover have "fst ` set ?m \<inter> dom l0 = {}" using t(2) dom by blast
  ultimately show ?thesis using h keep unfolding hold_def o by (auto simp: Int_Un_distrib2)
qed

abbreviation hst :: "'w clEnv \<Rightarrow> 'w" where
  "hst s \<equiv> env_host (ce_env s)"

lemma hostC_eq: "m (hst s) = (r, w) \<Longrightarrow> hostC m s = (r, s\<lparr>ce_env := (ce_env s)\<lparr>env_host := w\<rparr>\<rparr>)"
  by (simp add: hostC_def onCl_def onHost_def)

text \<open>
  What \<open>Setup\<close> needs of a specification: networks that are valid, distinct and new on the
  host, nodes that use these networks, and no network namespaces.
\<close>

definition startable :: "ClusterSpec \<Rightarrow> links \<Rightarrow> bool" where
  "startable spec l0 \<longleftrightarrow> (\<forall>n \<in> set (cs_Networks spec). network_ok n \<and> link_name_ok (net_Name n) \<and> net_Name n \<notin> dom l0) \<and>
     distinct (map net_Name (cs_Networks spec)) \<and>
     (\<forall>n \<in> set (cs_Nodes spec). set (node_Interfaces n) \<subseteq> net_Name ` set (cs_Networks spec)) \<and> cs_NetNSs spec = []"

context datacenter
begin

subsection \<open>Phases of Setup\<close>

definition held :: "links \<Rightarrow> (proto \<Rightarrow> string \<Rightarrow> table) \<Rightarrow> 'w clEnv \<Rightarrow> bool" where
  "held l0 t0 s \<longleftrightarrow> hold l0 t0 (ce_cl s) (lk (hst s)) (tbl (hst s))"

lemma hostC_apart:
  assumes "keeps (same_net (lk (hst s)) (tbl (hst s))) m" "hostC m s = (r, s')"
  shows "ce_cl s' = ce_cl s \<and> ce_dead s' = ce_dead s \<and> lk (hst s') = lk (hst s) \<and> tbl (hst s') = tbl (hst s)"
proof -
  obtain x w where m: "m (hst s) = (x, w)" by force
  have "same_net (lk (hst s)) (tbl (hst s)) w" by (rule keepsD [OF assms(1) _ m]) simp
  then show ?thesis using assms(2) hostC_eq [of m, OF m] by auto
qed

lemma setupNetwork_held:
  assumes h: "held l0 t0 s" and spec: "network_ok spec" "link_name_ok (net_Name spec)" "net_Name spec \<notin> dom l0" "net_Name spec \<notin> owned (ce_cl s)"
    and r: "\<not> r_Force r" and s': "setupNetwork Y r mtu spec s = (x, s')"
  shows "held l0 t0 s' \<and> ce_dead s' = ce_dead s \<and> cl_nodes (ce_cl s') = cl_nodes (ce_cl s) \<and> cl_spec (ce_cl s') = cl_spec (ce_cl s) \<and>
    (x = Ret () \<longrightarrow> nw_name ` set (cl_networks (ce_cl s')) = insert (net_Name spec) (nw_name ` set (cl_networks (ce_cl s))))"
proof (cases "NewNetwork (y_netlink Y) spec")
  case (Ret n)
  note v = NewNetwork_valid [OF Ret spec(1)]
  let ?c = "(ce_cl s)\<lparr>cl_networks := cl_networks (ce_cl s) @ [n], cl_networkMap := (cl_networkMap (ce_cl s))(net_Name spec \<mapsto> n)\<rparr>"
  have "lk (hst s) (net_Name spec) = l0 (net_Name spec)" using h spec(4) by (simp add: held_def hold_def)
  then have none: "lk (hst s) (nw_name n) = None" using spec(3) v by auto
  have ch: "chained t0 (tbl (hst s))" using h by (simp add: held_def hold_def)
  obtain w where w: "network_Setup (y_netlink Y) (y_iptables Y) n mtu False (hst s) = (Ret (), w)"
    "lk w = (lk (hst s))(nw_name n \<mapsto> bridge_state n mtu)" "tbl w = add_rules n (tbl (hst s))"
    using Setup_brings [of n False "hst s" mtu] v spec(2) none ch by (auto simp: brings_def chained_def)
  have m: "wrapA msg (network_Setup (y_netlink Y) (y_iptables Y) n mtu (r_Force r)) (hst s) = (Ret (), w)" for msg
    using w(1) r by (simp add: wrapA_def)
  have "s' = s\<lparr>ce_cl := ?c, ce_env := (ce_env s)\<lparr>env_host := w\<rparr>\<rparr>" and x: "x = Ret ()"
    using s' m by (auto simp: setupNetwork_def Ret modCl_def hostC_eq)
  moreover have "hold l0 t0 ?c ((lk (hst s))(net_Name spec \<mapsto> bridge_state n mtu)) (tbl w)"
    unfolding w(3) by (rule hold_network [OF h [unfolded held_def]])
      (use spec v chained_add [OF ch] in \<open>auto simp: link_name_ok_def bridge_state_def\<close>)
  ultimately show ?thesis using w(2) v by (simp add: held_def)
qed (use s' h in \<open>auto simp: setupNetwork_def failA_def panicA_def\<close>)

lemma setupNetworks_held:
  assumes "held l0 t0 s" "\<forall>spec \<in> set specs. network_ok spec \<and> link_name_ok (net_Name spec) \<and> net_Name spec \<notin> dom l0 \<and> net_Name spec \<notin> owned (ce_cl s)"
    "distinct (map net_Name specs)" "\<not> r_Force r" "forA (setupNetwork Y r mtu) specs s = (x, s')" "cl_nodes (ce_cl s) = []"
  shows "held l0 t0 s' \<and> ce_dead s' = ce_dead s \<and> cl_nodes (ce_cl s') = [] \<and> cl_spec (ce_cl s') = cl_spec (ce_cl s) \<and>
    (x = Ret () \<longrightarrow> nw_name ` set (cl_networks (ce_cl s')) = net_Name ` set specs \<union> nw_name ` set (cl_networks (ce_cl s)))"
  using assms
proof (induction specs arbitrary: s)
  case Nil
  then show ?case by (simp add: retA_def)
next
  case (Cons spec specs)
  obtain x1 s1 where 1: "setupNetwork Y r mtu spec s = (x1, s1)" by force
  have p: "network_ok spec" "link_name_ok (net_Name spec)" "net_Name spec \<notin> dom l0" "net_Name spec \<notin> owned (ce_cl s)"
    using Cons.prems(2) by simp_all
  note n1 = setupNetwork_held [OF Cons.prems(1) p Cons.prems(4) 1]
  show ?case
  proof (cases x1)
    case (Ret u)
    have o: "owned (ce_cl s1) = insert (net_Name spec) (owned (ce_cl s))" using n1 Ret Cons.prems(6) by (simp add: owned_def)
    have "forA (setupNetwork Y r mtu) specs s1 = (x, s')" using Cons.prems(5) 1 Ret by (simp add: bindA_def)
    moreover have "\<forall>spec \<in> set specs. network_ok spec \<and> link_name_ok (net_Name spec) \<and> net_Name spec \<notin> dom l0 \<and> net_Name spec \<notin> owned (ce_cl s1)"
      using Cons.prems(2,3) unfolding o by (auto simp: image_iff)
    ultimately show ?thesis using Cons.IH [of s1] n1 Cons.prems(3,4,6) Ret by auto
  qed (use n1 Cons.prems(5,6) 1 in \<open>auto simp: bindA_def\<close>)
qed

text \<open>Nodes are prepared without taps.\<close>

definition untapped :: "node \<Rightarrow> bool" where
  "untapped n \<longleftrightarrow> (\<forall>t \<in> set (nd_taps n). tp_tapName t = '''')"

lemma untapped_made: "untapped n \<Longrightarrow> made (nd_taps n) = []"
  by (simp add: untapped_def made_def)

lemma NewNode_taps:
  assumes "\<forall>i \<in> set (node_Interfaces spec). \<exists>st. lk w i = Some st \<and> ls_kind st = KBridge"
    "NewNode (y_http Y) (y_netlink Y) spec images classes w = (x, w')"
  shows "lk w' = lk w \<and> tbl w' = tbl w \<and>
    (\<forall>n. x = Ret n \<longrightarrow> untapped n \<and> (\<forall>t \<in> set (nd_taps n). l_isBridge (tp_bridge t) \<and> l_name (tp_bridge t) \<in> set (node_Interfaces spec)))"
proof -
  have ex: "\<forall>i \<in> set (node_Interfaces spec). lk w i \<noteq> None" using assms(1) by fastforce
  obtain ts w1 where t: "lk w1 = lk w" "tbl w1 = tbl w"
    "mapA (\<lambda>i. wrapA (''failed to new type tap: bridge is '' @ i) (newTap (y_netlink Y) i)) (node_Interfaces spec) w = (Ret ts, w1)"
    "list_all2 (\<lambda>i t. \<exists>s. lk w i = Some s \<and> tp_tapName t = '''' \<and>
       tp_bridge t = \<lparr>l_name = i, l_mtu = ls_mtu s, l_isBridge = (ls_kind s = KBridge)\<rparr>) (node_Interfaces spec) ts"
    using newTaps [of w "node_Interfaces spec" "\<lambda>i. ''failed to new type tap: bridge is '' @ i"] unfolding if_P [OF ex]
    by (elim exE conjE) (rule that)
  have "tp_tapName t = '''' \<and> l_isBridge (tp_bridge t) \<and> l_name (tp_bridge t) \<in> set (node_Interfaces spec)" if m: "t \<in> set ts" for t
  proof -
    obtain k where k: "k < length ts" "t = ts ! k" using m by (metis in_set_conv_nth)
    have "node_Interfaces spec ! k \<in> set (node_Interfaces spec)" using k(1) t(4) by (simp add: list_all2_lengthD)
    then show ?thesis using list_all2_nthD2 [OF t(4) k(1)] k(2) assms(1) by force
  qed
  then show ?thesis
    using assms(2) t(1-3) by (auto simp: NewNode_def untapped_def panicA_def failA_def liftA_def bindA_def retA_def split: option.splits res.splits)
qed

lemma prepareNode_held:
  assumes h: "held l0 t0 s" and i: "set (node_Interfaces spec) \<subseteq> nw_name ` set (cl_networks (ce_cl s))" and p: "prepareNode Y r spec s = (x, s')"
    and u: "\<forall>n \<in> set (cl_nodes (ce_cl s)). untapped n"
  shows "held l0 t0 s' \<and> ce_dead s' = ce_dead s \<and> cl_networks (ce_cl s') = cl_networks (ce_cl s) \<and> cl_spec (ce_cl s') = cl_spec (ce_cl s) \<and>
    (\<forall>n \<in> set (cl_nodes (ce_cl s')). untapped n) \<and> (x = Ret () \<longrightarrow> length (cl_nodes (ce_cl s')) = Suc (length (cl_nodes (ce_cl s))))"
proof -
  let ?cs = "cl_spec (ce_cl s)"
  obtain y w1 where 1: "NewNode (y_http Y) (y_netlink Y) spec (cs_Images ?cs) (cs_DeviceClasses ?cs) (hst s) = (y, w1)" by force
  have "\<forall>i \<in> set (node_Interfaces spec). \<exists>st. lk (hst s) i = Some st \<and> ls_kind st = KBridge"
    using holdD(3) [OF h [unfolded held_def]] i by blast
  note n1 = NewNode_taps [OF this 1]
  let ?m = "hostC (NewNode (y_http Y) (y_netlink Y) spec (cs_Images ?cs) (cs_DeviceClasses ?cs)) :: ('w clEnv, node) act"
  note hc = hostC_eq [of "NewNode (y_http Y) (y_netlink Y) spec (cs_Images ?cs) (cs_DeviceClasses ?cs)" s, OF 1]
  show ?thesis
  proof (cases y)
    case (Ret n)
    let ?s1 = "s\<lparr>ce_env := (ce_env s)\<lparr>env_host := w1\<rparr>\<rparr>"
    let ?c = "(ce_cl s)\<lparr>cl_nodes := cl_nodes (ce_cl s) @ [n], cl_nodeMap := (cl_nodeMap (ce_cl s))(node_Name spec \<mapsto> length (cl_nodes (ce_cl s)))\<rparr>"
    let ?s2 = "?s1\<lparr>ce_cl := ?c\<rparr>"
    have un: "untapped n" using n1 Ret by blast
    have br: "\<forall>t \<in> set (nd_taps n). l_isBridge (tp_bridge t) \<and> l_name (tp_bridge t) \<in> nw_name ` set (cl_networks (ce_cl s))"
      using n1 Ret i by blast
    have h2: "held l0 t0 ?s2" unfolding held_def
      using hold_node [OF h [unfolded held_def] untapped_made [OF un] br] n1 by simp
    let ?hp = "hostC (wrapA ''failed to prepare Node'' (node_Prepare (y_files Y) (y_http Y) (r_ImageCacheDir r) n)) :: ('w clEnv, node) act"
    obtain z s3 where 3: "?hp ?s2 = (z, s3)" by force
    have "keeps (same_net l t) (wrapA ''failed to prepare Node'' (node_Prepare (y_files Y) (y_http Y) (r_ImageCacheDir r) n))" for l t
      unfolding node_Prepare_def by (intro keep_intros volumes_keep)
    note n3 = hostC_apart [OF this 3]
    have h3: "held l0 t0 s3" using h2 n3 by (simp add: held_def)
    let ?k = "\<lambda>node'. modCl (\<lambda>c. c\<lparr>cl_nodes := (cl_nodes c)[length (cl_nodes c) - 1 := node']\<rparr>) :: ('w clEnv, unit) act"
    have "prepareNode Y r spec s =
        bindA ?hp ?k ?s2"
      by (simp add: prepareNode_def bindA_Ret [of ?m s, OF hc [unfolded Ret]] modCl_def)
    then have eq: "bindA ?hp ?k ?s2 = (x, s')"
      using p by simp
    show ?thesis
    proof (cases z)
      case z: (Ret n')
      have taps: "nd_taps n' = nd_taps n"
        using 3 z by (auto simp: hostC_def onCl_def onHost_def wrapA_def node_Prepare_def bindA_def retA_def split: prod.splits res.splits)
      have "hold l0 t0 (?c\<lparr>cl_nodes := cl_nodes (ce_cl s) @ [n']\<rparr>) (lk (hst s3)) (tbl (hst s3))"
        by (rule hold_prepared [of l0 t0 ?c _ _ "cl_nodes (ce_cl s)" n]) (use h3 n3 taps in \<open>simp_all add: held_def\<close>)
      moreover have "s' = s3\<lparr>ce_cl := ?c\<lparr>cl_nodes := cl_nodes (ce_cl s) @ [n']\<rparr>\<rparr>"
        using eq n3 unfolding bindA_Ret [of ?hp ?s2, OF 3 [unfolded z]] by (simp add: modCl_def modifyA_def)
      ultimately show ?thesis using n3 u un taps by (auto simp: held_def untapped_def)
    next
      case (Fail e)
      with eq have "s' = s3" "x = Fail e" unfolding bindA_Fail [of ?hp ?s2, OF 3 [unfolded Fail]] by simp_all
      with n3 h3 u un show ?thesis by auto
    next
      case (Panic q)
      with eq have "s' = s3" "x = Panic q" unfolding bindA_Panic [of ?hp ?s2, OF 3 [unfolded Panic]] by simp_all
      with n3 h3 u un show ?thesis by auto
    qed
  next
    case (Fail e)
    have "prepareNode Y r spec s = (Fail e, s\<lparr>ce_env := (ce_env s)\<lparr>env_host := w1\<rparr>\<rparr>)"
      by (simp add: prepareNode_def bindA_Fail [of ?m s, OF hc [unfolded Fail]])
    with p h n1 u show ?thesis by (auto simp: held_def)
  next
    case (Panic q)
    have "prepareNode Y r spec s = (Panic q, s\<lparr>ce_env := (ce_env s)\<lparr>env_host := w1\<rparr>\<rparr>)"
      by (simp add: prepareNode_def bindA_Panic [of ?m s, OF hc [unfolded Panic]])
    with p h n1 u show ?thesis by (auto simp: held_def)
  qed
qed

lemma prepareNodes_held:
  assumes "held l0 t0 s" "\<forall>spec \<in> set specs. set (node_Interfaces spec) \<subseteq> nw_name ` set (cl_networks (ce_cl s))"
    "forA (prepareNode Y r) specs s = (x, s')" "\<forall>n \<in> set (cl_nodes (ce_cl s)). untapped n"
  shows "held l0 t0 s' \<and> ce_dead s' = ce_dead s \<and> cl_spec (ce_cl s') = cl_spec (ce_cl s) \<and> (\<forall>n \<in> set (cl_nodes (ce_cl s')). untapped n) \<and>
    (x = Ret () \<longrightarrow> length (cl_nodes (ce_cl s')) = length specs + length (cl_nodes (ce_cl s)))"
  using assms
proof (induction specs arbitrary: s)
  case Nil
  then show ?case by (simp add: retA_def)
next
  case (Cons spec specs)
  obtain x1 s1 where 1: "prepareNode Y r spec s = (x1, s1)" by force
  have "set (node_Interfaces spec) \<subseteq> nw_name ` set (cl_networks (ce_cl s))" using Cons.prems(2) by simp
  note n1 = prepareNode_held [OF Cons.prems(1) this 1 Cons.prems(4)]
  show ?case
  proof (cases x1)
    case (Ret u)
    have "forA (prepareNode Y r) specs s1 = (x, s')" using Cons.prems(3) 1 Ret by (simp add: bindA_def)
    from Cons.IH [OF _ _ this] n1 Cons.prems(2) Ret show ?thesis by simp
  qed (use n1 Cons.prems(3) 1 in \<open>auto simp: bindA_def\<close>)
qed

text \<open>Setting nodes up, in any order.\<close>

lemma hold_vms [simp]: "hold l0 t0 (c\<lparr>cl_vms := v\<rparr>) l tb = hold l0 t0 c l tb"
  by (simp add: hold_def owned_def)

lemma setupNode_held:
  assumes h: "held l0 t0 s" and i: "i < length (cl_nodes (ce_cl s))" "untapped (cl_nodes (ce_cl s) ! i)"
    and s': "setupNode Y r mtu i s = Some (x, s')"
  shows "held l0 t0 s' \<and> cl_spec (ce_cl s') = cl_spec (ce_cl s) \<and>
    (\<exists>n'. cl_nodes (ce_cl s') = (cl_nodes (ce_cl s))[i := n'])"
proof -
  let ?n = "cl_nodes (ce_cl s) ! i"
  obtain y n' e where y: "node_Setup (y_files Y) (y_commands Y) (y_netlink Y) (y_procs Y) (y_vhostNetSupported Y) ?n r mtu (ce_env s) = Some (y, n', e)"
    using s' unfolding setupNode_def by auto
  have "\<forall>t \<in> set (nd_taps ?n). on_bridge (lk (hst s)) t"
  proof
    fix t assume t: "t \<in> set (nd_taps ?n)"
    from holdD(4) [OF h [unfolded held_def] nth_mem [OF i(1)] t] have b: "l_isBridge (tp_bridge t)" "l_name (tp_bridge t) \<in> nw_name ` set (cl_networks (ce_cl s))"
      by blast+
    show "on_bridge (lk (hst s)) t" using holdD(3) [OF h [unfolded held_def] b(2)] b(1) i(2) t by (simp add: on_bridge_def untapped_def)
  qed
  note g = node_Setup_net [OF y this, unfolded gained_def]
  have "hold l0 t0 ((ce_cl s)\<lparr>cl_nodes := (cl_nodes (ce_cl s))[i := n']\<rparr>) (lk (env_host e)) (tbl (env_host e))"
    using hold_taps [OF h [unfolded held_def] i(1) untapped_made [OF i(2)], of n' mtu "nd_networkDeviceQueue ?n"] g by simp
  then show ?thesis using s' y by (auto simp: setupNode_def Let_def held_def split: res.splits)
qed

lemma setupNodes_held:
  assumes "held l0 t0 s" "\<forall>i \<in> set is. i < length (cl_nodes (ce_cl s)) \<and> untapped (cl_nodes (ce_cl s) ! i)" "distinct is"
    "setupNodes Y r mtu is s = Some (x, s')"
  shows "held l0 t0 s' \<and> cl_spec (ce_cl s') = cl_spec (ce_cl s)"
  using assms
proof (induction "is" arbitrary: s x s')
  case Nil
  then show ?case by simp
next
  case (Cons i "is")
  obtain y s1 where 1: "setupNode Y r mtu i s = Some (y, s1)" using Cons.prems(4) by (auto split: option.splits)
  have i: "i < length (cl_nodes (ce_cl s))" "untapped (cl_nodes (ce_cl s) ! i)" using Cons.prems(2) by simp_all
  from setupNode_held [OF Cons.prems(1) i 1] obtain n' where n1: "held l0 t0 s1" "cl_spec (ce_cl s1) = cl_spec (ce_cl s)"
    "cl_nodes (ce_cl s1) = (cl_nodes (ce_cl s))[i := n']" by blast
  have rest: "\<forall>j \<in> set is. j < length (cl_nodes (ce_cl s1)) \<and> untapped (cl_nodes (ce_cl s1) ! j)"
  proof
    fix j assume j: "j \<in> set is"
    then have "j \<noteq> i" using Cons.prems(3) by auto
    then show "j < length (cl_nodes (ce_cl s1)) \<and> untapped (cl_nodes (ce_cl s1) ! j)" using Cons.prems(2) j by (simp add: n1(3))
  qed
  have IH: "held l0 t0 s2 \<and> cl_spec (ce_cl s2) = cl_spec (ce_cl s)" if "setupNodes Y r mtu is s1 = Some (z, s2)" for z s2
    using Cons.IH [OF n1(1) rest _ that] n1(2) Cons.prems(3) by simp
  show ?case using Cons.prems(4) 1 n1 IH by (auto split: option.splits res.splits)
qed

text \<open>Serving: the addresses of BMCs are added to bridges of the cluster, nothing else changes.\<close>

definition bridged :: "string set \<Rightarrow> links \<Rightarrow> (proto \<Rightarrow> string \<Rightarrow> table) \<Rightarrow> 'w \<Rightarrow> bool" where
  "bridged nets l t w \<longleftrightarrow> tbl w = t \<and> (\<forall>x. x \<notin> nets \<longrightarrow> lk w x = l x) \<and> (\<forall>b \<in> nets. \<exists>st. lk w b = Some st \<and> ls_kind st = KBridge)"

lemma bridged_same: "bridged nets l t w \<Longrightarrow> lk w' = lk w \<Longrightarrow> tbl w' = tbl w \<Longrightarrow> bridged nets l t w'"
  by (simp add: bridged_def)

lemma keeps_bridged: "(\<And>l t. keeps (same_net l t) m) \<Longrightarrow> keeps (bridged nets l t) m"
  unfolding keeps_def by (metis bridged_same)

lemma AddAddr_bridged:
  assumes "nw_name n \<in> nets"
  shows "keeps (bridged nets l t) (network_AddAddr (y_netlink Y) n addr)"
proof (cases "nw_addr n")
  case None
  then show ?thesis by (simp add: network_AddAddr_def)
next
  case (Some net)
  have "keeps (bridged nets l t) (bindA (wrapA m1 (n_LinkByName (y_netlink Y) (nw_name n))) (\<lambda>link. wrapA m2 (n_AddrAdd (y_netlink Y) (l_name link) a)))"
    for m1 m2 a
  proof (rule keepsI)
    fix w assume b: "bridged nets l t w"
    then obtain st where st: "lk w (nw_name n) = Some st" "ls_kind st = KBridge" using assms unfolding bridged_def by blast
    obtain w1 where 1: "n_LinkByName (y_netlink Y) (nw_name n) w = (Ret \<lparr>l_name = nw_name n, l_mtu = ls_mtu st, l_isBridge = (ls_kind st = KBridge)\<rparr>, w1)"
      "lk w1 = lk w" "tbl w1 = tbl w" using byname_law [OF st(1)] by blast
    obtain r w2 where 2: "n_AddrAdd (y_netlink Y) (nw_name n) a w1 = (r, w2)" "tbl w2 = tbl w"
      "lk w2 = lk w \<or> lk w2 = (lk w)(nw_name n \<mapsto> st\<lparr>ls_addrs := ls_addrs st @ [a]\<rparr>)"
      using addr_law [of w1 "nw_name n" st a] addr_exists [of w1 "nw_name n" st a] st(1) 1(2,3) by (cases "a \<in> set (ls_addrs st)") auto
    have "bridged nets l t w2" using b 2(2,3) st assms by (auto simp: bridged_def)
    then show "bridged nets l t (snd (bindA (wrapA m1 (n_LinkByName (y_netlink Y) (nw_name n))) (\<lambda>link. wrapA m2 (n_AddrAdd (y_netlink Y) (l_name link) a)) w))"
      using 1(1) 2(1) by (simp add: bindA_def wrapA_def)
  qed
  then show ?thesis unfolding network_AddAddr_def Some by (simp add: keep_intros)
qed

lemma bmcServer_bridged:
  assumes "nw_name ` set (bs_networks b) \<subseteq> nets"
  shows "keeps (bridged nets l t) (bmcServer_Start (y_netlink Y) (y_sockets Y) b infos)"
proof -
  have k: "keeps (bridged nets l t) (addBMCAddrToNetwork (y_netlink Y) b info)" for info
  proof (cases "findBridge b (bi_bmcAddress info)")
    case (Ret n)
    then have "nw_name n \<in> nets" using assms by (auto simp: findBridge_def find_Some_iff split: option.splits)
    with Ret show ?thesis by (auto simp: addBMCAddrToNetwork_def intro!: keep_intros AddAddr_bridged)
  qed (simp_all add: addBMCAddrToNetwork_def)
  show ?thesis unfolding bmcServer_Start_def bmcAnnounced_def orNil_def
    by (intro keep_intros k keeps_bridged keeps_sockets)
qed

lemma held_bridged:
  assumes "held l0 t0 s" "bridged (nw_name ` set (cl_networks (ce_cl s))) (lk (hst s)) (tbl (hst s)) w"
  shows "held l0 t0 (s\<lparr>ce_env := (ce_env s)\<lparr>env_host := w\<rparr>\<rparr>)"
proof -
  let ?nets = "nw_name ` set (cl_networks (ce_cl s))"
  have "lk w x = l0 x" if x: "x \<notin> owned (ce_cl s)" for x
  proof -
    have "x \<notin> ?nets" using x by (auto simp: owned_def)
    then show ?thesis using assms holdD(1) [OF assms(1) [unfolded held_def] x] by (simp add: bridged_def)
  qed
  then show ?thesis using assms unfolding held_def hold_def bridged_def by simp
qed

lemma keeps_hostC [keep_intros]: "(\<And>l t. keeps (same_net l t) m) \<Longrightarrow> keeps (held l0 t0) (hostC m)"
  using hostC_apart [of _ m] unfolding keeps_def held_def by (metis prod.collapse)

lemma keeps_goroutine [keep_intros]: "keeps (held l0 t0) m \<Longrightarrow> keeps (held l0 t0) (goroutine m)"
  unfolding keeps_def goroutine_def held_def by (fastforce split: prod.splits res.splits)

lemma keeps_goAll [keep_intros]: "(\<And>m. m \<in> set ms \<Longrightarrow> keeps I m) \<Longrightarrow> keeps I (goAll ms)"
proof (induction ms)
  case Nil
  then show ?case by (simp add: keeps_def)
next
  case (Cons m ms)
  then have m: "keeps I m" and IH: "keeps I (goAll ms)" by simp_all
  show ?case
  proof (rule keepsI)
    fix s assume s: "I s"
    obtain r s1 where 1: "m s = (r, s1)" by force
    have s1: "I s1" by (rule keepsD [OF m s 1])
    obtain x s2 where 2: "goAll ms s1 = (x, s2)" by force
    have "I s2" by (rule keepsD [OF IH s1 2])
    then show "I (snd (goAll (m # ms) s))" using 1 2 s1 by (auto split: res.splits)
  qed
qed

lemma bmcTask_held: "keeps (held l0 t0) (bmcTask Y sc)"
proof (rule keepsI)
  fix s assume h: "held l0 t0 s"
  let ?nets = "nw_name ` set (cl_networks (ce_cl s))"
  let ?m = "bmcServer_Start (y_netlink Y) (y_sockets Y) (NewBMCServer (vmOf (ce_cl s)) (cl_networks (ce_cl s))) (sc_infos sc)"
  obtain r w where m: "?m (hst s) = (r, w)" by force
  have "keeps (bridged ?nets (lk (hst s)) (tbl (hst s))) ?m" by (rule bmcServer_bridged) (auto simp: NewBMCServer_def)
  moreover have "bridged ?nets (lk (hst s)) (tbl (hst s)) (hst s)" using holdD(3) [OF h [unfolded held_def]] by (simp add: bridged_def)
  ultimately have "bridged ?nets (lk (hst s)) (tbl (hst s)) w" using keepsD m by metis
  from held_bridged [OF h this] show "held l0 t0 (snd (bmcTask Y sc s))"
    using hostC_eq [of ?m s, OF m] by (cases r) (simp_all add: bmcTask_def bindA_def getA_def retA_def)
qed

lemma serve_held:
  assumes "held l0 t0 s" "cs_NetNSs (cl_spec (ce_cl s)) = []" "serve Y sc r mtu s = (x, s')"
  shows "held l0 t0 s'"
proof -
  let ?c = "ce_cl s"
  let ?rest = "bindA (hostC (orNil (k_ResolveTCPAddr (y_sockets Y) (r_ListenAddr r)))) (\<lambda>addr.
     bindA (hostC (orNil (k_ListenTCP (y_sockets Y) addr))) (\<lambda>listener.
     bindA (tryA (goAll (map goroutine (bmcTask Y sc # map (netNSTask Y sc r mtu) [] @ map (\<lambda>(k, v). waitTask Y v) (cl_vms ?c))))) (\<lambda>waited.
     bindA (apiServer_start Y listener) (\<lambda>_.
     case waited of Inl e \<Rightarrow> failA e | Inr _ \<Rightarrow> retA ()))))"
  have tasks: "keeps (held l0 t0) m" if "m \<in> set (map goroutine (bmcTask Y sc # map (netNSTask Y sc r mtu) [] @ map (\<lambda>(k, v). waitTask Y v) (cl_vms ?c)))" for m
  proof -
    have wait: "keeps (held l0 t0) (waitTask Y v)" for v
      by (cases v) (simp_all add: waitTask_def vm_Wait_def keeps_hostC calls_keep)
    from that obtain m' where m: "m = goroutine m'" "m' = bmcTask Y sc \<or> (\<exists>v. m' = waitTask Y v)" by auto
    then have "keeps (held l0 t0) m'" using bmcTask_held wait by blast
    then show ?thesis unfolding m(1) by (rule keeps_goroutine)
  qed
  have serve: "keeps (held l0 t0) (apiServer_start Y l)" for l
    by (cases l) (simp_all add: apiServer_start_def keeps_hostC calls_keep)
  have nil: "keeps (same_net l t) (orNil m)" if "keeps (same_net l t) m" for l t and m :: "('w, 'b) act"
    unfolding orNil_def using that by (intro keep_intros)
  have k: "keeps (held l0 t0) ?rest"
    by (intro keeps_bindA keeps_hostC keeps_tryA keeps_goAll nil keeps_sockets tasks serve keeps_cases keeps_pure)
  have e: "serve Y sc r mtu s = ?rest s"
    unfolding serve_def bindA_simps(7) assms(2) forA.simps bindA_simps(1) holdD(5) [OF assms(1) [unfolded held_def]] ..
  show ?thesis by (rule keepsD [OF k assms(1)], unfold e [symmetric], rule assms(3))
qed

lemma cleanupVMs_same:
  assumes "cleanupVMs Y s = (x, s')"
  shows "ce_cl s' = ce_cl s \<and> ce_dead s' = ce_dead s \<and> lk (hst s') = lk (hst s) \<and> tbl (hst s') = tbl (hst s)"
proof -
  let ?I = "\<lambda>t. ce_cl t = ce_cl s \<and> ce_dead t = ce_dead s \<and> lk (hst t) = lk (hst s) \<and> tbl (hst t) = tbl (hst s)"
  have h: "keeps ?I (hostC m)" if "\<And>l t. keeps (same_net l t) m" for m :: "('w, unit) act"
    using hostC_apart [OF that] unfolding keeps_def by (metis prod.collapse)
  have "keeps ?I (cleanupVMs Y)"
    unfolding cleanupVMs_def by (intro keep_intros) (auto intro!: keep_intros h garbage_keep split: option.splits)
  from keepsD [OF this _ assms] show ?thesis by simp
qed

text \<open>The body of \<open>Setup\<close>.\<close>

lemma CreateNatRules_net:
  assumes "\<forall>p. hookable (tbl w p)"
  shows "brings (CreateNatRules (y_iptables Y)) w (lk w) (\<lambda>p. both_tables created (tbl w p))"
proof (rule brings_filter [OF CreateNatRules_reaches])
  show "keeps (\<lambda>v. lk v = lk w) (CreateNatRules (y_iptables Y))"
    unfolding CreateNatRules_def newIptables_def createChains_def by (intro keep_intros)
qed (use assms in blast)

lemma CleanupNatRules_net: "brings (CleanupNatRules (y_iptables Y)) w (lk w) (\<lambda>p. both_tables cleaned (tbl w p))"
proof (rule brings_filter [OF CleanupNatRules_reaches])
  show "keeps (\<lambda>v. lk v = lk w) (CleanupNatRules (y_iptables Y))"
    unfolding CleanupNatRules_def newIptables_def cleanupChains_def by (intro keep_intros)
qed

lemma prologue_held:
  assumes "\<not> r_Force r" "\<forall>p. hookable (tbl (hst s) p)" "startable spec (lk (hst s))" "ce_cl s = NewCluster spec"
    "prologue Y r s = (x, s')"
  shows "held (lk (hst s)) (tbl (hst s)) s' \<and> ce_dead s' = ce_dead s \<and> cl_spec (ce_cl s') = spec \<and>
    (\<forall>n \<in> set (cl_nodes (ce_cl s')). untapped n) \<and> (\<forall>m. x = Ret m \<longrightarrow> length (cl_nodes (ce_cl s')) = length (cs_Nodes spec))"
proof -
  let ?l = "lk (hst s)" and ?t = "tbl (hst s)"
  have c: "cl_networks (ce_cl s) = []" "cl_nodes (ce_cl s) = []" "cl_netNss (ce_cl s) = []" "cl_spec (ce_cl s) = spec" "owned (ce_cl s) = {}"
    by (simp_all add: assms(4) NewCluster_def owned_def)
  obtain w1 where w1: "CreateNatRules (y_iptables Y) (hst s) = (Ret (), w1)" "lk w1 = ?l" "tbl w1 = (\<lambda>p. both_tables created (?t p))"
    using CreateNatRules_net [OF assms(2)] by (auto simp: brings_def)
  let ?s1 = "s\<lparr>ce_env := (ce_env s)\<lparr>env_host := w1\<rparr>\<rparr>"
  have h1: "held ?l ?t ?s1" using w1 c chained_created [OF assms(2)] by (simp add: held_def hold_def)
  let ?mtu = "hostC (wrapA ''failed to detect MTU'' (y_DetectMTU Y)) :: ('w clEnv, int) act"
  let ?nodes = "\<lambda>mtu. bindA (forA (prepareNode Y r) (cs_Nodes spec)) (\<lambda>_. retA mtu)"
  let ?nets = "\<lambda>mtu. bindA (forA (setupNetwork Y r mtu) (cs_Networks spec)) (\<lambda>_. ?nodes mtu)"
  obtain y s2 where 2: "?mtu ?s1 = (y, s2)" by force
  have "keeps (same_net l t) (wrapA ''failed to detect MTU'' (y_DetectMTU Y))" for l t by (intro keep_intros)
  note n2 = hostC_apart [OF this 2]
  then have h2: "held ?l ?t s2" using h1 by (simp add: held_def)
  have pr: "prologue Y r s = bindA ?mtu (\<lambda>mtu. bindA (getA (\<lambda>s. cl_spec (ce_cl s))) (\<lambda>cs.
     bindA (forA (setupNetwork Y r mtu) (cs_Networks cs)) (\<lambda>_. bindA (forA (prepareNode Y r) (cs_Nodes cs)) (\<lambda>_. retA mtu)))) ?s1"
    using assms(1) by (simp add: prologue_def bindA_Ret [of "hostC (CreateNatRules (y_iptables Y))" s, OF hostC_eq [of "CreateNatRules (y_iptables Y)" s, OF w1(1)]])
  show ?thesis
  proof (cases y)
    case (Ret mtu)
    have p3: "?nets mtu s2 = (x, s')"
      using assms(5) n2 c unfolding pr bindA_Ret [of ?mtu ?s1, OF 2 [unfolded Ret]] by simp
    obtain z s3 where 3: "forA (setupNetwork Y r mtu) (cs_Networks spec) s2 = (z, s3)" by force
    have n3: "held ?l ?t s3 \<and> ce_dead s3 = ce_dead s2 \<and> cl_nodes (ce_cl s3) = [] \<and> cl_spec (ce_cl s3) = cl_spec (ce_cl s2) \<and>
        (z = Ret () \<longrightarrow> nw_name ` set (cl_networks (ce_cl s3)) = net_Name ` set (cs_Networks spec) \<union> nw_name ` set (cl_networks (ce_cl s2)))"
      by (rule setupNetworks_held [OF h2 _ _ assms(1) 3]) (use assms(3) n2 c in \<open>auto simp: startable_def\<close>)
    show ?thesis
    proof (cases z)
      case z: (Ret u)
      obtain v s4 where 4: "forA (prepareNode Y r) (cs_Nodes spec) s3 = (v, s4)" by force
      have n4: "held ?l ?t s4 \<and> ce_dead s4 = ce_dead s3 \<and> cl_spec (ce_cl s4) = cl_spec (ce_cl s3) \<and> (\<forall>n \<in> set (cl_nodes (ce_cl s4)). untapped n) \<and>
          (v = Ret () \<longrightarrow> length (cl_nodes (ce_cl s4)) = length (cs_Nodes spec) + length (cl_nodes (ce_cl s3)))"
        by (rule prepareNodes_held [OF _ _ 4]) (use assms(3) n3 z in \<open>auto simp: startable_def\<close>)
      have "bindA (forA (prepareNode Y r) (cs_Nodes spec)) (\<lambda>_. retA mtu) s3 = (x, s')"
        using p3 unfolding bindA_Ret [of "forA (setupNetwork Y r mtu) (cs_Networks spec)" s2, OF 3 [unfolded z]] .
      then show ?thesis using n2 n3 n4 c unfolding bindA_def 4 by (auto simp: retA_def split: res.splits)
    qed (use p3 n2 n3 c 3 in \<open>auto simp: bindA_def\<close>)
  qed (use assms(5) 2 n2 h2 c in \<open>auto simp: pr bindA_def\<close>)
qed

lemma setupBody_held:
  assumes "\<not> r_Force r" "\<forall>p. hookable (tbl (hst s) p)" "startable spec (lk (hst s))" "ce_cl s = NewCluster spec"
    "distinct (sc_nodes sc)" "set (sc_nodes sc) \<subseteq> {..<length (cs_Nodes spec)}" "setupBody Y sc r s = Some (x, s')"
  shows "held (lk (hst s)) (tbl (hst s)) s'"
proof -
  let ?l = "lk (hst s)" and ?t = "tbl (hst s)"
  obtain y s1 where 1: "prologue Y r s = (y, s1)" by force
  note n1 = prologue_held [OF assms(1-4) 1]
  show ?thesis
  proof (cases y)
    case (Ret mtu)
    obtain z s2 where 2: "setupNodes Y r mtu (sc_nodes sc) s1 = Some (z, s2)" using assms(7) 1 Ret by (auto simp: setupBody_def split: option.splits)
    have n2: "held ?l ?t s2 \<and> cl_spec (ce_cl s2) = cl_spec (ce_cl s1)"
      by (rule setupNodes_held [OF _ _ assms(5) 2]) (use n1 Ret assms(6) in auto)
    show ?thesis
    proof (cases "ce_dead s2")
      case True
      then show ?thesis using assms(7) 1 2 Ret n2 by (simp add: setupBody_def)
    next
      case False
      obtain a s3 where 3: "(case z of Ret _ \<Rightarrow> serve Y sc r mtu s2 | _ \<Rightarrow> (z, s2)) = (a, s3)" by force
      have ns: "cs_NetNSs (cl_spec (ce_cl s2)) = []" using n2 n1 assms(3) by (simp add: startable_def)
      have h3: "held ?l ?t s3" using 3 n2 serve_held [of ?l ?t s2 sc r mtu a s3] ns by (cases z) auto
      obtain b s4 where 4: "cleanupVMs Y s3 = (b, s4)" by force
      have h4: "held ?l ?t s4" using h3 cleanupVMs_same [OF 4] by (simp add: held_def)
      have "deferP (\<lambda>t. Some (case z of Ret _ \<Rightarrow> serve Y sc r mtu t | _ \<Rightarrow> (z, t))) (cleanupVMs Y) s2 = Some (x, s')"
        using assms(7) unfolding setupBody_def 1 Ret prod.case res.case 2 option.case using False by simp
      then show ?thesis using h3 h4 unfolding deferP_def 3 option.case prod.case 4 by (auto split: if_splits res.splits)
    qed
  qed (use assms(7) 1 n1 in \<open>auto simp: setupBody_def\<close>)
qed

subsection \<open>Cleanup\<close>

text \<open>Links outside \<open>own\<close> are the initial ones, and those of \<open>D\<close> are gone.\<close>

definition purged :: "string set \<Rightarrow> links \<Rightarrow> (proto \<Rightarrow> string \<Rightarrow> table) \<Rightarrow> string set \<Rightarrow> 'w \<Rightarrow> bool" where
  "purged own l0 t D w \<longleftrightarrow> tbl w = t \<and> (\<forall>x. x \<notin> own \<longrightarrow> lk w x = l0 x) \<and> (\<forall>x \<in> D. lk w x = None)"

lemma purged_drop:
  assumes "links_ok l0" "own \<inter> dom l0 = {}" "y \<in> own" "purged own l0 t D w" "tbl w' = tbl w"
    "lk w' = (if lk w y = None then lk w else without_link y (lk w))"
  shows "purged own l0 t (insert y D) w'"
proof -
  have new: "l0 y = None" using assms(2,3) by blast
  have "lk w' x = l0 x" if x: "x \<notin> own" for x
  proof -
    have "ls_master st \<noteq> Some y" if "l0 x = Some st" for st using assms(1) new that unfolding links_ok_def by metis
    moreover have "lk w x = l0 x" "x \<noteq> y" using assms(3,4) x by (auto simp: purged_def)
    ultimately show ?thesis unfolding assms(6) by (cases "l0 x") (auto simp: without_link_def)
  qed
  moreover have "lk w' x = None" if "x \<in> insert y D" for x
    using that assms(4) unfolding assms(6) by (auto simp: without_link_def purged_def)
  ultimately show ?thesis using assms(4,5) by (simp add: purged_def)
qed

lemma networks_purged:
  assumes "links_ok l0" "own \<inter> dom l0 = {}" "nw_name ` set ns \<subseteq> own" "purged own l0 t D w"
  shows "\<exists>w'. forA (network_Cleanup (y_netlink Y)) ns w = (Ret (), w') \<and> purged own l0 t (D \<union> nw_name ` set ns) w'"
  using assms(3,4)
proof (induction ns arbitrary: w D)
  case Nil
  then show ?case by (simp add: retA_def)
next
  case (Cons n ns)
  obtain w1 where w1: "network_Cleanup (y_netlink Y) n w = (Ret (), w1)" "tbl w1 = tbl w"
    "lk w1 = (if lk w (nw_name n) = None then lk w else without_link (nw_name n) (lk w))"
    using network_Cleanup_brings [of n w] by (auto simp: brings_def)
  have "purged own l0 t (insert (nw_name n) D) w1"
    by (rule purged_drop [OF assms(1,2) _ Cons.prems(2) w1(2,3)]) (use Cons.prems(1) in simp)
  from Cons.IH [OF _ this] Cons.prems(1) w1(1) show ?case by (auto simp: bindA_def)
qed

lemma taps_purged:
  assumes "links_ok l0" "own \<inter> dom l0 = {}" "'''' \<notin> own" "fst ` set (made ts) \<subseteq> own" "purged own l0 t D w"
  shows "\<exists>w'. forA (tap_Cleanup (y_netlink Y)) ts w = (Ret (), w') \<and> purged own l0 t (D \<union> fst ` set (made ts)) w'"
  using assms(4,5)
proof (induction ts arbitrary: w D)
  case Nil
  then show ?case by (simp add: retA_def made_def)
next
  case (Cons t' ts)
  obtain w1 where w1: "tap_Cleanup (y_netlink Y) t' w = (Ret (), w1)" "tbl w1 = tbl w"
    "lk w1 = (if lk w (tp_tapName t') = None then lk w else without_link (tp_tapName t') (lk w))" using tap_Cleanup_brings by blast
  show ?case
  proof (cases "tp_tapName t' = ''''")
    case True
    have "lk w '''' = None" using Cons.prems(2) assms(1,3) by (simp add: purged_def links_ok_def)
    then have "purged own l0 t D w1" using w1 True Cons.prems(2) by (simp add: purged_def)
    moreover have m: "made (t' # ts) = made ts" using True by (simp add: made_def)
    ultimately show ?thesis using Cons.IH [of D w1] Cons.prems(1) w1(1) by (auto simp: bindA_def)
  next
    case False
    have m: "made (t' # ts) = (tp_tapName t', l_name (tp_bridge t')) # made ts" using False by (simp add: made_def)
    have "purged own l0 t (insert (tp_tapName t') D) w1"
      by (rule purged_drop [OF assms(1,2) _ Cons.prems(2) w1(2,3)]) (use Cons.prems(1) m in simp)
    from Cons.IH [OF _ this] Cons.prems(1) w1(1) show ?thesis by (auto simp: bindA_def m)
  qed
qed

lemma nodes_purged:
  assumes "links_ok l0" "own \<inter> dom l0 = {}" "'''' \<notin> own" "(\<Union>n \<in> set ns. fst ` set (made (nd_taps n))) \<subseteq> own" "purged own l0 t D w"
  shows "\<exists>w'. forA (node_Cleanup (y_netlink Y)) ns w = (Ret (), w') \<and> purged own l0 t (D \<union> (\<Union>n \<in> set ns. fst ` set (made (nd_taps n)))) w'"
  using assms(4,5)
proof (induction ns arbitrary: w D)
  case Nil
  then show ?case by (simp add: retA_def)
next
  case (Cons n ns)
  obtain w1 where w1: "node_Cleanup (y_netlink Y) n w = (Ret (), w1)" "purged own l0 t (D \<union> fst ` set (made (nd_taps n))) w1"
    unfolding node_Cleanup_def using taps_purged [OF assms(1-3) _ Cons.prems(2), of "nd_taps n"] Cons.prems(1) by auto
  from Cons.IH [OF _ w1(2)] Cons.prems(1) w1(1) show ?case by (auto simp: bindA_def Un_assoc)
qed

lemma cluster_cleanup_restores:
  assumes h: "held l0 t0 s" and l0: "links_ok l0" and t0: "\<forall>p. hookable (t0 p)"
    "\<forall>p. \<not> jumps_to (t0 p ''filter'') ''PLACEMAT'' \<and> \<not> jumps_to (t0 p ''nat'') ''PLACEMAT''"
    and c: "cluster_cleanup Y s = (x, s')"
  shows "lk (hst s') = l0 \<and> tbl (hst s') = t0 \<and> ce_dead s' = ce_dead s"
proof -
  let ?c = "ce_cl s" and ?own = "owned (ce_cl s)"
  note hd = holdD [OF h [unfolded held_def]]
  let ?env = "\<lambda>w. s\<lparr>ce_env := (ce_env s)\<lparr>env_host := w\<rparr>\<rparr>"
  obtain w1 where w1: "CleanupNatRules (y_iptables Y) (hst s) = (Ret (), w1)" "lk w1 = lk (hst s)" "tbl w1 = t0"
    using CleanupNatRules_net [of "hst s"] chained_cleaned [OF hd(6) t0] by (auto simp: brings_def)
  have p1: "purged ?own l0 t0 {} w1" using w1 hd(1) by (simp add: purged_def)
  obtain w2 where w2: "forA (network_Cleanup (y_netlink Y)) (cl_networks ?c) w1 = (Ret (), w2)" "purged ?own l0 t0 (nw_name ` set (cl_networks ?c)) w2"
    using networks_purged [OF l0 hd(2) _ p1, of "cl_networks ?c"] by (auto simp: owned_def)
  obtain w3 where w3: "forA (node_Cleanup (y_netlink Y)) (cl_nodes ?c) w2 = (Ret (), w3)" "purged ?own l0 t0 ?own w3"
    using nodes_purged [OF l0 hd(2,7) _ w2(2), of "cl_nodes ?c"] by (auto simp: owned_def)
  have "l0 x = None" if "x \<in> ?own" for x using hd(2) that by blast
  then have "lk w3 x = l0 x" for x using w3(2) by (cases "x \<in> ?own") (simp_all add: purged_def)
  then have l3: "lk w3 = l0" "tbl w3 = t0" using w3(2) by (auto simp: purged_def)
  have "cluster_cleanup Y s = cleanupVMs Y (?env w3)"
    using w1(1) w2(1) w3(1) hd(5) by (simp add: cluster_cleanup_def bindA_def hostC_def onCl_def onHost_def getA_def retA_def)
  with c cleanupVMs_same [of "?env w3" x s'] l3 show ?thesis by simp
qed

subsection \<open>Panics that end the process\<close>

text \<open>The process dies only by a panic, which is then the outcome of \<open>Setup\<close>.\<close>

definition dies :: "('w clEnv, 'a) act \<Rightarrow> bool" where
  "dies m \<longleftrightarrow> (\<forall>s x s'. m s = (x, s') \<longrightarrow> \<not> ce_dead s \<longrightarrow> ce_dead s' \<longrightarrow> (\<exists>p. x = Panic p))"

lemma diesD: "dies m \<Longrightarrow> m s = (x, s') \<Longrightarrow> \<not> ce_dead s \<Longrightarrow> ce_dead s' \<Longrightarrow> \<exists>p. x = Panic p"
  by (auto simp: dies_def)

lemma dies_bindA: "dies m \<Longrightarrow> (\<And>x. dies (f x)) \<Longrightarrow> dies (bindA m f)"
  unfolding dies_def bindA_def by (auto split: prod.splits res.splits) blast+

lemma dies_same: "(\<And>s. ce_dead (snd (m s)) = ce_dead s) \<Longrightarrow> dies m"
  unfolding dies_def by (metis snd_conv)

lemma dies_hostC: "dies (hostC m)"
  by (rule dies_same) (simp add: hostC_def onCl_def split: prod.splits)

lemma dies_tryA: "dies m \<Longrightarrow> dies (tryA m)"
  unfolding dies_def tryA_def by (fastforce split: prod.splits res.splits)

lemma dies_forA: "(\<And>x. dies (f x)) \<Longrightarrow> dies (forA f xs)"
  by (induction xs) (simp_all add: dies_bindA dies_same [of "retA ()"] retA_def)

lemma dies_goAll: "dies (goAll (map goroutine ms))" if "\<And>m. m \<in> set ms \<Longrightarrow> dies m"
  using that
proof (induction ms)
  case Nil
  then show ?case by (simp add: dies_def)
next
  case (Cons m ms)
  have m: "dies (goroutine m)" using Cons.prems [of m] unfolding dies_def goroutine_def by (fastforce split: prod.splits res.splits)
  have IH: "dies (goAll (map goroutine ms))" using Cons by simp
  show ?case unfolding dies_def
  proof (intro allI impI)
    fix s x s' assume a: "goAll (map goroutine (m # ms)) s = (x, s')" "\<not> ce_dead s" "ce_dead s'"
    obtain y s1 where 1: "goroutine m s = (y, s1)" by force
    obtain z s2 where 2: "goAll (map goroutine ms) s1 = (z, s2)" by force
    show "\<exists>p. x = Panic p"
      using a 1 2 diesD [OF m 1 a(2)] diesD [OF IH 2] by (cases y; cases z) auto
  qed
qed

lemma dies_serve: "dies (serve Y sc r mtu)"
proof -
  have pure: "dies (getA g)" "dies (retA x)" "dies (failA e)" "dies (panicA p)" "dies (modCl k)" for g :: "'w clEnv \<Rightarrow> 'b" and x :: 'c and e p k
    by (auto intro!: dies_same simp: act_defs modCl_def)
  have "dies (bmcTask Y sc)" unfolding bmcTask_def by (intro dies_bindA dies_hostC pure)
  moreover have "dies (waitTask Y v)" for v by (cases v) (simp_all add: waitTask_def dies_hostC pure)
  moreover have "dies (netNSTask Y sc r mtu n)" for n by (rule dies_same) (simp add: netNSTask_def split: prod.splits)
  ultimately have tasks: "dies (bmcTask Y sc)" "dies (netNSTask Y sc r mtu n)" "dies (waitTask Y v)" for n v by blast+
  have net: "dies (startNetNS Y n)" for n unfolding startNetNS_def by (intro dies_bindA dies_hostC pure)
  have api: "dies (apiServer_start Y l)" for l by (cases l) (simp_all add: apiServer_start_def dies_hostC pure)
  have last: "dies (case v of Inl e \<Rightarrow> failA e | Inr y \<Rightarrow> retA ())" for v :: "err + unit" by (cases v) (simp_all add: pure)
  show ?thesis
    unfolding serve_def
    by (intro dies_bindA dies_forA dies_hostC dies_tryA dies_goAll pure net api last) (auto intro: tasks)
qed

lemma setupNodes_dies:
  "setupNodes Y r mtu is s = Some (x, s') \<Longrightarrow> \<not> ce_dead s \<Longrightarrow> ce_dead s' \<Longrightarrow> \<exists>p. x = Panic p"
proof (induction "is" arbitrary: s x s')
  case Nil
  then show ?case by simp
next
  case (Cons i "is")
  obtain y s1 where 1: "setupNode Y r mtu i s = Some (y, s1)" using Cons.prems(1) by (auto split: option.splits)
  obtain a n e where "node_Setup (y_files Y) (y_commands Y) (y_netlink Y) (y_procs Y) (y_vhostNetSupported Y) (cl_nodes (ce_cl s) ! i) r mtu (ce_env s) = Some (a, n, e)"
    using 1 unfolding setupNode_def by auto
  then have d: "ce_dead s1 \<longrightarrow> (\<exists>p. y = Panic p)" using 1 Cons.prems(2) by (cases a) (auto simp: setupNode_def Let_def)
  show ?case
  proof (cases y)
    case (Ret u)
    with Cons.prems 1 d Cons.IH [of s1 x s'] show ?thesis by simp
  next
    case (Fail e)
    then obtain z s2 where 2: "setupNodes Y r mtu is s1 = Some (z, s2)" using Cons.prems(1) 1 by (auto split: option.splits)
    then have "s' = s2" using Cons.prems(1) 1 Fail by (cases z) auto
    with Cons.IH [OF 2] Cons.prems d Fail 1 2 show ?thesis by (cases z) auto
  qed (use Cons.prems 1 in auto)
qed

lemma setupBody_dies:
  assumes "setupBody Y sc r s = Some (x, s')" "\<not> ce_dead s" "ce_dead s'" "prologue Y r s = (y, s1)" "\<not> ce_dead s1"
  shows "\<exists>p. x = Panic p"
proof (cases y)
  case (Ret mtu)
  obtain z s2 where 2: "setupNodes Y r mtu (sc_nodes sc) s1 = Some (z, s2)" using assms(1,4) Ret by (auto simp: setupBody_def split: option.splits)
  show ?thesis
  proof (cases "ce_dead s2")
    case True
    then show ?thesis using assms(1,4,5) 2 Ret setupNodes_dies [OF 2] by (simp add: setupBody_def)
  next
    case False
    obtain a s3 where 3: "(case z of Ret _ \<Rightarrow> serve Y sc r mtu s2 | _ \<Rightarrow> (z, s2)) = (a, s3)" by force
    have d: "ce_dead s3 \<longrightarrow> (\<exists>p. a = Panic p)" using 3 False diesD [OF dies_serve, of sc r mtu s2 a s3] by (cases z) auto
    obtain b s4 where 4: "cleanupVMs Y s3 = (b, s4)" by force
    have "deferP (\<lambda>t. Some (case z of Ret _ \<Rightarrow> serve Y sc r mtu t | _ \<Rightarrow> (z, t))) (cleanupVMs Y) s2 = Some (x, s')"
      using assms(1) unfolding setupBody_def assms(4) Ret prod.case res.case 2 option.case using False by simp
    then show ?thesis
      using assms(3) d cleanupVMs_same [OF 4] unfolding deferP_def 3 option.case prod.case 4 by (auto split: if_splits res.splits)
  qed
qed (use assms in \<open>auto simp: setupBody_def\<close>)

text \<open>\<open>Setup\<close> returns as soon as the setups of its nodes do.\<close>

lemma setupNodes_returns:
  assumes "\<And>n e. node_Setup (y_files Y) (y_commands Y) (y_netlink Y) (y_procs Y) (y_vhostNetSupported Y) n r mtu e \<noteq> None"
  shows "setupNodes Y r mtu is s \<noteq> None"
proof (induction "is" arbitrary: s)
  case (Cons i "is")
  obtain y where "node_Setup (y_files Y) (y_commands Y) (y_netlink Y) (y_procs Y) (y_vhostNetSupported Y) (cl_nodes (ce_cl s) ! i) r mtu (ce_env s) = Some y"
    using assms by blast
  then have "setupNode Y r mtu i s \<noteq> None" by (simp add: setupNode_def)
  then obtain x s1 where 1: "setupNode Y r mtu i s = Some (x, s1)" by auto
  obtain z s2 where 2: "setupNodes Y r mtu is s1 = Some (z, s2)" using Cons [of s1] by auto
  show ?case using 1 2 by (cases x; cases z) simp_all
qed simp

lemma setup_teardown:
  assumes "\<not> r_Force r" "\<forall>p. hookable (tbl (hst s) p)" "startable spec (lk (hst s))" "ce_cl s = NewCluster spec"
    "distinct (sc_nodes sc)" "set (sc_nodes sc) \<subseteq> {..<length (cs_Nodes spec)}" "links_ok (lk (hst s))"
    "\<forall>p. \<not> jumps_to (tbl (hst s) p ''filter'') ''PLACEMAT'' \<and> \<not> jumps_to (tbl (hst s) p ''nat'') ''PLACEMAT''" "\<not> ce_dead s"
    "\<And>n mtu e. node_Setup (y_files Y) (y_commands Y) (y_netlink Y) (y_procs Y) (y_vhostNetSupported Y) n r mtu e \<noteq> None"
  shows "\<exists>x s'. cluster_Setup Y sc r s = Some (x, s') \<and>
    (if ce_dead s' then \<exists>p. x = Panic p else lk (hst s') = lk (hst s) \<and> tbl (hst s') = tbl (hst s))"
proof -
  obtain y s1 where 1: "prologue Y r s = (y, s1)" by force
  note n1 = prologue_held [OF assms(1-4) 1]
  have "setupBody Y sc r s \<noteq> None"
  proof (cases y)
    case (Ret mtu)
    obtain z where "setupNodes Y r mtu (sc_nodes sc) s1 = Some z" using setupNodes_returns [OF assms(10)] by blast
    then show ?thesis using 1 Ret by (auto simp: setupBody_def deferP_def split: prod.splits)
  qed (use 1 in \<open>simp_all add: setupBody_def\<close>)
  then obtain x s2 where 2: "setupBody Y sc r s = Some (x, s2)" by auto
  show ?thesis
  proof (cases "ce_dead s2")
    case True
    then show ?thesis using 2 setupBody_dies [OF 2 assms(9) _ 1] n1 assms(9) by (simp add: cluster_Setup_def deferP_def)
  next
    case False
    obtain z s3 where 3: "cluster_cleanup Y s2 = (z, s3)" by force
    note c = cluster_cleanup_restores [OF setupBody_held [OF assms(1-6) 2] assms(7,2,8) 3]
    with 2 3 False show ?thesis by (cases z) (simp_all add: cluster_Setup_def deferP_def)
  qed
qed

text \<open>Without nodes and BMCs no goroutine can panic.\<close>

lemma idle_alive:
  assumes "sc_nodes sc = []" "sc_infos sc = []" "cs_NetNSs spec = []" "ce_cl s = NewCluster spec" "\<not> ce_dead s"
    "cluster_Setup Y sc r s = Some (x, s')"
  shows "\<not> ce_dead s'"
proof -
  let ?I = "\<lambda>t. \<not> ce_dead t \<and> cl_vms (ce_cl t) = [] \<and> cl_netNss (ce_cl t) = [] \<and> cl_spec (ce_cl t) = spec"
  have host: "keeps ?I (hostC m)" for m :: "('w, 'b) act" by (auto simp: keeps_def hostC_def onCl_def split: prod.splits)
  have mod: "keeps ?I (modCl f)" if "\<And>c. cl_vms (f c) = cl_vms c \<and> cl_netNss (f c) = cl_netNss c \<and> cl_spec (f c) = cl_spec c" for f
    unfolding modCl_def using that by (intro keep_intros) simp
  obtain y s1 where 1: "prologue Y r s = (y, s1)" by force
  have "keeps ?I (prologue Y r)"
    unfolding prologue_def setupNetwork_def prepareNode_def by (intro keeps_bindA keeps_if keeps_forA keeps_pure host mod) simp_all
  from keepsD [OF this _ 1] have i1: "?I s1" using assms(4,5) by (simp add: NewCluster_def)
  have alive: "\<not> ce_dead s3" if s: "serve Y sc r mtu s1 = (a, s3)" for mtu a s3
  proof -
    let ?rest = "bindA (hostC (orNil (k_ResolveTCPAddr (y_sockets Y) (r_ListenAddr r)))) (\<lambda>addr.
       bindA (hostC (orNil (k_ListenTCP (y_sockets Y) addr))) (\<lambda>listener.
       bindA (tryA (goAll [goroutine (bmcTask Y sc)])) (\<lambda>waited.
       bindA (apiServer_start Y listener) (\<lambda>_.
       case waited of Inl e \<Rightarrow> failA e | Inr _ \<Rightarrow> retA ()))))"
    have e: "serve Y sc r mtu s1 = ?rest s1" using i1 assms(3) by (simp add: serve_def)
    have "goroutine (bmcTask Y sc) t = (Ret (), t)" for t
      by (simp add: goroutine_def bmcTask_def assms(2) bmcServer_Start_def hostC_def onCl_def onHost_def bindA_def retA_def getA_def)
    then have g: "keeps ?I (goAll [goroutine (bmcTask Y sc)])" by (simp add: keeps_def)
    have api: "keeps ?I (apiServer_start Y l)" for l by (cases l) (simp_all add: apiServer_start_def host)
    have "keeps ?I ?rest" by (intro keeps_bindA host keeps_tryA g api keeps_cases keeps_pure)
    from keepsD [OF this i1 s [unfolded e]] show ?thesis by simp
  qed
  have body: "\<not> ce_dead s2" if b: "setupBody Y sc r s = Some (z, s2)" for z s2
  proof (cases y)
    case (Ret mtu)
    obtain a s3 where 3: "serve Y sc r mtu s1 = (a, s3)" by force
    obtain c s4 where 4: "cleanupVMs Y s3 = (c, s4)" by force
    have "deferP (\<lambda>t. Some (serve Y sc r mtu t)) (cleanupVMs Y) s1 = Some (z, s2)"
      using b i1 unfolding setupBody_def 1 Ret prod.case res.case assms(1) setupNodes.simps option.case by simp
    then show ?thesis using alive [OF 3] cleanupVMs_same [OF 4] unfolding deferP_def 3 option.case prod.case 4 by (auto split: res.splits)
  qed (use b 1 i1 in \<open>auto simp: setupBody_def\<close>)
  obtain z s2 where 2: "setupBody Y sc r s = Some (z, s2)" using assms(6) by (auto simp: cluster_Setup_def deferP_def split: option.splits)
  obtain a s3 where 3: "cluster_cleanup Y s2 = (a, s3)" by force
  have h: "keeps (\<lambda>t. \<not> ce_dead t) (hostC m)" for m :: "('w, 'b) act" by (auto simp: keeps_def hostC_def onCl_def split: prod.splits)
  have "keeps (\<lambda>t. \<not> ce_dead t) (cluster_cleanup Y)"
    unfolding cluster_cleanup_def cleanupVMs_def by (intro keeps_bindA keeps_pure keeps_forA keeps_cases h)
  from keepsD [OF this body [OF 2] 3] show ?thesis
    using assms(6) body [OF 2] unfolding cluster_Setup_def deferP_def 2 option.case prod.case 3 by (auto split: res.splits)
qed

text \<open>A network whose name is taken: \<open>Setup\<close> fails, and its cleanup deletes the link.\<close>

lemma taken_name:
  assumes "\<not> r_Force r" "\<forall>p. hookable (tbl (hst s) p)" "ce_cl s = NewCluster spec" "\<not> ce_dead s" "cs_Networks spec = nspec # rest"
    "NewNetwork (y_netlink Y) nspec = Ret n" "lk (hst s) (nw_name n) = Some st" "y_DetectMTU Y = retA mtu"
  shows "\<exists>e s'. cluster_Setup Y sc r s = Some (Fail e, s') \<and> lk (hst s') = without_link (nw_name n) (lk (hst s))"
proof -
  let ?env = "\<lambda>w. s\<lparr>ce_env := (ce_env s)\<lparr>env_host := w\<rparr>\<rparr>"
  let ?c = "(NewCluster spec)\<lparr>cl_networks := [n], cl_networkMap := [net_Name nspec \<mapsto> n]\<rparr>"
  obtain w1 where w1: "CreateNatRules (y_iptables Y) (hst s) = (Ret (), w1)" "lk w1 = lk (hst s)"
    using CreateNatRules_net [OF assms(2)] by (auto simp: brings_def)
  obtain e w2 where w2: "n_LinkAdd (y_netlink Y) (BridgeReq (nw_name n)) w1 = (Fail e, w2)" "lk w2 = lk (hst s)"
    using add_exists [of w1 "BridgeReq (nw_name n)"] assms(7) w1(2) by auto
  have net: "\<exists>e'. network_Setup (y_netlink Y) (y_iptables Y) n mtu (r_Force r) w1 = (Fail e', w2)"
    using assms(1) w2(1) by (simp add: network_Setup_def setupBridge_def bindA_def wrapA_def)
  then obtain e2 where p: "prologue Y r s = (Fail e2, (?env w2)\<lparr>ce_cl := ?c\<rparr>)"
    using assms(1,3,5,6,8) w1(1)
    by (auto simp: prologue_def setupNetwork_def modCl_def hostC_def onCl_def onHost_def bindA_def wrapA_def retA_def getA_def modifyA_def liftA_def
        NewCluster_def)
  obtain w3 where w3: "CleanupNatRules (y_iptables Y) w2 = (Ret (), w3)" "lk w3 = lk (hst s)"
    using CleanupNatRules_net [of w2] w2(2) by (auto simp: brings_def)
  obtain w4 where w4: "network_Cleanup (y_netlink Y) n w3 = (Ret (), w4)" "lk w4 = without_link (nw_name n) (lk (hst s))"
    using network_Cleanup_brings [of n w3] w3(2) assms(7) by (auto simp: brings_def)
  have "cluster_cleanup Y ((?env w2)\<lparr>ce_cl := ?c\<rparr>) = (Ret (), (?env w4)\<lparr>ce_cl := ?c\<rparr>)"
    using w3(1) w4(1)
    by (simp add: cluster_cleanup_def cleanupVMs_def hostC_def onCl_def onHost_def bindA_def getA_def retA_def NewCluster_def)
  with p w4(2) assms(4) show ?thesis by (simp add: cluster_Setup_def deferP_def setupBody_def)
qed

end

subsection \<open>The executable host\<close>

text \<open>A host without network namespaces.\<close>

definition noNetns :: "'w netns" where
  "noNetns =
     (let no = ErrNew ''operation not permitted''
      in \<lparr>ns_Get = failA no, ns_NewNamed = (\<lambda>x. failA no), ns_Set = (\<lambda>h. failA no), ns_CloseHandle = (\<lambda>h. failA no),
          ns_DeleteNamed = (\<lambda>x. failA no), ns_GetNS = (\<lambda>p. failA no), ns_Close = (\<lambda>h. failA no), ns_Do = (\<lambda>h f. failA no),
          ns_SetupVethWithName = (\<lambda>c x m h. failA no), ns_Sysctl = (\<lambda>k v. failA no)\<rparr>)"

definition refHost :: "refProcs host" where
  "refHost =
     \<lparr>y_files = refFiles, y_http = refHttp Map.empty, y_netlink = refNetlink, y_iptables = refIptables, y_commands = refCommands,
      y_procs = refProcs_of, y_sockets = refSockets, y_netns = noNetns, y_DetectMTU = retA 1460, y_Serve = (\<lambda>h. retA ()),
      y_vhostNetSupported = True, y_nsRunDir = ''/var/run/netns''\<rparr>"

text \<open>Files, commands and processes of this host touch neither links nor tables.\<close>

definition netless :: "('z refLinks_scheme, 'a) act \<Rightarrow> bool" where
  "netless m \<longleftrightarrow> (\<forall>w. rl_links (snd (m w)) = rl_links w \<and> rk_tables (snd (m w)) = rk_tables w)"

lemma netless_apart: "netless m \<Longrightarrow> apart ref_lk rk_tables m"
  by (simp add: netless_def apart_def keeps_def ref_lk_def)

lemma netless_faulty: "netless m \<Longrightarrow> netless (faulty m)"
  by (auto simp: netless_def faulty_def split: list.splits option.splits)

lemma netless_refs:
  "netless (retA x)" "netless (ref_open p)" "netless (ref_writer p c)" "netless (ref_createtemp d q)" "netless (ref_copy h k)" "netless (ref_unzip h)"
  "netless (ref_run a)" "netless (modifyA (\<lambda>w. w\<lparr>rf_dirs := f w\<rparr>))"
  by (auto simp: netless_def act_defs ref_open_def ref_writer_def ref_createtemp_def ref_copy_def ref_unzip_def ref_run_def bindA_def Let_def
      split: option.splits if_splits)

interpretation rdc: datacenter refHost rk_tables ref_lk
proof (unfold datacenter_def datacenter_axioms_def refHost_def host.select_convs, intro conjI allI rsock.socket_host_axioms)
qed (auto intro!: netless_apart netless_faulty netless_refs simp: refFiles_sel refCommands_def refHttp_def refProcs_of_def ref_lk_def,
    auto simp: netless_def ref_writer_def split: option.splits list.splits)

subsection \<open>Properties\<close>

text \<open>
  \<open>Setup\<close> of a cluster whose networks are valid, distinct and new on the host, whose nodes
  use these networks and which has no network namespaces returns once the context has a
  deadline, in whatever order its nodes are set up, whatever guests announce and whichever
  step fails. Unless a goroutine has panicked, which ends the process, all links of the host
  and all rules of its packet filter are those from before: every bridge, tap, chain and
  address of the cluster is gone and nothing else has changed.
\<close>

lemma cluster_teardown_restores:
  assumes "datacenter Y tbl lk" "deadline (y_files Y) (y_procs Y) clock ended" "\<not> r_Force r" "ce_cl s = NewCluster spec" "\<not> ce_dead s"
    "startable spec (lk (hst s))" "links_ok (lk (hst s))" "\<forall>p. hookable (tbl (hst s) p)"
    "\<forall>p. \<not> jumps_to (tbl (hst s) p ''filter'') ''PLACEMAT'' \<and> \<not> jumps_to (tbl (hst s) p ''nat'') ''PLACEMAT''"
    "distinct (sc_nodes sc)" "set (sc_nodes sc) = {..<length (cs_Nodes spec)}"
  shows "\<exists>x s'. cluster_Setup Y sc r s = Some (x, s') \<and>
    (if ce_dead s' then \<exists>p. x = Panic p else lk (hst s') = lk (hst s) \<and> tbl (hst s') = tbl (hst s))"
proof (rule datacenter.setup_teardown [OF assms(1,3,8,6,4,10) _ assms(7,9,5)])
  show "node_Setup (y_files Y) (y_commands Y) (y_netlink Y) (y_procs Y) (y_vhostNetSupported Y) n r mtu e \<noteq> None" for n mtu e
    using node_Setup_ends [OF assms(2), of "y_commands Y" "y_netlink Y" "y_vhostNetSupported Y" n r mtu e] by auto
qed (simp add: assms(11))

definition rackSpec :: ClusterSpec where
  "rackSpec =
     \<lparr>cs_Networks = [\<lparr>net_Name = ''pod0'', net_Type = ''internal'', net_UseNAT = False, net_Address = ''''\<rparr>],
      cs_NetNSs = [], cs_DeviceClasses = [], cs_Nodes = [], cs_Images = []\<rparr>"

definition rackHost :: "refProcs clEnv" where
  "rackHost =
     \<lparr>ce_env = \<lparr>env_host = refLinks.extend exampleNet \<lparr>rp_future = []\<rparr>, env_rng = []\<rparr>,
      ce_cl = NewCluster rackSpec, ce_dead = False\<rparr>"

definition rackSchedule :: schedule where
  "rackSchedule = \<lparr>sc_nodes = [], sc_apps = (\<lambda>as. as), sc_infos = []\<rparr>"

definition rackRuntime :: Runtime where
  "rackRuntime = \<lparr>r_Force = False, r_Graphic = False, r_RunDir = ''/run'', r_DataDir = ''/data'', r_ListenAddr = ''127.0.0.1:10808'',
     r_ImageCacheDir = ''/cache''\<rparr>"

lemma rack_links: "ref_lk (hst rackHost) = [''eth0'' \<mapsto> newLink KOther, ''pm_tap00010203'' \<mapsto> newLink (KTap None)]"
  "rk_tables (hst rackHost) p t = [''FORWARD'' \<mapsto> [], ''POSTROUTING'' \<mapsto> [[''-s'', ''10.1.0.0/16'', ''-j'', ''MASQUERADE'']]]"
  by (simp_all add: rackHost_def exampleNet_def exampleKernel_def ref_lk_def refLinks.defs refKernel.defs fun_upd_twist)

lemma rack_ready:
  "startable rackSpec (ref_lk (hst rackHost))" "links_ok (ref_lk (hst rackHost))" "hookable (rk_tables (hst rackHost) p)"
  "\<not> jumps_to (rk_tables (hst rackHost) p t) ''PLACEMAT''"
  by (auto simp: startable_def rackSpec_def network_ok_def link_name_ok_def rack_links links_ok_def newLink_def hookable_def jumps_to_def split: if_splits)

text \<open>
  C40. \<open>Setup\<close> appends a network before it makes the bridge. When the host has a link of that name,
  which placemat did not make, \<open>Setup\<close> fails as it should, but the deferred cleanup
  deletes the link.
\<close>

theorem failed_setup_deletes_foreign_link:
  assumes "datacenter Y tbl lk" "\<not> r_Force r" "\<forall>p. hookable (tbl (hst s) p)" "ce_cl s = NewCluster spec" "\<not> ce_dead s"
    "cs_Networks spec = nspec # rest" "network_ok nspec" "NewNetwork (y_netlink Y) nspec = Ret n"
    "lk (hst s) (net_Name nspec) = Some st" "y_DetectMTU Y = retA mtu"
  shows "\<exists>e s'. cluster_Setup Y sc r s = Some (Fail e, s') \<and> lk (hst s') (net_Name nspec) = None"
  using datacenter.taken_name [OF assms(1-6,8) _ assms(10), of st sc] NewNetwork_valid [OF assms(8,7)] assms(9)
  by (auto simp: without_link_def)

definition takenSpec :: ClusterSpec where
  "takenSpec = rackSpec\<lparr>cs_Networks := [\<lparr>net_Name = ''eth0'', net_Type = ''internal'', net_UseNAT = False, net_Address = ''''\<rparr>]\<rparr>"

theorem failed_setup_deletes_foreign_link_witness:
  "ref_lk (hst rackHost) ''eth0'' \<noteq> None \<and>
   (\<exists>e s'. cluster_Setup refHost rackSchedule rackRuntime (rackHost\<lparr>ce_cl := NewCluster takenSpec\<rparr>) = Some (Fail e, s') \<and>
     ref_lk (hst s') ''eth0'' = None)"
proof -
  let ?s = "rackHost\<lparr>ce_cl := NewCluster takenSpec\<rparr>"
  let ?n = "\<lparr>net_Name = ''eth0'', net_Type = ''internal'', net_UseNAT = False, net_Address = ''''\<rparr>"
  have c: "\<not> r_Force rackRuntime" "ce_cl ?s = NewCluster takenSpec" "\<not> ce_dead ?s" "cs_Networks takenSpec = ?n # []" "network_ok ?n"
    "NewNetwork (y_netlink refHost) ?n = Ret \<lparr>nw_name = ''eth0'', nw_typ = ''internal'', nw_useNAT = False, nw_addr = None\<rparr>"
    "y_DetectMTU refHost = retA 1460" "ref_lk (hst ?s) (net_Name ?n) = Some (newLink KOther)" "\<forall>p. hookable (rk_tables (hst ?s) p)"
    using rack_ready(3) rack_links(1)
    by (simp_all add: rackRuntime_def rackHost_def takenSpec_def rackSpec_def network_ok_def NewNetwork_def refHost_def)
  from failed_setup_deletes_foreign_link [OF rdc.datacenter_axioms c(1,9,2-6,8,7)] c(8) show ?thesis by simp
qed

end
