(* ===== verification/Run.thy ===== *)
theory Run
  imports Teardown RuntimeInit
begin

text \<open>
  The command \<open>placemat2\<close>, \<open>v2/cmd/placemat2/sub/run.go\<close>: from the arguments to the end of
  \<open>Setup\<close>. Flags, the working directory and the environment are parameters, as is how the frame
  reader of package \<open>json\<close> sees an open file.
\<close>

subsection \<open>Loading the resources\<close>

record config =
  cf_runDir :: string
  cf_cacheDir :: string
  cf_dataDir :: string
  cf_sharedDir :: string
  cf_listenAddr :: string
  cf_graphic :: bool
  cf_debug :: bool
  cf_force :: bool

text \<open>The settings without any flag.\<close>

definition defaultConfig :: config where
  "defaultConfig =
     \<lparr>cf_runDir = ''/tmp'', cf_cacheDir = '''', cf_dataDir = ''/var/scratch/placemat'', cf_sharedDir = '''',
      cf_listenAddr = ''127.0.0.1:10808'', cf_graphic = False, cf_debug = False, cf_force = False\<rparr>"

definition loadClusterFromFile ::
  "'w files \<Rightarrow> yaml \<Rightarrow> 'f reader \<Rightarrow> (nat \<Rightarrow> 'w \<Rightarrow> 'f) \<Rightarrow> string \<Rightarrow> 'w \<Rightarrow> (ClusterSpec res \<times> 'w) option" where
  "loadClusterFromFile F D rd frames p w =
     (case f_Open F p w of
        (Ret f, w1) \<Rightarrow> map_option (\<lambda>r. deferA (liftA r) (f_Close F f) w1) (Parse D rd (frames f w1))
      | (Fail e, w1) \<Rightarrow> Some (Fail e, w1)
      | (Panic q, w1) \<Rightarrow> Some (Panic q, w1))"

text \<open>The loop of \<open>loadClusterFromFiles\<close>, with the cluster so far.\<close>

fun loadFiles ::
  "'w files \<Rightarrow> yaml \<Rightarrow> 'f reader \<Rightarrow> (nat \<Rightarrow> 'w \<Rightarrow> 'f) \<Rightarrow> ClusterSpec \<Rightarrow> string list \<Rightarrow> 'w \<Rightarrow> (ClusterSpec res \<times> 'w) option" where
  "loadFiles F D rd frames cluster [] w = Some (Ret cluster, w)"
| "loadFiles F D rd frames cluster (p # ps) w =
     (case loadClusterFromFile F D rd frames p w of
        None \<Rightarrow> None
      | Some (Ret c, w1) \<Rightarrow> loadFiles F D rd frames (ClusterSpec_Append cluster c) ps w1
      | Some (Fail e, w1) \<Rightarrow> Some (Fail e, w1)
      | Some (Panic q, w1) \<Rightarrow> Some (Panic q, w1))"

definition loadClusterFromFiles ::
  "'w files \<Rightarrow> yaml \<Rightarrow> 'f reader \<Rightarrow> (nat \<Rightarrow> 'w \<Rightarrow> 'f) \<Rightarrow> string list \<Rightarrow> 'w \<Rightarrow> (ClusterSpec res \<times> 'w) option" where
  "loadClusterFromFiles F D rd frames args = loadFiles F D rd frames emptyCluster args"

subsection \<open>run\<close>

record 'w os =
  o_Chdir :: "string \<Rightarrow> ('w, unit) act"
  o_Getenv :: "string \<Rightarrow> string"
  o_ScanLines :: "nat \<Rightarrow> ('w, string list) act"

definition filepath_Dir :: "string \<Rightarrow> string" where
  "filepath_Dir p = filepath_Clean (rev (dropWhile (\<lambda>c. c \<noteq> CHR ''/'') (rev p)))"

definition cacheDirOf :: "'w os \<Rightarrow> config \<Rightarrow> string" where
  "cacheDirOf S cfg =
     (if cf_cacheDir cfg = '''' then
        (if o_Getenv S ''SUDO_USER'' \<noteq> '''' then ''/home/'' @ o_Getenv S ''SUDO_USER'' @ ''/placemat_data'' else cf_dataDir cfg)
      else cf_cacheDir cfg)"

text \<open>Up to the runtime: the absolute paths, whether vhost-net is there, and the runtime.\<close>

definition startRun :: "'w host \<Rightarrow> 'w os \<Rightarrow> config \<Rightarrow> string list \<Rightarrow> ('w, string list \<times> bool \<times> Runtime) act" where
  "startRun Y S cfg yamls =
     (if yamls = [] then failA (ErrNew ''no YAML files specified'')
      else
        bindA (mapA (f_Abs (y_files Y)) yamls) (\<lambda>paths.
        bindA (ignoreA (o_Chdir S (filepath_Dir (hd paths)))) (\<lambda>_.
        bindA (LoadModules (y_files Y) (y_commands Y) (o_ScanLines S)) (\<lambda>vhost.
        bindA (NewRuntime (y_files Y) (cf_force cfg) (cf_graphic cfg) (cf_runDir cfg) (cf_dataDir cfg) (cacheDirOf S cfg) (cf_listenAddr cfg)) (\<lambda>r.
        retA (paths, vhost, r))))))"

text \<open>The last component of the result says that a goroutine has panicked.\<close>

definition run ::
  "'w host \<Rightarrow> 'w os \<Rightarrow> yaml \<Rightarrow> 'f reader \<Rightarrow> (nat \<Rightarrow> 'w \<Rightarrow> 'f) \<Rightarrow> config \<Rightarrow> schedule \<Rightarrow> string list \<Rightarrow> 'w env
   \<Rightarrow> (unit res \<times> 'w env \<times> bool) option" where
  "run Y S D rd frames cfg sc yamls e =
     (case startRun Y S cfg yamls (env_host e) of
        (Ret (paths, vhost, r), w1) \<Rightarrow>
          (case loadClusterFromFiles (y_files Y) D rd frames paths w1 of
             None \<Rightarrow> None
           | Some (Ret spec, w2) \<Rightarrow>
               map_option (\<lambda>(x, s). (x, ce_env s, ce_dead s))
                 (cluster_Setup (Y\<lparr>y_vhostNetSupported := vhost\<rparr>) sc r
                    \<lparr>ce_env = e\<lparr>env_host := w2\<rparr>, ce_cl = NewCluster spec, ce_dead = False\<rparr>)
           | Some (Fail er, w2) \<Rightarrow> Some (Fail er, e\<lparr>env_host := w2\<rparr>, False)
           | Some (Panic p, w2) \<Rightarrow> Some (Panic p, e\<lparr>env_host := w2\<rparr>, False))
      | (Fail er, w1) \<Rightarrow> Some (Fail er, e\<lparr>env_host := w1\<rparr>, False)
      | (Panic p, w1) \<Rightarrow> Some (Panic p, e\<lparr>env_host := w1\<rparr>, False))"

subsection \<open>Which documents are loaded\<close>

text \<open>
  The frame reader of an open file delivers the documents of the content that the file had when
  it was opened.
\<close>

locale yaml_files = filesystem F view + fr: frame_reader rd docs
  for F :: "'w files" and view :: "'w \<Rightarrow> fview" and rd :: "'f reader" and docs :: "'f \<Rightarrow> bytes list" +
  fixes frames :: "nat \<Rightarrow> 'w \<Rightarrow> 'f" and split :: "bytes \<Rightarrow> bytes list"
  assumes frames_law: "fv_src (view w) h = Some c \<Longrightarrow> docs (frames h w) = split c"
    and open_no_panic: "f_Open F p w \<noteq> (Panic x, w')"

definition documents :: "(bytes \<Rightarrow> bytes list) \<Rightarrow> (string \<rightharpoonup> bytes) \<Rightarrow> string list \<Rightarrow> bytes list" where
  "documents split fs ps = concat (map (\<lambda>p. case fs p of None \<Rightarrow> [] | Some c \<Rightarrow> split c) ps)"

context yaml_files
begin

text \<open>One file: \<open>Open\<close> fails, or the result is that of its documents.\<close>

lemma load_file:
  assumes "\<forall>d \<in> set (documents split (fv_file (view w)) [p]). length d \<le> maxBytes"
  shows "\<exists>r w'. loadClusterFromFile F D rd frames p w = Some (r, w') \<and> fv_file (view w') = fv_file (view w) \<and>
    (r = parse_docs D emptyCluster (documents split (fv_file (view w)) [p]) \<or> (\<exists>e. r = Fail e \<and> (\<exists>v v'. f_Open F p v = (Fail e, v'))))"
proof -
  obtain o1 w1 where o1: "f_Open F p w = (o1, w1)" by force
  have same: "fv_file (view w1) = fv_file (view w)" using open_files [of p] o1 by (auto simp: same_files_def)
  show ?thesis
  proof (cases o1)
    case (Ret h)
    then obtain c where c: "fv_file (view w) p = Some c" "fv_src (view w1) h = Some c" using open_law o1 by fastforce
    let ?r = "parse_docs D emptyCluster (split c)"
    have "Parse D rd (frames h w1) = Some ?r"
      using fr.parseLoop_docs [OF refl, of "frames h w1" D emptyCluster] assms c by (simp add: Parse_def frames_law documents_def)
    moreover obtain r2 w2 where r2: "deferA (liftA ?r) (f_Close F h) w1 = (r2, w2)" by force
    moreover have "r2 = ?r \<and> fv_file (view w2) = fv_file (view w1)" using defer_close [OF r2] by (auto simp: liftA_def)
    ultimately show ?thesis using o1 Ret same c by (simp add: loadClusterFromFile_def documents_def)
  next
    case (Fail e)
    then show ?thesis using o1 same by (auto simp: loadClusterFromFile_def)
  next
    case (Panic x)
    then show ?thesis using o1 open_no_panic by blast
  qed
qed

text \<open>All files, on top of a cluster that is there already.\<close>

lemma load_files:
  assumes "\<forall>d \<in> set (documents split (fv_file (view w)) ps). length d \<le> maxBytes"
  shows "\<exists>r w'. loadFiles F D rd frames cl ps w = Some (r, w') \<and> fv_file (view w') = fv_file (view w) \<and>
    (r = parse_docs D cl (documents split (fv_file (view w)) ps) \<or> (\<exists>e. r = Fail e \<and> (\<exists>p \<in> set ps. \<exists>v v'. f_Open F p v = (Fail e, v'))))"
  using assms
proof (induction ps arbitrary: cl w)
  case Nil
  then show ?case by (simp add: documents_def)
next
  case (Cons p ps)
  let ?fs = "fv_file (view w)"
  have split_docs: "documents split ?fs (p # ps) = documents split ?fs [p] @ documents split ?fs ps" by (simp add: documents_def)
  then have b: "\<forall>d \<in> set (documents split ?fs [p]). length d \<le> maxBytes" using Cons.prems by auto
  obtain r w1 where 1: "loadClusterFromFile F D rd frames p w = Some (r, w1)" "fv_file (view w1) = ?fs"
    "r = parse_docs D emptyCluster (documents split ?fs [p]) \<or> (\<exists>e. r = Fail e \<and> (\<exists>v v'. f_Open F p v = (Fail e, v')))"
    using load_file [OF b, of D] by blast
  from 1(3) show ?case
  proof
    assume r: "r = parse_docs D emptyCluster (documents split ?fs [p])"
    have head: "parse_docs D cl (documents split ?fs [p]) = bindR r (\<lambda>c. Ret (ClusterSpec_Append cl c))"
      using parse_docs_Append [of D cl emptyCluster] r by simp
    show ?thesis
    proof (cases r)
      case (Ret c)
      then have "parse_docs D cl (documents split ?fs (p # ps)) = parse_docs D (ClusterSpec_Append cl c) (documents split ?fs ps)"
        by (simp add: split_docs parse_docs_append head)
      with Cons.IH [of w1 "ClusterSpec_Append cl c"] Cons.prems split_docs 1(1,2) Ret show ?thesis by fastforce
    qed (use 1(1,2) in \<open>simp_all add: split_docs parse_docs_append head\<close>)
  next
    assume "\<exists>e. r = Fail e \<and> (\<exists>v v'. f_Open F p v = (Fail e, v'))"
    then show ?thesis using 1(1,2) by (auto, blast)
  qed
qed

end

subsection \<open>The whole command\<close>

text \<open>
  The host of the command: working directory, module list and \<open>modprobe\<close> have nothing to do with
  the network, and none of the calls before the load changes a file.
\<close>

locale command_line = datacenter Y tbl lk + yf: yaml_files "y_files Y" view rd docs frames split
  for Y :: "'w host" and tbl and lk and view :: "'w \<Rightarrow> fview" and rd :: "'f reader" and docs and frames and split +
  fixes S :: "'w os"
  assumes os_apart: "apart lk tbl (o_Chdir S p)" "apart lk tbl (o_ScanLines S h)"
    and os_files: "same_files view (o_Chdir S p)" "same_files view (o_ScanLines S h)"
      "same_files view (c_Run (y_commands Y) [''modprobe'', ''vhost-net''])"
begin

abbreviation untouched :: "'w \<Rightarrow> 'w \<Rightarrow> bool" where
  "untouched w v \<equiv> lk v = lk w \<and> tbl v = tbl w \<and> fv_file (view v) = fv_file (view w)"

lemma untouchedI: "apart lk tbl m \<Longrightarrow> same_files view m \<Longrightarrow> keeps (untouched w) m"
  unfolding keeps_def by (metis apartD same_files_def prod.collapse)

lemma start_keeps [keep_intros]:
  "keeps (untouched w) (f_Abs (y_files Y) p)" "keeps (untouched w) (f_Stat (y_files Y) p)" "keeps (untouched w) (f_MkdirAll (y_files Y) p)"
  "keeps (untouched w) (f_Open (y_files Y) p)" "keeps (untouched w) (f_Close (y_files Y) h)" "keeps (untouched w) (o_Chdir S p)"
  "keeps (untouched w) (o_ScanLines S h)" "keeps (untouched w) (c_Run (y_commands Y) [''modprobe'', ''vhost-net''])"
  using yf.abs_view yf.stat_view yf.mkdir_view(1) yf.open_files yf.close_files os_files
  by (auto intro!: untouchedI files_apart commands_apart os_apart simp: same_files_def)

lemma startRun_keeps: "keeps (untouched w) (startRun Y S cfg yamls)"
  unfolding startRun_def LoadModules_def NewRuntime_def ensureDir_def Let_def by (intro keep_intros)

lemma load_apart:
  assumes "loadFiles (y_files Y) D rd frames cl ps w = Some (r, w')"
  shows "lk w' = lk w \<and> tbl w' = tbl w"
  using assms
proof (induction ps arbitrary: cl w)
  case (Cons p ps)
  then obtain r1 w1 where 1: "loadClusterFromFile (y_files Y) D rd frames p w = Some (r1, w1)"
    by (auto split: option.splits)
  obtain o1 v where o1: "f_Open (y_files Y) p w = (o1, v)" by force
  have "lk v = lk w \<and> tbl v = tbl w" by (rule apartD [OF files_apart(5) o1])
  moreover have "lk v' = lk v \<and> tbl v' = tbl v" if d: "deferA (liftA q) (f_Close (y_files Y) h) v = (r2, v')" for q :: "ClusterSpec res" and h r2 v'
  proof -
    have "keeps (same_net (lk v) (tbl v)) (deferA (liftA q) (f_Close (y_files Y) h))" by (intro keep_intros)
    from keepsD [OF this _ d] show ?thesis by simp
  qed
  ultimately have "lk w1 = lk w \<and> tbl w1 = tbl w"
    using 1 o1 by (auto simp: loadClusterFromFile_def split: res.splits)
  then show ?case using Cons.IH [of _ w1] Cons.prems 1 by (auto split: res.splits)
qed simp

text \<open>Up to the start of \<open>Setup\<close> the host is untouched, and the cluster is that of the documents.\<close>

lemma other_host: "datacenter (Y\<lparr>y_vhostNetSupported := b\<rparr>) tbl lk"
  using datacenter_axioms by (simp add: datacenter_def datacenter_axioms_def)

lemma startRun_fields:
  assumes "startRun Y S cfg yamls w = (Ret (paths, vhost, r), w1)"
  shows "r_Force r = cf_force cfg \<and> (\<exists>w2. mapA (f_Abs (y_files Y)) yamls w = (Ret paths, w2))"
  using assms by (auto simp: startRun_def bindA_eq_Ret retA_def failA_def NewRuntime_fields split: if_splits)

lemma run_restores:
  assumes "deadline (y_files Y) (y_procs Y) clock ended" "\<not> cf_force cfg" "links_ok (lk (env_host e))" "\<forall>p. hookable (tbl (env_host e) p)"
    "\<forall>p. \<not> jumps_to (tbl (env_host e) p ''filter'') ''PLACEMAT'' \<and> \<not> jumps_to (tbl (env_host e) p ''nat'') ''PLACEMAT''"
    "distinct (sc_nodes sc)"
    and docs: "\<And>paths w1. mapA (f_Abs (y_files Y)) yamls (env_host e) = (Ret paths, w1) \<Longrightarrow>
      \<forall>d \<in> set (documents split (fv_file (view (env_host e))) paths). length d \<le> maxBytes"
    and spec: "\<And>paths w1 spec. mapA (f_Abs (y_files Y)) yamls (env_host e) = (Ret paths, w1) \<Longrightarrow>
      parse_docs D emptyCluster (documents split (fv_file (view (env_host e))) paths) = Ret spec \<Longrightarrow>
      startable spec (lk (env_host e)) \<and> set (sc_nodes sc) = {..<length (cs_Nodes spec)}"
  shows "\<exists>x e' dead. run Y S D rd frames cfg sc yamls e = Some (x, e', dead) \<and>
    (if dead then \<exists>p. x = Panic p else lk (env_host e') = lk (env_host e) \<and> tbl (env_host e') = tbl (env_host e)) \<and>
    (sc_nodes sc = [] \<and> sc_infos sc = [] \<longrightarrow> \<not> dead)"
proof -
  let ?w = "env_host e"
  obtain y w1 where 1: "startRun Y S cfg yamls ?w = (y, w1)" by force
  have u1: "untouched ?w w1" by (rule keepsD [OF startRun_keeps _ 1]) simp
  show ?thesis
  proof (cases y)
    case (Ret v)
    obtain paths vhost r where v: "v = (paths, vhost, r)" by (cases v) auto
    obtain w2 where f: "r_Force r = cf_force cfg" "mapA (f_Abs (y_files Y)) yamls ?w = (Ret paths, w2)"
      using startRun_fields 1 Ret v by blast
    obtain z w3 where 3: "loadFiles (y_files Y) D rd frames emptyCluster paths w1 = Some (z, w3)"
      "z = parse_docs D emptyCluster (documents split (fv_file (view ?w)) paths) \<or> (\<exists>er. z = Fail er)"
      using yf.load_files [of w1 paths D emptyCluster] docs [OF f(2)] u1 by auto
    have u3: "lk w3 = lk ?w \<and> tbl w3 = tbl ?w" using load_apart [OF 3(1)] u1 by simp
    show ?thesis
    proof (cases z)
      case (Ret cs)
      let ?Y = "Y\<lparr>y_vhostNetSupported := vhost\<rparr>" and ?s = "\<lparr>ce_env = e\<lparr>env_host := w3\<rparr>, ce_cl = NewCluster cs, ce_dead = False\<rparr>"
      have st: "startable cs (lk ?w) \<and> set (sc_nodes sc) = {..<length (cs_Nodes cs)}" using spec [OF f(2)] 3(2) Ret by simp
      have "\<exists>x s'. cluster_Setup ?Y sc r ?s = Some (x, s') \<and>
        (if ce_dead s' then \<exists>p. x = Panic p else lk (hst s') = lk (hst ?s) \<and> tbl (hst s') = tbl (hst ?s))"
      proof (rule datacenter.setup_teardown [OF other_host])
        show "node_Setup (y_files ?Y) (y_commands ?Y) (y_netlink ?Y) (y_procs ?Y) (y_vhostNetSupported ?Y) n r mtu e' \<noteq> None" for n mtu e'
          using node_Setup_ends [OF assms(1), of "y_commands Y" "y_netlink Y" vhost n r mtu e'] by auto
      qed (use assms st u3 f(1) in auto)
      then obtain x s' where x: "cluster_Setup ?Y sc r ?s = Some (x, s')"
        "if ce_dead s' then \<exists>p. x = Panic p else lk (hst s') = lk w3 \<and> tbl (hst s') = tbl w3" by auto
      have "run Y S D rd frames cfg sc yamls e = Some (x, ce_env s', ce_dead s')"
        using 1 v 3(1) \<open>y = Ret v\<close> Ret x(1) by (simp add: run_def loadClusterFromFiles_def)
      moreover have "\<not> ce_dead s'" if "sc_nodes sc = [] \<and> sc_infos sc = []"
        using datacenter.idle_alive [OF other_host _ _ _ _ _ x(1), of cs] that st by (simp add: startable_def)
      ultimately show ?thesis using x(2) u3 by (intro exI [of _ x] exI [of _ "ce_env s'"] exI [of _ "ce_dead s'"]) simp
    qed (use 1 v 3(1) u3 \<open>y = Ret v\<close> in \<open>auto simp: run_def loadClusterFromFiles_def\<close>)
  qed (use 1 u1 in \<open>auto simp: run_def\<close>)
qed

end

subsection \<open>An executable command line\<close>

text \<open>A file is one document, and the working directory is not part of this host.\<close>

definition oneDoc :: "bytes \<Rightarrow> bytes list" where
  "oneDoc c = (if c = [] then [] else [c])"

definition openDocs :: "nat \<Rightarrow> 'z refFs_scheme \<Rightarrow> bytes list" where
  "openDocs h w = (case rf_src w h of None \<Rightarrow> [] | Some c \<Rightarrow> oneDoc c)"

definition refOs :: "refProcs os" where
  "refOs = \<lparr>o_Chdir = (\<lambda>p. retA ()), o_Getenv = (\<lambda>v. if v = ''SUDO_USER'' then ''cybozu'' else ''''), o_ScanLines = (\<lambda>h. retA [''vhost_net 32768 0''])\<rparr>"

interpretation ryaml: yaml_files refFiles ref_view list_reader "\<lambda>ds. ds" openDocs oneDoc
  by unfold_locales (auto simp: openDocs_def refFiles_sel ref_open_def elim!: faulty_cases split: option.splits)

interpretation rcmd: command_line refHost rk_tables ref_lk ref_view list_reader "\<lambda>ds. ds" openDocs oneDoc refOs
proof (unfold command_line_def command_line_axioms_def, intro conjI allI)
  show "datacenter refHost rk_tables ref_lk" by (rule rdc.datacenter_axioms)
  show "yaml_files (y_files refHost) ref_view list_reader (\<lambda>ds. ds) openDocs oneDoc"
    using ryaml.yaml_files_axioms by (simp add: refHost_def)
qed (auto simp: refOs_def apart_def same_files_def retA_def refHost_def refCommands_def ref_run_def ref_view_def elim!: faulty_cases)

subsection \<open>Properties\<close>

text \<open>
  C39. \<open>loadClusterFromFiles\<close> returns once no document exceeds 16 MiB. Either an argument cannot be
  opened, and its error is the result, or the result is that of handling the documents of all
  files in the order of the arguments; a cluster that comes out is valid and no file has
  changed.
\<close>

theorem load_reads_files_in_order:
  assumes "yaml_files F view rd docs frames split" "\<forall>d \<in> set (documents split (fv_file (view w)) args). length d \<le> maxBytes"
  shows "\<exists>r w'. loadClusterFromFiles F D rd frames args w = Some (r, w') \<and> fv_file (view w') = fv_file (view w) \<and>
    (\<forall>spec. r = Ret spec \<longrightarrow> cluster_ok spec) \<and>
    (r = parse_docs D emptyCluster (documents split (fv_file (view w)) args) \<or>
     (\<exists>e. r = Fail e \<and> (\<exists>p \<in> set args. \<exists>v v'. f_Open F p v = (Fail e, v'))))"
proof -
  have "cluster_ok spec" if "parse_docs D emptyCluster ds = Ret spec" for ds spec
    using parse_docs_ok [OF that] by (simp add: cluster_ok_def emptyCluster_def)
  then show ?thesis using yaml_files.load_files [OF assms, of D emptyCluster] unfolding loadClusterFromFiles_def by (metis res.distinct(1))
qed

text \<open>Two files with one network each.\<close>

definition twoFiles :: refFs where
  "twoFiles =
     \<lparr>rf_file = [''/a.yml'' \<mapsto> [1], ''/b.yml'' \<mapsto> [1]], rf_dirs = [], rf_src = Map.empty, rf_dst = Map.empty, rf_next = 0, rf_faults = []\<rparr>"

theorem load_reads_files_in_order_witness:
  "\<exists>w'. loadClusterFromFiles refFiles exampleYaml list_reader openDocs [''/a.yml'', ''/b.yml''] twoFiles =
     Some (Ret (emptyCluster\<lparr>cs_Networks := [exampleNetwork, exampleNetwork]\<rparr>), w') \<and>
   rf_file w' = rf_file twoFiles \<and> cluster_ok (emptyCluster\<lparr>cs_Networks := [exampleNetwork, exampleNetwork]\<rparr>)"
proof -
  let ?load = "loadClusterFromFiles refFiles exampleYaml list_reader openDocs [''/a.yml'', ''/b.yml''] twoFiles"
  have "\<forall>d \<in> set (documents oneDoc (fv_file (ref_view twoFiles)) [''/a.yml'', ''/b.yml'']). length d \<le> maxBytes"
    by (simp add: documents_def twoFiles_def oneDoc_def maxBytes_def)
  from load_reads_files_in_order [OF ryaml.yaml_files_axioms this, of exampleYaml]
  obtain r w' where 1: "?load = Some (r, w')" "fv_file (ref_view w') = fv_file (ref_view twoFiles)" "\<forall>spec. r = Ret spec \<longrightarrow> cluster_ok spec"
    by blast
  moreover have "map_option fst ?load = Some (Ret (emptyCluster\<lparr>cs_Networks := [exampleNetwork, exampleNetwork]\<rparr>))"
    by (simp add: loadClusterFromFiles_def loadClusterFromFile_def twoFiles_def refFiles_sel faulty_def ref_open_def openDocs_def oneDoc_def
        Parse_example deferA_def act_defs ClusterSpec_Append_def emptyCluster_def)
  ultimately show ?thesis by auto
qed


definition rackEnv :: "refProcs env" where
  "rackEnv = (ce_env rackHost)\<lparr>env_host := (hst rackHost)\<lparr>rf_file := [''/rack.yml'' \<mapsto> [1]]\<rparr>\<rparr>"

lemma rackEnv_net [simp]: "ref_lk (env_host rackEnv) = ref_lk (hst rackHost)" "rk_tables (env_host rackEnv) = rk_tables (hst rackHost)"
  by (simp_all add: rackEnv_def ref_lk_def)

lemma rackEnv_paths:
  assumes "mapA (f_Abs refFiles) [''rack.yml''] (env_host rackEnv) = (Ret paths, w1)"
  shows "documents oneDoc (fv_file (ref_view (env_host rackEnv))) paths = [[1]]"
proof -
  have "rf_faults (env_host rackEnv) = []"
    by (simp add: rackEnv_def rackHost_def exampleNet_def exampleKernel_def refLinks.defs refKernel.defs refFs.defs)
  moreover have "filepath_Join [''/'', ''rack.yml''] = ''/rack.yml''" by code_simp
  ultimately have "paths = [''/rack.yml'']" using assms by (auto simp: refFiles_sel faulty_def bindA_def act_defs)
  then show ?thesis by (simp add: documents_def rackEnv_def oneDoc_def)
qed

lemma rackEnv_startable: "startable (emptyCluster\<lparr>cs_Networks := [exampleNetwork]\<rparr>) (ref_lk (env_host rackEnv))"
  by (simp add: startable_def emptyCluster_def exampleNetwork_def network_ok_def link_name_ok_def rack_links)


end
