(* ===== verification/JsonText.thy ===== *)
theory JsonText
  imports Json Qemu Cache
begin

text \<open>
  What the program uses of the encoder of \<open>encoding/json\<close>: strings with the characters escaped
  that JSON or HTML reserve, bytes that are not UTF-8 replaced, objects and arrays without white
  space. The parser of \<open>Json\<close> reads back what is written here.
\<close>

subsection \<open>UTF-8\<close>

definition within :: "nat \<Rightarrow> nat \<Rightarrow> char \<Rightarrow> bool" where
  "within lo hi c \<longleftrightarrow> lo \<le> (of_char c :: nat) \<and> (of_char c :: nat) \<le> hi"

abbreviation continuation :: "char \<Rightarrow> bool" where
  "continuation \<equiv> within 0x80 0xBF"

text \<open>The number of bytes of the character at the front, 0 when there is no well-formed one.\<close>

definition runeSize :: "string \<Rightarrow> nat" where
  "runeSize s =
     (case s of
        [] \<Rightarrow> 0
      | a # r \<Rightarrow>
          if within 0 0x7F a then 1
          else if within 0xC2 0xDF a then (if list_all continuation (take 1 r) \<and> 1 \<le> length r then 2 else 0)
          else if within 0xE0 0xEF a then
            (if 2 \<le> length r \<and> list_all continuation (take 2 r) \<and>
               (a = CHR 0xE0 \<longrightarrow> within 0xA0 0xBF (hd r)) \<and> (a = CHR 0xED \<longrightarrow> within 0x80 0x9F (hd r)) then 3 else 0)
          else if within 0xF0 0xF4 a then
            (if 3 \<le> length r \<and> list_all continuation (take 3 r) \<and>
               (a = CHR 0xF0 \<longrightarrow> within 0x90 0xBF (hd r)) \<and> (a = CHR 0xF4 \<longrightarrow> within 0x80 0x8F (hd r)) then 4 else 0)
          else 0)"

text \<open>Every byte that does not belong to a character becomes the replacement character.\<close>

function toValid :: "string \<Rightarrow> string" where
  "toValid [] = []"
| "toValid (a # r) =
     (let n = runeSize (a # r)
      in if n = 0 then utf8 0xFFFD @ toValid r else take n (a # r) @ toValid (drop (n - 1) r))"
  by pat_completeness auto
termination by (relation "measure length") auto

subsection \<open>Strings\<close>

definition hexDigit :: "nat \<Rightarrow> char" where
  "hexDigit n = char_of (if n < 10 then 48 + n else 87 + n)"

definition htmlSafe :: "char \<Rightarrow> bool" where
  "htmlSafe c \<longleftrightarrow> within 0x20 0x7F c \<and> c \<notin> {CHR 0x22, CHR 0x26, CHR 0x3C, CHR 0x3E, CHR 0x5C}"

definition uEscape :: "string \<Rightarrow> string" where
  "uEscape h = CHR 0x5C # CHR ''u'' # h"

definition escaped :: "char \<Rightarrow> string" where
  "escaped c =
     (if htmlSafe c then [c]
      else if c \<in> {CHR 0x22, CHR 0x5C} then [CHR 0x5C, c]
      else if c = CHR 0x08 then [CHR 0x5C, CHR ''b''] else if c = CHR 0x0C then [CHR 0x5C, CHR ''f'']
      else if c = CHR 0x0A then [CHR 0x5C, CHR ''n''] else if c = CHR 0x0D then [CHR 0x5C, CHR ''r'']
      else if c = CHR 0x09 then [CHR 0x5C, CHR ''t'']
      else uEscape [CHR ''0'', CHR ''0'', hexDigit (of_char c div 16), hexDigit (of_char c mod 16)])"

function quoteBody :: "string \<Rightarrow> string" where
  "quoteBody [] = []"
| "quoteBody (a # r) =
     (let n = runeSize (a # r)
      in if n = 0 then uEscape ''fffd'' @ quoteBody r
         else if n = 1 then escaped a @ quoteBody r
         else if take n (a # r) = utf8 0x2028 then uEscape ''2028'' @ quoteBody (drop (n - 1) r)
         else if take n (a # r) = utf8 0x2029 then uEscape ''2029'' @ quoteBody (drop (n - 1) r)
         else take n (a # r) @ quoteBody (drop (n - 1) r))"
  by pat_completeness auto
termination by (relation "measure length") auto

definition quote :: "string \<Rightarrow> string" where
  "quote s = CHR 0x22 # quoteBody s @ [CHR 0x22]"

lemma hex_val_hexDigit: "n < 16 \<Longrightarrow> hex_val (hexDigit n) = Some n"
  by (auto simp: hex_val_def hexDigit_def of_char_of Let_def)

lemma of_char_inject: "(of_char c :: nat) = of_char d \<longleftrightarrow> c = d"
  by (metis char_of_char)

lemma p_str_unicode:
  assumes "hex4 h = Some n" "length h = 4" "\<not> is_surrogate n"
  shows "p_str (uEscape h @ t) = map_option (apfst (\<lambda>u. utf8 n @ u)) (p_str t)"
  using assms by (simp add: uEscape_def escape_char_def)

lemma p_str_escaped:
  assumes "within 0 0x7F c"
  shows "p_str (escaped c @ t) = map_option (apfst (Cons c)) (p_str t)"
proof (cases "htmlSafe c \<or> c \<in> {CHR 0x22, CHR 0x5C, CHR 0x08, CHR 0x0C, CHR 0x0A, CHR 0x0D, CHR 0x09}")
  case True
  then show ?thesis by (auto simp: escaped_def htmlSafe_def within_def escape_char_def)
next
  case False
  let ?n = "of_char c :: nat"
  have n: "?n < 128" using assms by (simp add: within_def)
  then have "hex4 [CHR ''0'', CHR ''0'', hexDigit (?n div 16), hexDigit (?n mod 16)] = Some ?n"
    by (simp add: hex_val_hexDigit) (simp add: hex_val_def)
  moreover have "\<not> is_surrogate ?n" using n by (simp add: is_surrogate_def)
  ultimately have "p_str (escaped c @ t) = map_option (apfst (\<lambda>u. utf8 ?n @ u)) (p_str t)"
    using False p_str_unicode by (simp add: escaped_def)
  moreover have "utf8 ?n = [c]" using n by (simp add: utf8_def)
  ultimately show ?thesis by (simp add: append_Cons [abs_def])
qed

lemma p_str_high: "list_all (within 0x80 0xFF) cs \<Longrightarrow> p_str (cs @ t) = map_option (apfst (\<lambda>u. cs @ u)) (p_str t)"
proof (induction cs)
  case Nil
  then show ?case by (simp add: option.map_ident apfst_def map_prod_def)
next
  case (Cons c cs)
  then have "c \<noteq> CHR 0x22" "c \<noteq> CHR 0x5C" "\<not> (of_char c :: nat) < 0x20" by (auto simp: within_def)
  with Cons show ?case by (simp add: option.map_comp comp_def apfst_compose)
qed

lemma high_mono: "list_all (within lo hi) bs \<Longrightarrow> 0x80 \<le> lo \<Longrightarrow> hi \<le> 0xFF \<Longrightarrow> list_all (within 0x80 0xFF) bs"
  by (auto simp: list_all_iff within_def)

lemma rune_bytes:
  assumes "runeSize (a # r) = n" "1 < n"
  shows "list_all (within 0x80 0xFF) (take n (a # r))" "n \<le> Suc (length r)"
proof -
  have "within 0x80 0xFF a \<and> list_all continuation (take (n - 1) r) \<and> n \<le> Suc (length r)"
    using assms by (simp add: runeSize_def within_def split: if_splits)
  then show "list_all (within 0x80 0xFF) (take n (a # r))" "n \<le> Suc (length r)"
    using assms(2) high_mono [of "0x80" "0xBF" "take (n - 1) r"] by (simp_all add: take_Cons')
qed

lemma p_str_replacement:
  "p_str (uEscape ''fffd'' @ t) = map_option (apfst (\<lambda>u. utf8 0xFFFD @ u)) (p_str t)"
  "p_str (uEscape ''2028'' @ t) = map_option (apfst (\<lambda>u. utf8 0x2028 @ u)) (p_str t)"
  "p_str (uEscape ''2029'' @ t) = map_option (apfst (\<lambda>u. utf8 0x2029 @ u)) (p_str t)"
  by (rule p_str_unicode; simp add: hex_val_def is_surrogate_def)+

lemma p_str_quoteBody: "p_str (quoteBody s @ CHR 0x22 # t) = Some (toValid s, t)"
proof (induction s rule: quoteBody.induct)
  case 1
  show ?case by simp
next
  case (2 a r)
  define n where "n = runeSize (a # r)"
  note rec = quoteBody.simps(2) [of a r, folded n_def, unfolded Let_def] toValid.simps(2) [of a r, folded n_def, unfolded Let_def]
  note IH = "2.IH" [OF n_def]
  consider "n = 0" | "n = 1" | "1 < n" by linarith
  then show ?case
  proof cases
    case 1
    then show ?thesis unfolding rec using IH(1) by (simp add: p_str_replacement)
  next
    case 2
    then have "within 0 0x7F a" unfolding n_def by (auto simp: runeSize_def split: if_splits)
    then show ?thesis unfolding rec using 2 IH(2) by (simp add: p_str_escaped)
  next
    case 3
    define b where "b = take n (a # r)"
    have b: "list_all (within 0x80 0xFF) b" using rune_bytes(1) n_def 3 unfolding b_def by blast
    note rec' = rec [folded b_def] and IH' = IH(3-5) [folded b_def]
    consider "b = utf8 0x2028" | "b = utf8 0x2029" "b \<noteq> utf8 0x2028" | "b \<noteq> utf8 0x2028" "b \<noteq> utf8 0x2029" by blast
    then show ?thesis
    proof cases
      case 1
      then show ?thesis unfolding rec' using 3 IH'(1) by (simp add: p_str_replacement)
    next
      case 2
      then show ?thesis unfolding rec' using 3 IH'(2) by (simp add: p_str_replacement)
    next
      case 3
      then show ?thesis unfolding rec' using \<open>1 < n\<close> IH'(3) p_str_high [OF b] by simp
    qed
  qed
qed

subsection \<open>Values\<close>

fun commas :: "string list \<Rightarrow> string" where
  "commas [] = []"
| "commas [x] = x"
| "commas (x # y # xs) = x @ CHR '','' # commas (y # xs)"

fun print_json :: "json \<Rightarrow> string" where
  "print_json JNull = ''null''"
| "print_json (JBool b) = (if b then ''true'' else ''false'')"
| "print_json (JNum s) = s"
| "print_json (JStr s) = quote s"
| "print_json (JArr js) = CHR ''['' # commas (map print_json js) @ '']''"
| "print_json (JObj kvs) = CHR ''{'' # commas (map (\<lambda>kv. quote (fst kv) @ CHR '':'' # print_json (snd kv)) kvs) @ ''}''"

text \<open>Numbers that the grammar of JSON accepts, and the value with its strings as UTF-8.\<close>

fun nums_ok :: "json \<Rightarrow> bool" where
  "nums_ok (JNum s) \<longleftrightarrow> p_num s = Some (s, [])"
| "nums_ok (JArr js) \<longleftrightarrow> (\<forall>j \<in> set js. nums_ok j)"
| "nums_ok (JObj kvs) \<longleftrightarrow> (\<forall>kv \<in> set kvs. nums_ok (snd kv))"
| "nums_ok _ \<longleftrightarrow> True"

fun validJson :: "json \<Rightarrow> json" where
  "validJson (JStr s) = JStr (toValid s)"
| "validJson (JArr js) = JArr (map validJson js)"
| "validJson (JObj kvs) = JObj (map (\<lambda>kv. (toValid (fst kv), validJson (snd kv))) kvs)"
| "validJson j = j"

text \<open>What may follow a number.\<close>

definition stops :: "string \<Rightarrow> bool" where
  "stops r \<longleftrightarrow> (case r of [] \<Rightarrow> True | c # _ \<Rightarrow> \<not> is_digit c \<and> c \<notin> {CHR ''.'', CHR ''e'', CHR ''E''})"

lemma takeWhile_more: "u = [] \<longrightarrow> (case r of [] \<Rightarrow> True | c # _ \<Rightarrow> \<not> P c) \<Longrightarrow> dropWhile P s = u \<Longrightarrow>
    takeWhile P (s @ r) = takeWhile P s \<and> dropWhile P (s @ r) = u @ r"
  by (induction s) (auto split: list.splits)

lemma digits_more: "digits s = Some (d, u) \<Longrightarrow> (u = [] \<longrightarrow> stops r) \<Longrightarrow> digits (s @ r) = Some (d, u @ r)"
  using takeWhile_more [of u is_digit r s] by (auto simp: digits_def Let_def stops_def split: if_splits list.splits)

lemma opt_prefix_more: "opt_prefix cs s = (a, b) \<Longrightarrow> s \<noteq> [] \<Longrightarrow> opt_prefix cs (s @ r) = (a, b @ r)"
  by (auto simp: opt_prefix_def split: list.splits if_splits)

lemma num_parts_more:
  "p_int s = Some (d, u) \<Longrightarrow> (u = [] \<longrightarrow> stops r) \<Longrightarrow> p_int (s @ r) = Some (d, u @ r)"
  "p_frac s = Some (d, u) \<Longrightarrow> (u = [] \<longrightarrow> stops r) \<Longrightarrow> p_frac (s @ r) = Some (d, u @ r)"
  "p_exp s = Some (d, u) \<Longrightarrow> (u = [] \<longrightarrow> stops r) \<Longrightarrow> p_exp (s @ r) = Some (d, u @ r)"
proof -
  show "p_int s = Some (d, u) \<Longrightarrow> (u = [] \<longrightarrow> stops r) \<Longrightarrow> p_int (s @ r) = Some (d, u @ r)"
    using digits_more [of s d u r] by (auto simp: p_int_def split: list.splits if_splits)
  show "p_frac s = Some (d, u) \<Longrightarrow> (u = [] \<longrightarrow> stops r) \<Longrightarrow> p_frac (s @ r) = Some (d, u @ r)"
    using digits_more [of "tl s" "tl d" u r] by (auto simp: p_frac_def stops_def split: list.splits if_splits)
  show "p_exp s = Some (d, u) \<Longrightarrow> (u = [] \<longrightarrow> stops r) \<Longrightarrow> p_exp (s @ r) = Some (d, u @ r)"
  proof (cases s)
    case (Cons c t)
    assume a: "p_exp s = Some (d, u)" "u = [] \<longrightarrow> stops r"
    obtain sg t' where o: "opt_prefix [CHR ''+'', CHR ''-''] t = (sg, t')" by force
    show ?thesis
    proof (cases "c \<in> {CHR ''e'', CHR ''E''}")
      case True
      then obtain d' where d: "digits t' = Some (d', u)" "d = c # sg @ d'" using a(1) o Cons by (auto simp: p_exp_def)
      then have "t \<noteq> []" using o by (auto simp: opt_prefix_def digits_def)
      then show ?thesis using Cons True d opt_prefix_more [OF o] digits_more [OF d(1) a(2)] by (simp add: p_exp_def)
    qed (use a Cons in \<open>auto simp: p_exp_def\<close>)
  qed (auto simp: p_exp_def stops_def split: list.splits)
qed

lemma p_num_more:
  assumes "p_num s = Some (s, [])" "stops r"
  shows "p_num (s @ r) = Some (s, r)"
proof -
  obtain sg s1 where o: "opt_prefix [CHR ''-''] s = (sg, s1)" by force
  then obtain i s2 f s3 e where p: "p_int s1 = Some (i, s2)" "p_frac s2 = Some (f, s3)" "p_exp s3 = Some (e, [])" "s = sg @ i @ f @ e"
    using assms(1) by (auto simp: p_num_def split: option.splits)
  then have "s \<noteq> []" using o by (auto simp: opt_prefix_def p_int_def)
  moreover have "s2 = [] \<longrightarrow> stops r" "s3 = [] \<longrightarrow> stops r" using assms(2) by simp_all
  ultimately show ?thesis
    using opt_prefix_more [OF o] num_parts_more(1) [OF p(1)] num_parts_more(2) [OF p(2)] num_parts_more(3) [OF p(3)] p(4) assms(2)
    by (simp add: p_num_def)
qed

lemma p_num_head:
  assumes "p_num s = Some x"
  obtains c t where "s = c # t" "c = CHR ''-'' \<or> is_digit c"
proof (cases s)
  case (Cons c t)
  have "c = CHR ''-'' \<or> is_digit c"
    using assms Cons by (auto simp: p_num_def opt_prefix_def p_int_def digits_def Let_def is_digit_def split: option.splits if_splits)
  with Cons that show ?thesis by blast
qed (use assms in \<open>simp add: p_num_def opt_prefix_def p_int_def\<close>)

text \<open>A value starts with none of the characters that end an array or an object, and not with a space.\<close>

lemma print_head:
  assumes "nums_ok j"
  obtains c t where "print_json j = c # t" "c \<notin> {CHR 0x20, CHR 0x09, CHR 0x0A, CHR 0x0D, CHR '']'', CHR ''}''}"
proof (cases j)
  case (JNum s)
  then obtain c t where "s = c # t" "c = CHR ''-'' \<or> is_digit c" using assms p_num_head [of s] by (metis nums_ok.simps(1))
  moreover from this have "c \<notin> {CHR 0x20, CHR 0x09, CHR 0x0A, CHR 0x0D, CHR '']'', CHR ''}''}" by (auto simp: is_digit_def)
  ultimately show ?thesis using that JNum by simp
next
  case (JBool b)
  then show ?thesis using that by (cases b) simp_all
qed (use that in \<open>auto simp: quote_def\<close>)

declare p_val.simps [simp del] p_elems.simps [simp del] p_members.simps [simp del]

lemma p_val_scalars:
  "p_val (''null'' @ r) = Some (JNull, r)" "p_val (''true'' @ r) = Some (JBool True, r)" "p_val (''false'' @ r) = Some (JBool False, r)"
  "p_val (quote s @ r) = Some (JStr (toValid s), r)"
  by (simp_all add: p_val.simps [of "c # y" for c y] p_lit_def quote_def p_str_quoteBody)

lemma p_val_num:
  assumes "p_num s = Some (s, [])" "stops r"
  shows "p_val (s @ r) = Some (JNum s, r)"
proof -
  obtain c t where c: "s = c # t" "c = CHR ''-'' \<or> is_digit c" using p_num_head [OF assms(1)] by blast
  then have "c \<notin> {CHR 0x20, CHR 0x09, CHR 0x0A, CHR 0x0D, CHR ''{'', CHR ''['', CHR 0x22, CHR ''t'', CHR ''f'', CHR ''n''}"
    by (auto simp: is_digit_def)
  then show ?thesis using p_num_more [OF assms] c(1) by (simp add: p_val.simps [of "c # t @ r"])
qed

definition reads_back :: "json \<Rightarrow> bool" where
  "reads_back j \<longleftrightarrow> (\<forall>r. stops r \<longrightarrow> p_val (print_json j @ r) = Some (validJson j, r))"

lemma stops_simps: "stops (CHR '','' # r)" "stops (CHR '']'' # r)" "stops (CHR ''}'' # r)"
  by (simp_all add: stops_def is_digit_def)

lemma p_elems_commas:
  assumes "js \<noteq> []" "\<forall>j \<in> set js. reads_back j"
  shows "p_elems (commas (map print_json js) @ CHR '']'' # r) = Some (map validJson js, r)"
  using assms
proof (induction js rule: induct_list012)
  case (2 j)
  then show ?case by (simp add: p_elems.simps [of "print_json j @ CHR '']'' # r"] reads_back_def stops_simps)
next
  case (3 j k js)
  define t where "t = commas (map print_json (k # js)) @ CHR '']'' # r"
  have "p_val (print_json j @ CHR '','' # t) = Some (validJson j, CHR '','' # t)"
    using 3 by (simp add: reads_back_def stops_simps)
  moreover have "p_elems t = Some (map validJson (k # js), r)" unfolding t_def using 3 by simp
  ultimately have "p_elems (print_json j @ CHR '','' # t) = Some (map validJson (j # k # js), r)"
    by (simp add: p_elems.simps [of "print_json j @ CHR '','' # t"])
  then show ?case by (simp add: t_def)
qed simp

abbreviation member :: "string \<times> json \<Rightarrow> string" where
  "member kv \<equiv> quote (fst kv) @ CHR '':'' # print_json (snd kv)"

lemma p_members_step:
  assumes "reads_back v" "stops t"
  shows "p_members (member (k, v) @ t) =
    (case skip_ws t of
       d # r4 \<Rightarrow> if d = CHR ''}'' then Some ([(toValid k, validJson v)], r4)
         else if d = CHR '','' \<and> length r4 < length (member (k, v) @ t) then map_option (apfst (Cons (toValid k, validJson v))) (p_members r4)
         else None
     | [] \<Rightarrow> None)"
proof -
  have "p_val (print_json v @ t) = Some (validJson v, t)" using assms by (simp add: reads_back_def)
  then show ?thesis
    by (simp add: quote_def p_members.simps [of "CHR 0x22 # y" for y] p_str_quoteBody split: list.split)
qed

lemma p_members_commas:
  assumes "kvs \<noteq> []" "\<forall>kv \<in> set kvs. reads_back (snd kv)"
  shows "p_members (commas (map member kvs) @ CHR ''}'' # r) = Some (map (\<lambda>kv. (toValid (fst kv), validJson (snd kv))) kvs, r)"
  using assms
proof (induction kvs rule: induct_list012)
  case (2 kv)
  then show ?case using p_members_step [of "snd kv" "CHR ''}'' # r" "fst kv"] by (simp add: stops_simps)
next
  case (3 kv kv' kvs)
  define t where "t = commas (map member (kv' # kvs)) @ CHR ''}'' # r"
  have "p_members t = Some (map (\<lambda>kv. (toValid (fst kv), validJson (snd kv))) (kv' # kvs), r)" unfolding t_def using 3 by simp
  then have "p_members (member kv @ CHR '','' # t) = Some (map (\<lambda>kv. (toValid (fst kv), validJson (snd kv))) (kv # kv' # kvs), r)"
    using p_members_step [of "snd kv" "CHR '','' # t" "fst kv"] 3(4) by (simp add: stops_simps)
  then show ?case by (simp add: t_def)
qed simp

lemma commas_head: "xs \<noteq> [] \<Longrightarrow> hd xs = c # t \<Longrightarrow> \<exists>u. commas xs = c # u"
  by (cases xs rule: commas.cases) auto

lemma print_reads_back: "nums_ok j \<Longrightarrow> reads_back j"
proof (induction j)
  case (JArr js)
  show ?case
  proof (cases "js = []")
    case False
    then have "nums_ok (hd js)" using JArr.prems by simp
    then obtain c t where c: "print_json (hd js) = c # t" "c \<notin> {CHR 0x20, CHR 0x09, CHR 0x0A, CHR 0x0D, CHR '']'', CHR ''}''}" using print_head by blast
    then obtain u where u: "commas (map print_json js) = c # u" using False commas_head [of "map print_json js"] by (auto simp: hd_map)
    have "p_elems (c # u @ CHR '']'' # r) = Some (map validJson js, r)" for r
      using p_elems_commas [OF False, of r] JArr u by simp
    then show ?thesis using u c(2) by (simp add: reads_back_def p_val.simps [of "CHR ''['' # y" for y])
  qed (simp add: reads_back_def p_val.simps [of "CHR ''['' # y" for y])
next
  case (JObj kvs)
  have IH: "\<forall>kv \<in> set kvs. reads_back (snd kv)" using JObj by (auto simp: snds.simps)
  show ?case
  proof (cases "kvs = []")
    case False
    then obtain u where u: "commas (map member kvs) = CHR 0x22 # u" using commas_head [of "map member kvs"] by (auto simp: hd_map quote_def)
    have "p_members (CHR 0x22 # u @ CHR ''}'' # r) = Some (map (\<lambda>kv. (toValid (fst kv), validJson (snd kv))) kvs, r)" for r
      using p_members_commas [OF False IH, of r] u by simp
    then show ?thesis using u by (simp add: reads_back_def p_val.simps [of "CHR ''{'' # y" for y])
  qed (simp add: reads_back_def p_val.simps [of "CHR ''{'' # y" for y])
qed (auto simp: reads_back_def p_val_scalars [simplified] p_val_num)

text \<open>What \<open>Marshal\<close> writes, \<open>Unmarshal\<close> reads.\<close>

lemma parse_print: "nums_ok j \<Longrightarrow> parse_json (print_json j) = Some (validJson j)"
  using print_reads_back [of j] unfolding reads_back_def parse_json_def
  by (metis (mono_tags, lifting) append_Nil2 case_prod_conv list.case(1) option.case(2) skip_ws.simps(1) stops_def)

subsection \<open>Integers\<close>

lemma fmt_d_digits: "fmt_d n \<noteq> [] \<and> list_all is_digit (fmt_d n) \<and> (hd (fmt_d n) = CHR ''0'' \<longrightarrow> fmt_d n = ''0'') \<and> digits_value (fmt_d n) = n"
proof (induction n rule: fmt_d.induct)
  case (1 n)
  show ?case
  proof (cases "n < 10")
    case True
    then have f: "fmt_d n = [char_of (48 + n)]" by (simp add: fmt_d.simps [of n])
    show ?thesis using True unfolding f by (simp add: is_digit_def digits_value_def of_char_of char_of_eq_iff take_bit_eq_mod)
  next
    case False
    then have IH: "fmt_d (n div 10) \<noteq> [] \<and> list_all is_digit (fmt_d (n div 10)) \<and> (hd (fmt_d (n div 10)) = CHR ''0'' \<longrightarrow> fmt_d (n div 10) = ''0'')
        \<and> digits_value (fmt_d (n div 10)) = n div 10" using 1 by blast
    moreover have "fmt_d (n div 10) \<noteq> ''0''"
    proof
      assume "fmt_d (n div 10) = ''0''"
      then have "n div 10 = 0" using IH by (simp add: digits_value_def)
      then show False using False by simp
    qed
    moreover have "n mod 10 \<le> 9" by presburger
    then have "is_digit (char_of (48 + n mod 10))" by (simp add: is_digit_def)
    ultimately show ?thesis using False by (simp add: fmt_d.simps [of n] digits_value_def)
  qed
qed

lemma hd_not_sign: "hd (fmt_d n) \<noteq> CHR ''-'' \<and> hd (fmt_d n) \<noteq> CHR ''+''"
proof -
  have "is_digit (hd (fmt_d n))" using fmt_d_digits [of n] by (cases "fmt_d n") auto
  then show ?thesis by (auto simp: is_digit_def)
qed

lemma Atoi_fmt_int:
  assumes "- (2 ^ 63) \<le> i" "i < 2 ^ 63"
  shows "go_Atoi (fmt_int i) = Ret i"
proof -
  have "list_all (\<lambda>c. 48 \<le> (of_char c :: nat) \<and> of_char c \<le> (57 :: nat)) (fmt_d n)" for n
    using fmt_d_digits [of n] by (simp add: is_digit_def [abs_def])
  then show ?thesis using assms fmt_d_digits hd_not_sign by (auto simp: go_Atoi_def fmt_int_def Let_def)
qed

lemma p_num_fmt_int: "p_num (fmt_int i) = Some (fmt_int i, [])"
proof -
  have p: "p_int (fmt_d n) = Some (fmt_d n, [])" for n
  proof (cases "hd (fmt_d n) = CHR ''0''")
    case True
    then show ?thesis using fmt_d_digits [of n] by (auto simp: p_int_def)
  next
    case False
    have t: "takeWhile is_digit (fmt_d n) = fmt_d n" "dropWhile is_digit (fmt_d n) = []"
      using fmt_d_digits [of n] by (auto simp: list_all_iff)
    have "digits (fmt_d n) = Some (fmt_d n, [])" unfolding digits_def Let_def t using fmt_d_digits [of n] by simp
    then show ?thesis using False fmt_d_digits [of n] by (cases "fmt_d n") (auto simp: p_int_def)
  qed
  have "opt_prefix [CHR ''-''] (fmt_d n) = ([], fmt_d n)" for n
    using hd_not_sign [of n] by (cases "fmt_d n") (auto simp: opt_prefix_def)
  then show ?thesis by (simp add: fmt_int_def p_num_def opt_prefix_def p p_frac_def p_exp_def)
qed

end
