(* ===== verification/Forward.thy ===== *)
theory Forward
  imports JsonText Volume Ip
begin

text \<open>
  The port forwards of the client \<open>pmctl2\<close>, \<open>v2/cmd/pmctl2/cmd/forward*.go\<close>. A forward is a
  transient systemd unit that runs \<open>socat\<close>; its setting is kept as JSON in the description of
  the unit. The commands are external; what the program relies on of systemd is the
  locale \<open>systemd\<close>.
\<close>

subsection \<open>Settings\<close>

record ForwardSetting =
  fw_LocalPort :: int
  fw_PodName :: string
  fw_RemoteHost :: string
  fw_RemotePort :: int

definition forwardJSON :: "ForwardSetting \<Rightarrow> json" where
  "forwardJSON f =
     JObj [(''local_port'', JNum (fmt_int (fw_LocalPort f))), (''pod'', JStr (fw_PodName f)),
       (''remote_host'', JStr (fw_RemoteHost f)), (''remote_port'', JNum (fmt_int (fw_RemotePort f)))]"

definition marshalForward :: "ForwardSetting \<Rightarrow> string" where
  "marshalForward f = print_json (forwardJSON f)"

text \<open>
  Decoding into the struct, with whether every value so far had the type of its field. A
  number is read as \<open>strconv.ParseInt\<close> reads it.
\<close>

definition set_int :: "json \<Rightarrow> int \<times> bool \<Rightarrow> int \<times> bool" where
  "set_int v x =
     (case v of
        JNum s \<Rightarrow> (case go_Atoi s of Ret i \<Rightarrow> (i, snd x) | _ \<Rightarrow> (fst x, False))
      | JNull \<Rightarrow> x
      | _ \<Rightarrow> (fst x, False))"

definition set_string :: "json \<Rightarrow> string \<times> bool \<Rightarrow> string \<times> bool" where
  "set_string v x = (case v of JStr s \<Rightarrow> (s, snd x) | JNull \<Rightarrow> x | _ \<Rightarrow> (fst x, False))"

fun set_forward :: "string \<times> json \<Rightarrow> ForwardSetting \<times> bool \<Rightarrow> ForwardSetting \<times> bool" where
  "set_forward (k, v) (f, ok) =
     (if field ''local_port'' k then (let (i, ok') = set_int v (fw_LocalPort f, ok) in (f\<lparr>fw_LocalPort := i\<rparr>, ok'))
      else if field ''pod'' k then (let (s, ok') = set_string v (fw_PodName f, ok) in (f\<lparr>fw_PodName := s\<rparr>, ok'))
      else if field ''remote_host'' k then (let (s, ok') = set_string v (fw_RemoteHost f, ok) in (f\<lparr>fw_RemoteHost := s\<rparr>, ok'))
      else if field ''remote_port'' k then (let (i, ok') = set_int v (fw_RemotePort f, ok) in (f\<lparr>fw_RemotePort := i\<rparr>, ok'))
      else (f, ok))"

definition emptyForward :: ForwardSetting where
  "emptyForward = \<lparr>fw_LocalPort = 0, fw_PodName = '''', fw_RemoteHost = '''', fw_RemotePort = 0\<rparr>"

definition unmarshalForward :: "string \<Rightarrow> ForwardSetting res" where
  "unmarshalForward text =
     (case parse_json text of
        None \<Rightarrow> Fail (ErrNew ''invalid JSON'')
      | Some JNull \<Rightarrow> Ret emptyForward
      | Some (JObj kvs) \<Rightarrow>
          (let (f, ok) = fold set_forward kvs (emptyForward, True)
           in if ok then Ret f else Fail (ErrNew ''json: cannot unmarshal into Go value''))
      | Some _ \<Rightarrow> Fail (ErrNew ''json: cannot unmarshal into Go value''))"

subsection \<open>forward add\<close>

definition newForward :: "string \<Rightarrow> string \<Rightarrow> ForwardSetting res" where
  "newForward local remote =
     bindR (go_Atoi local) (\<lambda>localPort.
     let remotes = split_on CHR '':'' remote
     in if length remotes \<noteq> 3 then Fail (ErrNew ''remote spec must be POD:REMOTE_HOST:REMOTE_PORT'')
        else
          bindR (go_Atoi (remotes ! 2)) (\<lambda>remotePort.
          Ret \<lparr>fw_LocalPort = localPort, fw_PodName = remotes ! 0, fw_RemoteHost = remotes ! 1, fw_RemotePort = remotePort\<rparr>))"

definition unitName :: "int \<Rightarrow> string" where
  "unitName port = ''pmctl-forward-'' @ fmt_int port @ ''.service''"

definition forwardCommand :: "ForwardSetting \<Rightarrow> string list" where
  "forwardCommand f =
     [''socat'', ''tcp-listen:'' @ fmt_int (fw_LocalPort f) @ '',fork,reuseaddr'',
      ''exec:ip netns exec '' @ fw_PodName f @ '' socat STDIO tcp-connect'' @ [CHR 0x5C, CHR '':''] @ fw_RemoteHost f @
        [CHR 0x5C, CHR '':''] @ fmt_int (fw_RemotePort f) @ '',nofork'']"

definition forwardAdd :: "'w commands \<Rightarrow> string list \<Rightarrow> ('w, unit) act" where
  "forwardAdd C args =
     (if length args \<noteq> 2 then failA (ErrNew ''wrong number of arguments'')
      else
        bindA (liftA (newForward (args ! 0) (args ! 1))) (\<lambda>f.
        c_Run C (''systemd-run'' # (''--unit='' @ unitName (fw_LocalPort f)) # (''--description='' @ marshalForward f) # forwardCommand f)))"

subsection \<open>forward list\<close>

text \<open>
  The lines of a \<open>bufio.Scanner\<close>: without the line end and a carriage return before it. The
  scanner stops at a line that does not fit into its buffer of 64 KiB; the loop does not ask
  for the error.
\<close>

definition maxToken :: nat where "maxToken = 65536"

definition dropCR :: "string \<Rightarrow> string" where
  "dropCR l = (if l \<noteq> [] \<and> last l = CHR 0x0D then butlast l else l)"

fun shortLines :: "string list \<Rightarrow> string list" where
  "shortLines [] = []"
| "shortLines (l # ls) = (if maxToken \<le> length l then [] else dropCR l # shortLines ls)"

definition scanLines :: "string \<Rightarrow> string list" where
  "scanLines s = (let ls = split_on CHR 0x0A s in shortLines (if last ls = [] then butlast ls else ls))"

fun readForwards :: "string list \<Rightarrow> ForwardSetting list res" where
  "readForwards [] = Ret []"
| "readForwards (l # ls) =
     (if l = [] then readForwards ls
      else bindR (unmarshalForward l) (\<lambda>f. bindR (readForwards ls) (\<lambda>fs. Ret (f # fs))))"

definition showForward :: "ForwardSetting \<Rightarrow> string" where
  "showForward f =
     fmt_int (fw_LocalPort f) @ '' '' @ fw_PodName f @ '':'' @ fw_RemoteHost f @ '':'' @ fmt_int (fw_RemotePort f) @ [CHR 0x0A]"

text \<open>What is printed; no forward leaves the slice nil, which is encoded as \<open>null\<close>.\<close>

definition printForwards :: "bool \<Rightarrow> ForwardSetting list \<Rightarrow> string" where
  "printForwards asJSON fs =
     (if asJSON then print_json (if fs = [] then JNull else JArr (map forwardJSON fs)) @ [CHR 0x0A]
      else concat (map showForward fs))"

definition showArgs :: "string list" where
  "showArgs = [''systemctl'', ''show'', ''pmctl-forward-*.service'', ''--property'', ''Description'', ''--value'']"

definition forwardList :: "'w commands \<Rightarrow> bool \<Rightarrow> ('w, string) act" where
  "forwardList C asJSON =
     bindA (c_Output C showArgs) (\<lambda>out.
     bindA (liftA (readForwards (scanLines out))) (\<lambda>fs.
     retA (printForwards asJSON fs)))"

subsection \<open>forward delete\<close>

definition forwardDelete :: "'w files \<Rightarrow> 'w commands \<Rightarrow> string list \<Rightarrow> ('w, unit) act" where
  "forwardDelete F C args =
     (if length args \<noteq> 1 then failA (ErrNew ''wrong number of arguments'')
      else
        bindA (liftA (go_Atoi (args ! 0))) (\<lambda>localPort.
        let service = unitName localPort
        in bindA (c_Run C [''systemctl'', ''stop'', service]) (\<lambda>_.
           bindA (c_Run C [''systemctl'', ''disable'', service]) (\<lambda>_.
           bindA (f_Remove F (filepath_Join [''/run/systemd/transient'', service])) (\<lambda>_.
           bindA (c_Run C [''systemctl'', ''daemon-reload'']) (\<lambda>_.
           c_Run C [''systemctl'', ''reset-failed'', service]))))))"

subsection \<open>Round trip of a setting\<close>

definition forward_ok :: "ForwardSetting \<Rightarrow> bool" where
  "forward_ok f \<longleftrightarrow> (\<forall>p \<in> {fw_LocalPort f, fw_RemotePort f}. - (2 ^ 63) \<le> p \<and> p < 2 ^ 63)"

definition validForward :: "ForwardSetting \<Rightarrow> ForwardSetting" where
  "validForward f = f\<lparr>fw_PodName := toValid (fw_PodName f), fw_RemoteHost := toValid (fw_RemoteHost f)\<rparr>"

lemma toValid_names: "toValid ''local_port'' = ''local_port''" "toValid ''pod'' = ''pod''"
  "toValid ''remote_host'' = ''remote_host''" "toValid ''remote_port'' = ''remote_port''"
  by (simp_all add: runeSize_def within_def)

lemma field_names:
  "field ''local_port'' ''local_port''" "\<not> field ''local_port'' ''pod''" "field ''pod'' ''pod''"
  "\<not> field ''local_port'' ''remote_host''" "\<not> field ''pod'' ''remote_host''" "field ''remote_host'' ''remote_host''"
  "\<not> field ''local_port'' ''remote_port''" "\<not> field ''pod'' ''remote_port''" "\<not> field ''remote_host'' ''remote_port''" "field ''remote_port'' ''remote_port''"
  by (simp_all add: field_def)

lemma unmarshal_marshal:
  assumes "forward_ok f"
  shows "unmarshalForward (marshalForward f) = Ret (validForward f)"
proof -
  have "nums_ok (forwardJSON f)" by (simp add: forwardJSON_def p_num_fmt_int)
  then have "parse_json (marshalForward f) = Some (validJson (forwardJSON f))" unfolding marshalForward_def by (rule parse_print)
  then show ?thesis using assms
    by (simp add: unmarshalForward_def forwardJSON_def toValid_names field_names set_int_def set_string_def Atoi_fmt_int forward_ok_def
        validForward_def emptyForward_def Let_def del: toValid.simps)
qed

subsection \<open>One line per unit\<close>

abbreviation printable :: "char \<Rightarrow> bool" where
  "printable \<equiv> within 0x20 0xFF"

lemma printable_mono: "list_all (within lo hi) s \<Longrightarrow> 0x20 \<le> lo \<Longrightarrow> hi \<le> 0xFF \<Longrightarrow> list_all printable s"
  by (auto simp: list_all_iff within_def)

lemma hexDigit_printable: "n < 16 \<Longrightarrow> printable (hexDigit n)"
  by (simp add: hexDigit_def within_def)

lemma escaped_printable:
  assumes "within 0 0x7F c"
  shows "list_all printable (escaped c)"
proof -
  have "printable (hexDigit (of_char c div 16))" "printable (hexDigit (of_char c mod 16))"
    using assms by (auto intro!: hexDigit_printable simp: within_def [of 0])
  moreover have "htmlSafe c \<Longrightarrow> printable c" by (simp add: htmlSafe_def within_def)
  moreover have "list_all printable [CHR 0x5C, CHR 0x22, CHR ''b'', CHR ''f'', CHR ''n'', CHR ''r'', CHR ''t'', CHR ''u'', CHR ''0'']"
    by (simp add: within_def)
  ultimately show ?thesis by (auto simp: escaped_def uEscape_def)
qed

lemma quoteBody_printable: "list_all printable (quoteBody s)"
proof (induction s rule: quoteBody.induct)
  case (2 a r)
  define n where "n = runeSize (a # r)"
  define b where "b = take n (a # r)"
  note rec = quoteBody.simps(2) [of a r, folded n_def, unfolded Let_def, folded b_def] and IH = "2.IH" [OF n_def, folded b_def]
  have u: "list_all printable (uEscape h)" if "list_all printable h" for h using that by (simp add: uEscape_def within_def)
  have h: "list_all printable ''fffd''" "list_all printable ''2028''" "list_all printable ''2029''" by (simp_all add: within_def)
  consider "n = 0" | "n = 1" | "1 < n" by linarith
  then show ?case
  proof cases
    case 1
    then show ?thesis unfolding rec using IH(1) u h by simp
  next
    case 2
    then have "within 0 0x7F a" unfolding n_def by (auto simp: runeSize_def split: if_splits)
    then show ?thesis unfolding rec using 2 IH(2) escaped_printable by simp
  next
    case 3
    have "list_all printable b" using rune_bytes(1) [of a r n] 3 printable_mono [of "0x80" "0xFF"] unfolding n_def b_def by simp
    then show ?thesis unfolding rec using 3 IH(3-5) u h by auto
  qed
qed simp

lemma fmt_int_printable: "list_all printable (fmt_int i)"
proof -
  have "list_all printable (fmt_d n)" for n
    using fmt_d_digits [of n] by (auto simp: list_all_iff Json.is_digit_def within_def)
  then show ?thesis by (simp add: fmt_int_def within_def)
qed

lemma marshal_printable: "list_all printable (marshalForward f)" "marshalForward f \<noteq> []" "last (marshalForward f) = CHR ''}''"
proof -
  have q: "list_all printable (quote s)" for s using quoteBody_printable [of s] by (simp add: quote_def within_def)
  have n: "list_all printable ''local_port''" "list_all printable ''pod''" "list_all printable ''remote_host''" "list_all printable ''remote_port''"
    by (simp_all add: within_def)
  show "list_all printable (marshalForward f)" "marshalForward f \<noteq> []" "last (marshalForward f) = CHR ''}''"
    using q fmt_int_printable by (simp_all add: marshalForward_def forwardJSON_def) (simp_all add: within_def)
qed

text \<open>What \<open>systemctl show --value\<close> prints: the values, with an empty line between two units.\<close>

fun showText :: "string list \<Rightarrow> string" where
  "showText [] = []"
| "showText [d] = d @ [CHR 0x0A]"
| "showText (d # e # ds) = d @ [CHR 0x0A, CHR 0x0A] @ showText (e # ds)"

fun blanks :: "string list \<Rightarrow> string list" where
  "blanks [] = []"
| "blanks [d] = [d]"
| "blanks (d # e # ds) = d # [] # blanks (e # ds)"

lemma split_line: "CHR 0x0A \<notin> set d \<Longrightarrow> split_on CHR 0x0A (d @ CHR 0x0A # s) = d # split_on CHR 0x0A s"
  by (induction d) auto

lemma split_showText: "\<forall>d \<in> set ds. CHR 0x0A \<notin> set d \<Longrightarrow> split_on CHR 0x0A (showText ds) = blanks ds @ [[]]"
  by (induction ds rule: showText.induct) (simp_all add: split_line)

lemma short_blanks: "\<forall>d \<in> set ds. length d < maxToken \<and> dropCR d = d \<Longrightarrow> shortLines (blanks ds) = blanks ds"
  by (induction ds rule: blanks.induct) (auto simp: maxToken_def dropCR_def)

lemma scan_showText:
  assumes "\<forall>d \<in> set ds. CHR 0x0A \<notin> set d \<and> length d < maxToken \<and> dropCR d = d"
  shows "scanLines (showText ds) = blanks ds"
  using assms split_showText [of ds] short_blanks [of ds] by (simp add: scanLines_def Let_def)

lemma read_blanks:
  assumes "\<forall>f \<in> set fs. forward_ok f"
  shows "readForwards (blanks (map marshalForward fs)) = Ret (map validForward fs)"
  using assms by (induction fs rule: induct_list012) (simp_all add: marshal_printable(2) unmarshal_marshal)

subsection \<open>The contract of systemd\<close>

definition isForwardUnit :: "string \<Rightarrow> bool" where
  "isForwardUnit u \<longleftrightarrow> 22 \<le> length u \<and> take 14 u = ''pmctl-forward-'' \<and> drop (length u - 8) u = ''.service''"

text \<open>
  The loaded units with their descriptions, in the order in which \<open>systemctl show\<close> lists them.
  \<open>systemd-run\<close> refuses the name of a loaded unit and otherwise loads a new one.
\<close>

locale systemd =
  fixes C :: "'w commands" and units :: "'w \<Rightarrow> (string \<times> string) list"
  assumes run_law: "c_Run C (''systemd-run'' # (''--unit='' @ u) # (''--description='' @ d) # cmd) w = (Ret (), w') \<Longrightarrow> list_all printable d \<Longrightarrow>
      u \<notin> fst ` set (units w) \<and> (\<exists>us vs. units w = us @ vs \<and> units w' = us @ (u, d) # vs)"
    and show_law: "c_Output C showArgs w = (Ret out, w') \<Longrightarrow>
      units w' = units w \<and> out = showText (map snd (filter (isForwardUnit \<circ> fst) (units w)))"

text \<open>The forwards among the units: every one is as \<open>forward add\<close> makes it.\<close>

definition forwardsAre :: "(string \<times> string) list \<Rightarrow> ForwardSetting list \<Rightarrow> bool" where
  "forwardsAre us fs \<longleftrightarrow>
     filter (isForwardUnit \<circ> fst) us = map (\<lambda>f. (unitName (fw_LocalPort f), marshalForward f)) fs \<and>
     distinct (map fw_LocalPort fs) \<and> (\<forall>f \<in> set fs. forward_ok f \<and> length (marshalForward f) < maxToken)"

lemma isForwardUnit_unitName: "isForwardUnit (unitName p)"
  by (simp add: isForwardUnit_def unitName_def)

lemma go_Atoi_range: "go_Atoi s = Ret i \<Longrightarrow> - (2 ^ 63) \<le> i \<and> i < 2 ^ 63"
  by (auto simp: go_Atoi_def Let_def split: if_splits)

lemma newForward_ok: "newForward a b = Ret f \<Longrightarrow> forward_ok f"
  by (auto simp: newForward_def bindR_eq_Ret Let_def forward_ok_def dest: go_Atoi_range split: if_splits)

context systemd
begin

lemma add_step:
  assumes fs: "forwardsAre (units w) fs" and add: "forwardAdd C args w = (Ret (), w')"
    and short: "\<And>f. newForward (args ! 0) (args ! 1) = Ret f \<Longrightarrow> length (marshalForward f) < maxToken"
  shows "\<exists>f us vs. newForward (args ! 0) (args ! 1) = Ret f \<and> fs = us @ vs \<and> forwardsAre (units w') (us @ f # vs)"
proof -
  obtain f where f: "newForward (args ! 0) (args ! 1) = Ret f"
    "c_Run C (''systemd-run'' # (''--unit='' @ unitName (fw_LocalPort f)) # (''--description='' @ marshalForward f) # forwardCommand f) w = (Ret (), w')"
    using add by (auto simp: forwardAdd_def bindA_eq_Ret act_defs split: if_splits)
  obtain us vs where u: "unitName (fw_LocalPort f) \<notin> fst ` set (units w)" "units w = us @ vs"
    "units w' = us @ (unitName (fw_LocalPort f), marshalForward f) # vs"
    using run_law [OF f(2) marshal_printable(1)] by blast
  let ?u = "\<lambda>f. (unitName (fw_LocalPort f), marshalForward f)"
  have "filter (isForwardUnit \<circ> fst) us @ filter (isForwardUnit \<circ> fst) vs = map ?u fs" using fs u(2) by (simp add: forwardsAre_def)
  then obtain fu fv where v: "fs = fu @ fv" "filter (isForwardUnit \<circ> fst) us = map ?u fu" "filter (isForwardUnit \<circ> fst) vs = map ?u fv"
    by (auto simp: append_eq_map_conv)
  have "?u g \<in> set (units w)" if "g \<in> set fs" for g
  proof -
    have "?u g \<in> set (filter (isForwardUnit \<circ> fst) (units w))" using fs that unfolding forwardsAre_def by simp
    then show ?thesis by simp
  qed
  then have "fw_LocalPort f \<notin> fw_LocalPort ` set fs" using u(1) by force
  then have "forwardsAre (units w') (fu @ f # fv)"
    using fs v u(3) newForward_ok [OF f(1)] short [OF f(1)] by (auto simp: forwardsAre_def isForwardUnit_unitName)
  then show ?thesis using f(1) v(1) by blast
qed

lemma list_step:
  assumes fs: "forwardsAre (units w) fs" and out: "c_Output C showArgs w = (Ret out, w')"
  shows "forwardList C asJSON w = (Ret (printForwards asJSON (map validForward fs)), w') \<and> units w' = units w"
proof -
  have o: "units w' = units w" "out = showText (map marshalForward fs)"
    using show_law [OF out] fs by (simp_all add: forwardsAre_def comp_def)
  have "CHR 0x0A \<notin> set (marshalForward f) \<and> dropCR (marshalForward f) = marshalForward f" for f
    using marshal_printable [of f] by (auto simp: list_all_iff within_def dropCR_def)
  then have "scanLines out = blanks (map marshalForward fs)"
    unfolding o(2) using fs by (intro scan_showText) (auto simp: forwardsAre_def)
  then have "readForwards (scanLines out) = Ret (map validForward fs)"
    using read_blanks [of fs] fs by (simp add: forwardsAre_def)
  then show ?thesis using out o(1) by (simp add: forwardList_def bindA_Ret act_defs)
qed

end

text \<open>Arguments that are not a setting, and ports that are no numbers, run no command.\<close>

lemma forwardAdd_refused: "newForward a b = Fail e \<Longrightarrow> forwardAdd C [a, b] w = (Fail e, w)"
  by (simp add: forwardAdd_def bindA_def act_defs)

lemma forwardDelete_refused: "go_Atoi a = Fail e \<Longrightarrow> forwardDelete F C [a] w = (Fail e, w)"
  by (simp add: forwardDelete_def bindA_def act_defs)

subsection \<open>An executable systemd\<close>

definition refSystemd :: "(string \<times> string) list commands" where
  "refSystemd =
     \<lparr>c_Run = (\<lambda>argv w.
        case argv of
          a # u # d # cmd \<Rightarrow>
            if a \<noteq> ''systemd-run'' \<or> take 7 u \<noteq> ''--unit='' \<or> take 14 d \<noteq> ''--description='' then (Fail (ErrNew ''exit status 1''), w)
            else if drop 7 u \<in> fst ` set w then (Fail (ErrNew ''exit status 1''), w)
            else (Ret (), w @ [(drop 7 u, drop 14 d)])
        | _ \<Rightarrow> (Fail (ErrNew ''exit status 1''), w)),
      c_Output = (\<lambda>argv w.
        if argv = showArgs then (Ret (showText (map snd (filter (isForwardUnit \<circ> fst) w))), w) else (Fail (ErrNew ''exit status 1''), w)),
      c_Start = (\<lambda>argv. failA (ErrNew ''exit status 1''))\<rparr>"

interpretation rsd: systemd refSystemd "\<lambda>w. w"
  by unfold_locales (auto simp: refSystemd_def split: if_splits)

subsection \<open>Properties\<close>


text \<open>A host name with a quotation mark and a character of HTML.\<close>

definition exampleForward :: ForwardSetting where
  "exampleForward = \<lparr>fw_LocalPort = 30000, fw_PodName = ''pod'', fw_RemoteHost = [CHR 0x22, CHR ''&''], fw_RemotePort = 80\<rparr>"

lemma exampleForward_args: "newForward ''30000'' (''pod:'' @ [CHR 0x22, CHR ''&''] @ '':80'') = Ret exampleForward"
  by (simp add: newForward_def go_Atoi_def digits_value_def exampleForward_def Let_def)


end
