(* ===== verification/Pmctl.thy ===== *)
theory Pmctl
  imports Forward Api "HOL-Library.List_Lexorder" "HOL-Library.Char_ord"
begin

text \<open>
  The node commands of the client \<open>pmctl2\<close>, \<open>v2/cmd/pmctl2/cmd\<close>, and how they meet the API server:
  requests, the JSON of a node's status on both sides, and the locale \<open>api_transport\<close> for
  the HTTP connection between them. The client library is a parameter over an abstract type of
  requests; the result of a command is what it prints.
\<close>

subsection \<open>Requests\<close>

record clientResponse =
  cr_StatusCode :: nat
  cr_Status :: string
  cr_Body :: string

record ('w, 'u) httpClient =
  hc_NewRequest :: "string \<Rightarrow> string \<Rightarrow> 'u res"
  hc_SetQuery :: "(string \<times> string) list \<Rightarrow> 'u \<Rightarrow> 'u"
  hc_Do :: "'u \<Rightarrow> ('w, clientResponse) act"
  hc_CloseBody :: "clientResponse \<Rightarrow> ('w, unit) act"

text \<open>The error of \<open>http.NewRequest\<close> is dropped; a request that was not made is nil and its \<open>URL\<close> is asked for.\<close>

definition newRequest :: "('w, 'u) httpClient \<Rightarrow> string \<Rightarrow> string \<Rightarrow> (string \<times> string) list \<Rightarrow> ('w, 'u) act" where
  "newRequest K method url params =
     (case hc_NewRequest K method url of Ret req \<Rightarrow> retA (hc_SetQuery K params req) | _ \<Rightarrow> panicA nilDeref)"

text \<open>
  \<open>json.Decoder\<close> reads one value and leaves what follows. How the value is stored is the
  argument \<open>dec\<close>.
\<close>

definition decodeBody :: "string \<Rightarrow> (json \<Rightarrow> 'a res) \<Rightarrow> 'a res" where
  "decodeBody text dec =
     (case p_val text of
        Some (j, _) \<Rightarrow> dec j
      | None \<Rightarrow> if skip_ws text = [] then Fail EOF else Fail (ErrNew ''invalid JSON''))"

definition getJSON :: "('w, 'u) httpClient \<Rightarrow> string \<Rightarrow> string \<Rightarrow> (string \<times> string) list \<Rightarrow> (json \<Rightarrow> 'a res) \<Rightarrow> ('w, 'a) act" where
  "getJSON K endpoint p params dec =
     bindA (newRequest K ''GET'' (endpoint @ p) params) (\<lambda>req.
     bindA (hc_Do K req) (\<lambda>resp.
     deferA (if cr_StatusCode resp \<noteq> 200 then failA (ErrNew (cr_Status resp)) else liftA (decodeBody (cr_Body resp) dec))
       (hc_CloseBody K resp)))"

definition postAction :: "('w, 'u) httpClient \<Rightarrow> string \<Rightarrow> string \<Rightarrow> (string \<times> string) list \<Rightarrow> ('w, unit) act" where
  "postAction K endpoint p params =
     bindA (newRequest K ''POST'' (endpoint @ p) params) (\<lambda>req.
     bindA (hc_Do K req) (\<lambda>resp.
     if cr_StatusCode resp \<noteq> 200 then failA (ErrNew (cr_Status resp)) else retA ()))"

subsection \<open>The JSON of a status\<close>

text \<open>
  The struct as the client decodes it: any text may stand for the power status, and a map or a
  slice that no text has set is nil, which is encoded as \<open>null\<close>.
\<close>

record statusDoc =
  sd_Name :: string
  sd_Taps :: "(string \<rightharpoonup> string) option"
  sd_Volumes :: "string list option"
  sd_CPU :: int
  sd_Memory :: string
  sd_UEFI :: bool
  sd_TPM :: bool
  sd_SMBIOS :: SMBIOSStatus
  sd_PowerStatus :: string
  sd_SocketPath :: string

text \<open>\<open>encoding/json\<close> writes the keys of a map in order.\<close>

definition mapJSON :: "(string \<rightharpoonup> string) \<Rightarrow> json" where
  "mapJSON m = JObj (map (\<lambda>k. (k, JStr (case m k of None \<Rightarrow> '''' | Some v \<Rightarrow> v))) (sorted_list_of_set (dom m)))"

definition smbiosJSON :: "SMBIOSStatus \<Rightarrow> json" where
  "smbiosJSON s = JObj [(''manufacturer'', JStr (ss_Manufacturer s)), (''product'', JStr (ss_Product s)), (''serial'', JStr (ss_Serial s))]"

definition docJSON :: "statusDoc \<Rightarrow> json" where
  "docJSON d =
     JObj [(''name'', JStr (sd_Name d)), (''taps'', case sd_Taps d of None \<Rightarrow> JNull | Some m \<Rightarrow> mapJSON m),
       (''volumes'', case sd_Volumes d of None \<Rightarrow> JNull | Some vs \<Rightarrow> JArr (map JStr vs)), (''cpu'', JNum (fmt_int (sd_CPU d))),
       (''memory'', JStr (sd_Memory d)), (''uefi'', JBool (sd_UEFI d)), (''tpm'', JBool (sd_TPM d)), (''smbios'', smbiosJSON (sd_SMBIOS d)),
       (''power_status'', JStr (sd_PowerStatus d)), (''socket_path'', JStr (sd_SocketPath d))]"

text \<open>The status that the server has computed, as a document.\<close>

definition docOf :: "NodeStatus \<Rightarrow> statusDoc" where
  "docOf st =
     \<lparr>sd_Name = ns_Name st, sd_Taps = Some (ns_Taps st), sd_Volumes = Some (ns_Volumes st), sd_CPU = ns_CPU st, sd_Memory = ns_Memory st,
      sd_UEFI = ns_UEFI st, sd_TPM = ns_TPM st, sd_SMBIOS = ns_SMBIOS st, sd_PowerStatus = power_string (ns_PowerStatus st),
      sd_SocketPath = ns_SocketPath st\<rparr>"

text \<open>
  Decoding, with whether every value so far had the type of its field; when one had not, the
  command ends with an error and the decoded value is dropped.
\<close>

definition set_bool :: "json \<Rightarrow> bool \<times> bool \<Rightarrow> bool \<times> bool" where
  "set_bool v x = (case v of JBool b \<Rightarrow> (b, snd x) | JNull \<Rightarrow> x | _ \<Rightarrow> (fst x, False))"

definition set_smbios :: "json \<Rightarrow> SMBIOSStatus \<times> bool \<Rightarrow> SMBIOSStatus \<times> bool" where
  "set_smbios v x =
     (case v of
        JObj kvs \<Rightarrow>
          fold (\<lambda>(k, v) (s, ok).
            if field ''manufacturer'' k then (let (t, ok') = set_string v (ss_Manufacturer s, ok) in (s\<lparr>ss_Manufacturer := t\<rparr>, ok'))
            else if field ''product'' k then (let (t, ok') = set_string v (ss_Product s, ok) in (s\<lparr>ss_Product := t\<rparr>, ok'))
            else if field ''serial'' k then (let (t, ok') = set_string v (ss_Serial s, ok) in (s\<lparr>ss_Serial := t\<rparr>, ok'))
            else (s, ok)) kvs x
      | JNull \<Rightarrow> x
      | _ \<Rightarrow> (fst x, False))"

fun set_tap :: "string \<times> json \<Rightarrow> (string \<rightharpoonup> string) \<times> bool \<Rightarrow> (string \<rightharpoonup> string) \<times> bool" where
  "set_tap (k, v) (m, ok) = (let (t, ok') = set_string v ('''', ok) in (m(k \<mapsto> t), ok'))"

definition set_taps :: "json \<Rightarrow> (string \<rightharpoonup> string) option \<times> bool \<Rightarrow> (string \<rightharpoonup> string) option \<times> bool" where
  "set_taps v x =
     (case v of
        JObj kvs \<Rightarrow>
          map_prod Some id (fold set_tap kvs (case fst x of None \<Rightarrow> Map.empty | Some m \<Rightarrow> m, snd x))
      | JNull \<Rightarrow> (None, snd x)
      | _ \<Rightarrow> (fst x, False))"

definition set_volumes :: "json \<Rightarrow> string list option \<times> bool \<Rightarrow> string list option \<times> bool" where
  "set_volumes v x =
     (case v of
        JArr js \<Rightarrow> (Some (map (\<lambda>j. fst (set_string j ('''', True))) js), snd x \<and> list_all (\<lambda>j. snd (set_string j ('''', True))) js)
      | JNull \<Rightarrow> (None, snd x)
      | _ \<Rightarrow> (fst x, False))"

fun set_node :: "string \<times> json \<Rightarrow> statusDoc \<times> bool \<Rightarrow> statusDoc \<times> bool" where
  "set_node (k, v) (d, ok) =
     (if field ''name'' k then (let (t, ok') = set_string v (sd_Name d, ok) in (d\<lparr>sd_Name := t\<rparr>, ok'))
      else if field ''taps'' k then (let (t, ok') = set_taps v (sd_Taps d, ok) in (d\<lparr>sd_Taps := t\<rparr>, ok'))
      else if field ''volumes'' k then (let (t, ok') = set_volumes v (sd_Volumes d, ok) in (d\<lparr>sd_Volumes := t\<rparr>, ok'))
      else if field ''cpu'' k then (let (t, ok') = set_int v (sd_CPU d, ok) in (d\<lparr>sd_CPU := t\<rparr>, ok'))
      else if field ''memory'' k then (let (t, ok') = set_string v (sd_Memory d, ok) in (d\<lparr>sd_Memory := t\<rparr>, ok'))
      else if field ''uefi'' k then (let (t, ok') = set_bool v (sd_UEFI d, ok) in (d\<lparr>sd_UEFI := t\<rparr>, ok'))
      else if field ''tpm'' k then (let (t, ok') = set_bool v (sd_TPM d, ok) in (d\<lparr>sd_TPM := t\<rparr>, ok'))
      else if field ''smbios'' k then (let (t, ok') = set_smbios v (sd_SMBIOS d, ok) in (d\<lparr>sd_SMBIOS := t\<rparr>, ok'))
      else if field ''power_status'' k then (let (t, ok') = set_string v (sd_PowerStatus d, ok) in (d\<lparr>sd_PowerStatus := t\<rparr>, ok'))
      else if field ''socket_path'' k then (let (t, ok') = set_string v (sd_SocketPath d, ok) in (d\<lparr>sd_SocketPath := t\<rparr>, ok'))
      else (d, ok))"

definition emptyDoc :: statusDoc where
  "emptyDoc =
     \<lparr>sd_Name = '''', sd_Taps = None, sd_Volumes = None, sd_CPU = 0, sd_Memory = '''', sd_UEFI = False, sd_TPM = False,
      sd_SMBIOS = \<lparr>ss_Manufacturer = '''', ss_Product = '''', ss_Serial = ''''\<rparr>, sd_PowerStatus = '''', sd_SocketPath = ''''\<rparr>"

definition decodeStatus :: "json \<Rightarrow> statusDoc res" where
  "decodeStatus j =
     (case j of
        JObj kvs \<Rightarrow> (let (d, ok) = fold set_node kvs (emptyDoc, True)
          in if ok then Ret d else Fail (ErrNew ''json: cannot unmarshal into Go value''))
      | JNull \<Rightarrow> Ret emptyDoc
      | _ \<Rightarrow> Fail (ErrNew ''json: cannot unmarshal into Go value''))"

fun decodeEach :: "json list \<Rightarrow> statusDoc list res" where
  "decodeEach [] = Ret []"
| "decodeEach (j # js) = bindR (decodeStatus j) (\<lambda>d. bindR (decodeEach js) (\<lambda>ds. Ret (d # ds)))"

definition decodeStatuses :: "json \<Rightarrow> statusDoc list option res" where
  "decodeStatuses j =
     (case j of
        JArr js \<Rightarrow> bindR (decodeEach js) (\<lambda>ds. Ret (Some ds))
      | JNull \<Rightarrow> Ret None
      | _ \<Rightarrow> Fail (ErrNew ''json: cannot unmarshal into Go value''))"

subsection \<open>Commands\<close>

definition nodeAction_valid :: "string \<Rightarrow> unit res" where
  "nodeAction_valid n =
     (if n \<in> {''start'', ''stop'', ''restart''} then Ret ()
      else Fail (ErrNew (''invalid node action: '' @ n @ '': valid actions are [start|stop|restart]'')))"

definition nodeAction :: "('w, 'u) httpClient \<Rightarrow> string \<Rightarrow> string list \<Rightarrow> ('w, unit) act" where
  "nodeAction K endpoint args =
     (if length args = 0 then failA (ErrNew ''action name not specified'')
      else if length args = 1 then failA (ErrNew ''node name not specified'')
      else if length args > 2 then failA (ErrNew ''too many arguments'')
      else
        (let action = args ! 0; node = args ! 1
         in bindA (liftA (nodeAction_valid action)) (\<lambda>_. postAction K endpoint (''/nodes/'' @ node @ ''/'' @ action) [])))"

definition nodeList :: "('w, 'u) httpClient \<Rightarrow> string \<Rightarrow> bool \<Rightarrow> ('w, string) act" where
  "nodeList K endpoint asJSON =
     bindA (getJSON K endpoint ''/nodes'' [] decodeStatuses) (\<lambda>status.
     retA (if asJSON then print_json (case status of None \<Rightarrow> JNull | Some ds \<Rightarrow> JArr (map docJSON ds)) @ [CHR 0x0A]
           else concat (map (\<lambda>d. sd_Name d @ [CHR 0x0A]) (case status of None \<Rightarrow> [] | Some ds \<Rightarrow> ds))))"

definition nodeShow :: "('w, 'u) httpClient \<Rightarrow> string \<Rightarrow> string list \<Rightarrow> ('w, string) act" where
  "nodeShow K endpoint args =
     (if length args = 0 then failA (ErrNew ''node name not specified'')
      else if length args > 1 then failA (ErrNew ''too many arguments'')
      else
        bindA (getJSON K endpoint (''/nodes/'' @ (args ! 0)) [] decodeStatus) (\<lambda>status.
        retA (print_json (docJSON status) @ [CHR 0x0A])))"

definition ptyPath :: "string \<Rightarrow> string" where
  "ptyPath host = filepath_Join [''/tmp'', ''placemat_'' @ host]"

subsection \<open>Round trip of a status\<close>

abbreviation isUtf8 :: "string \<Rightarrow> bool" where
  "isUtf8 s \<equiv> toValid s = s"

definition docValid :: "statusDoc \<Rightarrow> bool" where
  "docValid d \<longleftrightarrow> (\<forall>s \<in> {sd_Name d, sd_Memory d, sd_PowerStatus d, sd_SocketPath d, ss_Manufacturer (sd_SMBIOS d), ss_Product (sd_SMBIOS d),
       ss_Serial (sd_SMBIOS d)} \<union> (case sd_Volumes d of None \<Rightarrow> {} | Some vs \<Rightarrow> set vs). isUtf8 s) \<and>
     (\<forall>m. sd_Taps d = Some m \<longrightarrow> finite (dom m) \<and> (\<forall>k v. m k = Some v \<longrightarrow> isUtf8 k \<and> isUtf8 v)) \<and>
     - (2 ^ 63) \<le> sd_CPU d \<and> sd_CPU d < 2 ^ 63"

lemma utf8_fields:
  "isUtf8 ''name''" "isUtf8 ''taps''" "isUtf8 ''volumes''" "isUtf8 ''cpu''" "isUtf8 ''memory''" "isUtf8 ''uefi''" "isUtf8 ''tpm''"
  "isUtf8 ''smbios''" "isUtf8 ''power_status''" "isUtf8 ''socket_path''" "isUtf8 ''manufacturer''" "isUtf8 ''product''" "isUtf8 ''serial''"
  by (simp_all add: runeSize_def within_def)

lemma mapJSON_valid:
  assumes "finite (dom m)" "\<And>k v. m k = Some v \<Longrightarrow> isUtf8 k \<and> isUtf8 v"
  shows "validJson (mapJSON m) = mapJSON m" "nums_ok (mapJSON m)"
proof -
  have "isUtf8 k \<and> isUtf8 (case m k of None \<Rightarrow> '''' | Some v \<Rightarrow> v)" if "k \<in> dom m" for k
    using that assms(2) by (auto split: option.split)
  then show "validJson (mapJSON m) = mapJSON m" using assms(1) by (auto simp: mapJSON_def)
qed (simp add: mapJSON_def)

lemma docJSON_valid:
  assumes "docValid d"
  shows "validJson (docJSON d) = docJSON d" "nums_ok (docJSON d)"
proof -
  have m: "validJson (case sd_Taps d of None \<Rightarrow> JNull | Some m \<Rightarrow> mapJSON m) = (case sd_Taps d of None \<Rightarrow> JNull | Some m \<Rightarrow> mapJSON m)"
    "nums_ok (case sd_Taps d of None \<Rightarrow> JNull | Some m \<Rightarrow> mapJSON m)"
    using assms mapJSON_valid by (auto simp: docValid_def split: option.split)
  have v: "validJson (case sd_Volumes d of None \<Rightarrow> JNull | Some vs \<Rightarrow> JArr (map JStr vs)) = (case sd_Volumes d of None \<Rightarrow> JNull | Some vs \<Rightarrow> JArr (map JStr vs))"
    "nums_ok (case sd_Volumes d of None \<Rightarrow> JNull | Some vs \<Rightarrow> JArr (map JStr vs))"
    using assms by (auto simp: docValid_def split: option.split)
  show "validJson (docJSON d) = docJSON d" "nums_ok (docJSON d)"
    using assms m v by (simp_all add: docJSON_def docValid_def smbiosJSON_def utf8_fields p_num_fmt_int del: toValid.simps)
qed

lemma fold_set_tap:
  "fold set_tap (map (\<lambda>k. (k, JStr (f k))) ks) (m, ok) = (\<lambda>k. if k \<in> set ks then Some (f k) else m k, ok)"
  by (induction ks arbitrary: m) (auto simp: set_string_def fun_eq_iff)

lemma set_taps_mapJSON: "finite (dom m) \<Longrightarrow> set_taps (mapJSON m) (None, ok) = (Some m, ok)"
  by (auto simp: set_taps_def mapJSON_def fold_set_tap fun_eq_iff domIff split: option.split)

lemma set_volumes_JArr: "set_volumes (JArr (map JStr vs)) (x, ok) = (Some vs, ok)"
  by (simp add: set_volumes_def set_string_def comp_def list_all_iff)

lemma set_smbios_JSON: "set_smbios (smbiosJSON s) (s0, ok) = (s, ok)"
  by (simp add: set_smbios_def smbiosJSON_def set_string_def field_def)

lemma decode_docJSON:
  assumes "docValid d"
  shows "decodeStatus (docJSON d) = Ret d"
proof -
  have t: "set_taps (case sd_Taps d of None \<Rightarrow> JNull | Some m \<Rightarrow> mapJSON m) (None, True) = (sd_Taps d, True)"
    using assms by (auto simp: docValid_def set_taps_mapJSON split: option.split) (simp add: set_taps_def)
  have v: "set_volumes (case sd_Volumes d of None \<Rightarrow> JNull | Some vs \<Rightarrow> JArr (map JStr vs)) (None, True) = (sd_Volumes d, True)"
    by (auto simp: set_volumes_JArr split: option.split) (simp add: set_volumes_def)
  have i: "set_int (JNum (fmt_int (sd_CPU d))) (0, True) = (sd_CPU d, True)"
    using assms by (simp add: set_int_def docValid_def Atoi_fmt_int)
  show ?thesis
    by (simp add: decodeStatus_def docJSON_def emptyDoc_def field_def t v i set_smbios_JSON set_string_def set_bool_def Let_def)
qed

lemma decodeEach_docs: "\<forall>d \<in> set ds. docValid d \<Longrightarrow> decodeEach (map docJSON ds) = Ret ds"
  by (induction ds) (simp_all add: decode_docJSON)

text \<open>The client reads back the documents that a server writes.\<close>

lemma decodeBody_print:
  assumes "nums_ok j" "validJson j = j"
  shows "decodeBody (print_json j) dec = dec j"
proof -
  have "p_val (print_json j) = Some (j, [])"
    using print_reads_back [OF assms(1)] assms(2) unfolding reads_back_def by (metis append_Nil2 list.case(1) stops_def)
  then show ?thesis by (simp add: decodeBody_def)
qed

subsection \<open>Client and server\<close>

text \<open>What the server writes into the body of an answer.\<close>

definition bodyJSON :: "apiBody \<Rightarrow> json" where
  "bodyJSON b =
     (case b of
        NullBody \<Rightarrow> JNull
      | NodeBody st \<Rightarrow> docJSON (docOf st)
      | NodesBody sts \<Rightarrow> JArr (map (\<lambda>st. docJSON (docOf st)) sts))"

definition plainSegment :: "string \<Rightarrow> bool" where
  "plainSegment s \<longleftrightarrow> s \<noteq> [] \<and>
     list_all (\<lambda>c. within 0x30 0x39 c \<or> within 0x41 0x5A c \<or> within 0x61 0x7A c \<or> c = CHR ''-'' \<or> c = CHR ''_'') s"

text \<open>
  The connection between client and server: a request for a path of the API reaches the
  handler of its route, and the answer comes back as the server wrote it. Nothing is said of
  names that a URL would have to escape.
\<close>

definition delivers ::
  "(string \<Rightarrow> 'q qmp) \<Rightarrow> apiServer \<Rightarrow> ('q, 'u) httpClient \<Rightarrow> string \<Rightarrow> string \<Rightarrow> string \<Rightarrow> apiRoute \<Rightarrow> bool" where
  "delivers Q server K endpoint method path route \<longleftrightarrow>
     (\<exists>req. hc_NewRequest K method (endpoint @ path) = Ret req \<and>
       (\<forall>m resp m'. apiServer_prepareRouter Q server route m = (Ret resp, m') \<longrightarrow>
         (\<exists>line. hc_Do K (hc_SetQuery K [] req) m =
           (Ret \<lparr>cr_StatusCode = ar_status resp, cr_Status = line, cr_Body = print_json (bodyJSON (ar_body resp))\<rparr>, m'))))"

locale api_transport = qmp_peers Q ph
  for Q :: "string \<Rightarrow> 'q qmp" and ph :: "string \<Rightarrow> 'q \<Rightarrow> phase" +
  fixes server :: apiServer and K :: "('q, 'u) httpClient" and endpoint :: string
  assumes nodes_route: "delivers Q server K endpoint ''GET'' ''/nodes'' GetNodes"
    and node_route: "plainSegment name \<Longrightarrow> delivers Q server K endpoint ''GET'' (''/nodes/'' @ name) (GetNode name)"
    and action_route: "plainSegment name \<Longrightarrow> plainSegment action \<Longrightarrow>
      delivers Q server K endpoint ''POST'' (''/nodes/'' @ name @ ''/'' @ action) (PostNodeAction name action)"
    and close_law: "hc_CloseBody K resp m = (Ret (), m)"
begin

lemma postAction_delivered:
  assumes "delivers Q server K endpoint ''POST'' path route" "apiServer_prepareRouter Q server route m = (Ret resp, m')"
  shows "\<exists>x. postAction K endpoint path [] m = (x, m') \<and> (if ar_status resp = 200 then x = Ret () else \<exists>e. x = Fail e)"
proof -
  obtain req line where "hc_NewRequest K ''POST'' (endpoint @ path) = Ret req"
    "hc_Do K (hc_SetQuery K [] req) m =
      (Ret \<lparr>cr_StatusCode = ar_status resp, cr_Status = line, cr_Body = print_json (bodyJSON (ar_body resp))\<rparr>, m')"
    using assms unfolding delivers_def by blast
  then show ?thesis by (simp add: postAction_def newRequest_def bindA_def act_defs)
qed

lemma getJSON_delivered:
  assumes "delivers Q server K endpoint ''GET'' path route" "apiServer_prepareRouter Q server route m = (Ret \<lparr>ar_status = 200, ar_body = b\<rparr>, m')"
    "nums_ok (bodyJSON b)" "validJson (bodyJSON b) = bodyJSON b"
  shows "getJSON K endpoint path [] dec m = (dec (bodyJSON b), m')"
proof -
  obtain req line where r: "hc_NewRequest K ''GET'' (endpoint @ path) = Ret req"
    "hc_Do K (hc_SetQuery K [] req) m = (Ret \<lparr>cr_StatusCode = 200, cr_Status = line, cr_Body = print_json (bodyJSON b)\<rparr>, m')"
    using assms(1,2) unfolding delivers_def by force
  have "getJSON K endpoint path [] dec m = deferA (liftA (decodeBody (print_json (bodyJSON b)) dec)) (hc_CloseBody K
      \<lparr>cr_StatusCode = 200, cr_Status = line, cr_Body = print_json (bodyJSON b)\<rparr>) m'"
    using r by (simp add: getJSON_def newRequest_def bindA_def retA_def)
  then show ?thesis using decodeBody_print [OF assms(3,4), of dec] by (cases "dec (bodyJSON b)") (simp_all add: deferA_def close_law liftA_def)
qed

end

subsection \<open>An executable connection\<close>

definition routeOf :: "string \<Rightarrow> string \<Rightarrow> apiRoute option" where
  "routeOf method path =
     (case split_slash path of
        [r, a] \<Rightarrow> if method = ''GET'' \<and> r = [] \<and> a = ''nodes'' then Some GetNodes else None
      | [r, a, name] \<Rightarrow> if method = ''GET'' \<and> r = [] \<and> a = ''nodes'' then Some (GetNode name) else None
      | [r, a, name, action] \<Rightarrow> if method = ''POST'' \<and> r = [] \<and> a = ''nodes'' then Some (PostNodeAction name action) else None
      | _ \<Rightarrow> None)"

definition refClient :: "(string \<Rightarrow> 'q qmp) \<Rightarrow> apiServer \<Rightarrow> string \<Rightarrow> ('q, string \<times> string) httpClient" where
  "refClient Q server endpoint =
     \<lparr>hc_NewRequest = (\<lambda>method url. Ret (method, url)),
      hc_SetQuery = (\<lambda>ps req. req),
      hc_Do = (\<lambda>(method, url) m.
        case routeOf method (drop (length endpoint) url) of
          None \<Rightarrow> (Ret \<lparr>cr_StatusCode = 404, cr_Status = ''404 Not Found'', cr_Body = ''404 page not found''\<rparr>, m)
        | Some route \<Rightarrow>
            (case apiServer_prepareRouter Q server route m of
               (Ret resp, m') \<Rightarrow> (Ret \<lparr>cr_StatusCode = ar_status resp, cr_Status = fmt_d (ar_status resp), cr_Body = print_json (bodyJSON (ar_body resp))\<rparr>, m')
             | (_, m') \<Rightarrow> (Ret \<lparr>cr_StatusCode = 500, cr_Status = ''500 Internal Server Error'', cr_Body = ''''\<rparr>, m'))),
      hc_CloseBody = (\<lambda>resp. retA ())\<rparr>"

lemma plain_no_slash: "plainSegment s \<Longrightarrow> split_slash s = [s]"
  by (rule split_slash_plain) (auto simp: plainSegment_def list_all_iff within_def)

lemma routes:
  "routeOf ''GET'' ''/nodes'' = Some GetNodes"
  "plainSegment name \<Longrightarrow> routeOf ''GET'' (''/nodes/'' @ name) = Some (GetNode name)"
  "plainSegment name \<Longrightarrow> plainSegment action \<Longrightarrow> routeOf ''POST'' (''/nodes/'' @ name @ ''/'' @ action) = Some (PostNodeAction name action)"
  using split_slash_append [of "''/nodes''" name] split_slash_append [of "''/nodes''" "name @ ''/'' @ action"] split_slash_append [of name action]
  by (simp_all add: routeOf_def plain_no_slash)

lemma refClient_delivers: "routeOf method path = Some route \<Longrightarrow> delivers Q server (refClient Q server endpoint) endpoint method path route"
  by (auto simp: delivers_def refClient_def)

interpretation rapi: api_transport refPeers "\<lambda>p w. ref_phase (w p)" "newAPIServer bootCluster bootRuntime"
  "refClient refPeers (newAPIServer bootCluster bootRuntime) ''http://localhost:10808''" "''http://localhost:10808''"
  by (intro api_transport.intro rpeers.qmp_peers_axioms api_transport_axioms.intro refClient_delivers routes)
    (simp_all add: refClient_def retA_def)

subsection \<open>Properties\<close>

text \<open>
  C32. \<open>pmctl2 node action\<close> over a connection to the API: start, stop and restart of a node that
  the cluster knows succeed exactly when the table of the actions says so and take the
  machine of that node, and no other, to the state of the table. Any other action is
  refused without a request, and for a node the cluster does not know the command fails;
  both leave every machine alone.
\<close>

theorem pmctl_controls_nodes:
  assumes "api_transport Q ph (newAPIServer c rt) K endpoint" "plainSegment name"
  shows "(\<forall>spec v r. action \<in> {''start'', ''stop'', ''restart''} \<longrightarrow> cl_nodeSpecMap c name = Some spec \<longrightarrow>
      vmOf c (sb_Serial (node_SMBIOS spec)) = Some v \<longrightarrow> ph (vm_qmp v) m = Idle r \<longrightarrow>
      (\<exists>x m'. nodeAction K endpoint [action, name] m = (x, m') \<and> (if fst (action_spec action r) = 200 then x = Ret () else \<exists>e. x = Fail e) \<and>
        ph (vm_qmp v) m' = Idle (snd (action_spec action r)) \<and> (\<forall>p. p \<noteq> vm_qmp v \<longrightarrow> ph p m' = ph p m))) \<and>
    (action \<notin> {''start'', ''stop'', ''restart''} \<or> cl_nodeSpecMap c name = None \<longrightarrow> (\<exists>e. nodeAction K endpoint [action, name] m = (Fail e, m)))"
proof -
  let ?s = "newAPIServer c rt" and ?path = "''/nodes/'' @ name @ ''/'' @ action"
  note peers = api_transport.axioms(1) [OF assms(1)]
  have post: "nodeAction K endpoint [action, name] = postAction K endpoint ?path []" if "action \<in> {''start'', ''stop'', ''restart''}"
    using that by (auto simp: nodeAction_def nodeAction_valid_def)
  have route: "delivers Q ?s K endpoint ''POST'' ?path (PostNodeAction name action)" if "action \<in> {''start'', ''stop'', ''restart''}"
    using that by (intro api_transport.action_route [OF assms]) (auto simp: plainSegment_def within_def)
  show ?thesis
  proof (intro conjI allI impI)
    fix spec v r assume a: "action \<in> {''start'', ''stop'', ''restart''}" "cl_nodeSpecMap c name = Some spec"
      "vmOf c (sb_Serial (node_SMBIOS spec)) = Some v" "ph (vm_qmp v) m = Idle r"
    obtain m' where m': "apiServer_prepareRouter Q ?s (PostNodeAction name action) m =
        (Ret \<lparr>ar_status = fst (action_spec action r), ar_body = NullBody\<rparr>, m')" "qmp_peers.only ph (vm_qmp v) (snd (action_spec action r)) m m'"
      using qmp_peers.action [OF peers, of ?s name spec v m r action] a by (auto simp: apiServer_prepareRouter_def newAPIServer_def vmOfSpec_def)
    show "\<exists>x m'. nodeAction K endpoint [action, name] m = (x, m') \<and> (if fst (action_spec action r) = 200 then x = Ret () else \<exists>e. x = Fail e) \<and>
        ph (vm_qmp v) m' = Idle (snd (action_spec action r)) \<and> (\<forall>p. p \<noteq> vm_qmp v \<longrightarrow> ph p m' = ph p m)"
      using api_transport.postAction_delivered [OF assms(1) route [OF a(1)] m'(1)] post [OF a(1)] m'(2)
      by (auto simp: qmp_peers.only_def [OF peers])
  next
    assume "action \<notin> {''start'', ''stop'', ''restart''} \<or> cl_nodeSpecMap c name = None"
    then show "\<exists>e. nodeAction K endpoint [action, name] m = (Fail e, m)"
    proof (cases "action \<in> {''start'', ''stop'', ''restart''}")
      case True
      then have "apiServer_prepareRouter Q ?s (PostNodeAction name action) m = (Ret \<lparr>ar_status = 404, ar_body = NullBody\<rparr>, m)"
        using \<open>_ \<or> _\<close> by (auto simp: apiServer_prepareRouter_def handleNodeAction_def newAPIServer_def retA_def status_codes)
      from api_transport.postAction_delivered [OF assms(1) route [OF True] this] post [OF True] show ?thesis by auto
    qed (auto simp: nodeAction_def nodeAction_valid_def bindA_def act_defs)
  qed
qed

theorem pmctl_controls_nodes_witness:
  "\<exists>m'. nodeAction (refClient refPeers (newAPIServer bootCluster bootRuntime) ''http://localhost:10808'') ''http://localhost:10808''
      [''restart'', ''boot''] allRunning = (Ret (), m') \<and> ref_phase (m' ''/run/boot.qmp'') = Idle True"
proof -
  have "plainSegment ''boot''" by (simp add: plainSegment_def within_def)
  from pmctl_controls_nodes [OF rapi.api_transport_axioms this, of "''restart''" allRunning]
  show ?thesis by (auto simp: example ref_phase_def action_spec_def)
qed

lemma listed_names:
  "length specs = length xs \<Longrightarrow>
   concat (map (\<lambda>d. sd_Name d @ [CHR 0x0A]) (map2 (\<lambda>spec (n, v, r). docOf (statusOf rt spec n v r)) specs xs)) =
     concat (map (\<lambda>spec. node_Name spec @ [CHR 0x0A]) specs)"
  by (induction specs xs rule: list_induct2) (auto simp: docOf_def statusOf_def)

text \<open>
  C33. \<open>pmctl2 node list\<close> over a connection to the API prints the names of the nodes in the order
  of the specification, one on a line; with \<open>--json\<close> it prints the statuses of the nodes as the
  server computes them, with the power state of every machine. The status survives the
  encoding by the server and the decoding by the client, and no machine changes.
\<close>

theorem pmctl_lists_nodes:
  assumes "api_transport Q ph (newAPIServer c rt) K endpoint"
    "list_all2 (\<lambda>spec (n, v, r). nodeOf c (node_Name spec) = Some n \<and> vmOf c (sb_Serial (node_SMBIOS spec)) = Some v \<and>
      ph (vm_qmp v) m = Idle r) (cs_Nodes (cl_spec c)) xs"
    "ds = map2 (\<lambda>spec (n, v, r). docOf (statusOf rt spec n v r)) (cs_Nodes (cl_spec c)) xs" "\<forall>d \<in> set ds. docValid d"
  shows "\<exists>m'. (\<forall>p. ph p m' = ph p m) \<and>
    nodeList K endpoint False m = (Ret (concat (map (\<lambda>spec. node_Name spec @ [CHR 0x0A]) (cs_Nodes (cl_spec c)))), m') \<and>
    nodeList K endpoint True m = (Ret (print_json (JArr (map docJSON ds)) @ [CHR 0x0A]), m')"
proof -
  let ?sts = "map2 (\<lambda>spec (n, v, r). statusOf rt spec n v r) (cs_Nodes (cl_spec c)) xs"
  obtain m' where m': "apiServer_prepareRouter Q (newAPIServer c rt) GetNodes m = (Ret \<lparr>ar_status = 200, ar_body = NodesBody ?sts\<rparr>, m')"
    "\<forall>p. ph p m' = ph p m" using qmp_peers.nodes_listed [OF api_transport.axioms(1) [OF assms(1)] assms(2)] by blast
  have ds: "ds = map docOf ?sts" by (auto simp: assms(3))
  then have b: "bodyJSON (NodesBody ?sts) = JArr (map docJSON ds)" by (simp add: bodyJSON_def comp_def)
  have "getJSON K endpoint ''/nodes'' [] decodeStatuses m = (decodeStatuses (bodyJSON (NodesBody ?sts)), m')"
  proof (rule api_transport.getJSON_delivered [OF assms(1) api_transport.nodes_route [OF assms(1)] m'(1)])
    show "nums_ok (bodyJSON (NodesBody ?sts))" "validJson (bodyJSON (NodesBody ?sts)) = bodyJSON (NodesBody ?sts)"
      unfolding b using assms(4) docJSON_valid by simp_all
  qed
  then have "getJSON K endpoint ''/nodes'' [] decodeStatuses m = (Ret (Some ds), m')"
    unfolding b using decodeEach_docs [OF assms(4)] by (simp add: decodeStatuses_def)
  moreover have "concat (map (\<lambda>d. sd_Name d @ [CHR 0x0A]) ds) = concat (map (\<lambda>spec. node_Name spec @ [CHR 0x0A]) (cs_Nodes (cl_spec c)))"
    unfolding assms(3) by (rule listed_names [OF list_all2_lengthD [OF assms(2)]])
  ultimately show ?thesis using m'(2) by (simp add: nodeList_def bindA_def retA_def)
qed

definition bootDoc :: statusDoc where
  "bootDoc = docOf (statusOf bootRuntime bootSpec bootNode bootVM True)"

lemma bootDoc_valid: "docValid bootDoc"
proof -
  have "isUtf8 ''boot''" "isUtf8 ''2G''" "isUtf8 ''On''" "isUtf8 ''/run/boot.socket''" "isUtf8 ''s1''"
    by (simp_all add: runeSize_def within_def)
  then show ?thesis
    by (simp add: docValid_def bootDoc_def docOf_def statusOf_def bootSpec_def bootNode_def bootVM_def node_Taps_def del: toValid.simps(2))
qed

theorem pmctl_lists_nodes_witness:
  "\<exists>m'. nodeList (refClient refPeers (newAPIServer bootCluster bootRuntime) ''http://localhost:10808'') ''http://localhost:10808'' False
      allRunning = (Ret (''boot'' @ [CHR 0x0A]), m') \<and>
    nodeList (refClient refPeers (newAPIServer bootCluster bootRuntime) ''http://localhost:10808'') ''http://localhost:10808'' True
      allRunning = (Ret (print_json (JArr [docJSON bootDoc]) @ [CHR 0x0A]), m')"
proof -
  show ?thesis
    using pmctl_lists_nodes [OF rapi.api_transport_axioms, of allRunning "[(bootNode, bootVM, True)]" "[bootDoc]"] bootDoc_valid
    by (auto simp: example ref_phase_def bootDoc_def)
qed

end
