(* ===== verification/Enter.thy ===== *)
theory Enter
  imports Pmctl
begin

text \<open>
  \<open>pmctl2 node enter\<close>, \<open>v2/cmd/pmctl2/cmd/node_enter.go\<close>: three goroutines that hand over the
  socket of the serial console and the name of a pseudo terminal on unbuffered channels, and
  a context that the first error or a signal cancels. Every event is one step of one
  goroutine, or of two for a hand-over; the outcomes of calls are part of the events. The library
  \<open>well\<close> cancels the context on the first error that a goroutine returns, and \<open>Wait\<close> returns when all
  of them have returned.
\<close>

subsection \<open>State and events\<close>

definition enterArgs :: "string list \<Rightarrow> string res" where
  "enterArgs args =
     (if length args = 0 then Fail (ErrNew ''node name not specified'')
      else if length args > 1 then Fail (ErrNew ''too many arguments'')
      else Ret (args ! 0))"

datatype 'a goroutine = Runs 'a | Returned "err option"

datatype getting = Getting | OfferingSock string

datatype linking = AwaitSock | Checking string | OfferingPty string string | Bridging string string

datatype attaching = AwaitPty | Sleeping string | Attached string

record enter =
  en_get :: "getting goroutine"
  en_link :: "linking goroutine"
  en_attach :: "attaching goroutine"
  en_err :: "err option"
  en_cancelled :: bool
  en_ptyRemoved :: bool

definition enterStart :: enter where
  "enterStart =
     \<lparr>en_get = Runs Getting, en_link = Runs AwaitSock, en_attach = Runs AwaitPty, en_err = None, en_cancelled = False, en_ptyRemoved = False\<rparr>"

datatype event =
    GetReturns "err + string"
  | SockPassed
  | LinkCancelled
  | StatReturns "err option"
  | PtyPassed
  | SocatReturns "err option"
  | AttachCancelled
  | Slept
  | PicocomReturns "err option"
  | Interrupted

definition ctxCanceled :: err where "ctxCanceled = ErrNew ''context canceled''"

definition errSignaled :: err where "errSignaled = ErrNew ''signaled''"

text \<open>An error of a goroutine, or a signal, cancels the context; the first one is what \<open>Wait\<close> returns.\<close>

definition cancelWith :: "err option \<Rightarrow> enter \<Rightarrow> enter" where
  "cancelWith e s =
     (case e of
        None \<Rightarrow> s
      | Some er \<Rightarrow> s\<lparr>en_cancelled := True, en_err := (case en_err s of None \<Rightarrow> Some er | Some old \<Rightarrow> Some old)\<rparr>)"

subsection \<open>The three goroutines\<close>

text \<open>\<open>getJSON\<close>, then the hand-over of the socket.\<close>

definition getStep :: "event \<Rightarrow> enter \<Rightarrow> enter option" where
  "getStep ev s =
     (case (ev, en_get s) of
        (GetReturns (Inl e), Runs Getting) \<Rightarrow> Some (cancelWith (Some e) (s\<lparr>en_get := Returned (Some e)\<rparr>))
      | (GetReturns (Inr sock), Runs Getting) \<Rightarrow> Some (s\<lparr>en_get := Runs (OfferingSock sock)\<rparr>)
      | _ \<Rightarrow> None)"

text \<open>
  The socket or the end of the context, \<open>os.Stat\<close>, the hand-over of the terminal, \<open>socat\<close>; the
  deferred \<open>os.Remove\<close> stands before the hand-over.
\<close>

definition linkStep :: "string \<Rightarrow> event \<Rightarrow> enter \<Rightarrow> enter option" where
  "linkStep node ev s =
     (case (ev, en_link s) of
        (SockPassed, Runs AwaitSock) \<Rightarrow>
          (case en_get s of
             Runs (OfferingSock sock) \<Rightarrow> Some (s\<lparr>en_get := Returned None, en_link := Runs (Checking sock)\<rparr>)
           | _ \<Rightarrow> None)
      | (LinkCancelled, Runs AwaitSock) \<Rightarrow>
          if en_cancelled s then Some (cancelWith (Some ctxCanceled) (s\<lparr>en_link := Returned (Some ctxCanceled)\<rparr>)) else None
      | (StatReturns r, Runs (Checking sock)) \<Rightarrow>
          if (case r of None \<Rightarrow> False | Some e \<Rightarrow> IsNotExist e)
          then (let e = ErrNew (''unable to connect to '' @ [CHR 0x22] @ node @ [CHR 0x22])
                in Some (cancelWith (Some e) (s\<lparr>en_link := Returned (Some e)\<rparr>)))
          else Some (s\<lparr>en_link := Runs (OfferingPty (ptyPath node) sock)\<rparr>)
      | (SocatReturns r, Runs (Bridging pty sock)) \<Rightarrow> Some (cancelWith r (s\<lparr>en_link := Returned r, en_ptyRemoved := True\<rparr>))
      | _ \<Rightarrow> None)"

text \<open>The terminal or the end of the context, a second of sleep, \<open>picocom\<close>.\<close>

definition attachStep :: "event \<Rightarrow> enter \<Rightarrow> enter option" where
  "attachStep ev s =
     (case (ev, en_attach s) of
        (PtyPassed, Runs AwaitPty) \<Rightarrow>
          (case en_link s of
             Runs (OfferingPty pty sock) \<Rightarrow> Some (s\<lparr>en_link := Runs (Bridging pty sock), en_attach := Runs (Sleeping pty)\<rparr>)
           | _ \<Rightarrow> None)
      | (AttachCancelled, Runs AwaitPty) \<Rightarrow>
          if en_cancelled s then Some (cancelWith (Some ctxCanceled) (s\<lparr>en_attach := Returned (Some ctxCanceled)\<rparr>)) else None
      | (Slept, Runs (Sleeping pty)) \<Rightarrow> Some (s\<lparr>en_attach := Runs (Attached pty)\<rparr>)
      | (PicocomReturns r, Runs (Attached pty)) \<Rightarrow>
          (let e = (case r of None \<Rightarrow> ctxCanceled | Some e \<Rightarrow> e) in Some (cancelWith (Some e) (s\<lparr>en_attach := Returned (Some e)\<rparr>)))
      | _ \<Rightarrow> None)"

definition enterStep :: "string \<Rightarrow> event \<Rightarrow> enter \<Rightarrow> enter option" where
  "enterStep node ev s =
     (if ev = Interrupted then Some (cancelWith (Some errSignaled) s)
      else case getStep ev s of
        Some s' \<Rightarrow> Some s'
      | None \<Rightarrow> (case linkStep node ev s of Some s' \<Rightarrow> Some s' | None \<Rightarrow> attachStep ev s))"

fun enterRun :: "string \<Rightarrow> event list \<Rightarrow> enter \<Rightarrow> enter option" where
  "enterRun node [] s = Some s"
| "enterRun node (ev # evs) s = (case enterStep node ev s of None \<Rightarrow> None | Some s' \<Rightarrow> enterRun node evs s')"

text \<open>\<open>Wait\<close> has returned.\<close>

definition allReturned :: "enter \<Rightarrow> bool" where
  "allReturned s \<longleftrightarrow> (\<exists>a b c. en_get s = Returned a \<and> en_link s = Returned b \<and> en_attach s = Returned c)"

subsection \<open>Progress\<close>

fun getLeft :: "getting goroutine \<Rightarrow> nat" where
  "getLeft (Runs Getting) = 2" | "getLeft (Runs (OfferingSock _)) = 1" | "getLeft (Returned _) = 0"

fun linkLeft :: "linking goroutine \<Rightarrow> nat" where
  "linkLeft (Runs AwaitSock) = 4" | "linkLeft (Runs (Checking _)) = 3" | "linkLeft (Runs (OfferingPty _ _)) = 2"
| "linkLeft (Runs (Bridging _ _)) = 1" | "linkLeft (Returned _) = 0"

fun attachLeft :: "attaching goroutine \<Rightarrow> nat" where
  "attachLeft (Runs AwaitPty) = 3" | "attachLeft (Runs (Sleeping _)) = 2" | "attachLeft (Runs (Attached _)) = 1" | "attachLeft (Returned _) = 0"

definition left :: "enter \<Rightarrow> nat" where
  "left s = getLeft (en_get s) + linkLeft (en_link s) + attachLeft (en_attach s)"

lemma cancelWith_sel [simp]:
  "en_get (cancelWith e s) = en_get s" "en_link (cancelWith e s) = en_link s" "en_attach (cancelWith e s) = en_attach s"
  "en_cancelled (cancelWith e s) \<longleftrightarrow> e \<noteq> None \<or> en_cancelled s" "en_ptyRemoved (cancelWith e s) = en_ptyRemoved s"
  by (auto simp: cancelWith_def split: option.split)

text \<open>
  Without a signal the context is cancelled only when nobody offers anything: who offers the
  socket or the terminal finds its receiver waiting.
\<close>

definition calm :: "enter \<Rightarrow> bool" where
  "calm s \<longleftrightarrow>
     (case en_get s of
        Runs _ \<Rightarrow> en_link s = Runs AwaitSock \<and> en_attach s = Runs AwaitPty \<and> \<not> en_cancelled s
      | Returned _ \<Rightarrow>
          (case en_link s of
             Runs AwaitSock \<Rightarrow> en_cancelled s
           | Runs (Bridging _ _) \<Rightarrow> en_attach s \<noteq> Runs AwaitPty
           | Runs _ \<Rightarrow> en_attach s = Runs AwaitPty \<and> \<not> en_cancelled s
           | Returned _ \<Rightarrow> en_attach s = Runs AwaitPty \<longrightarrow> en_cancelled s))"

lemma step_cases:
  assumes "enterStep node ev s = Some s'"
  obtains "ev = Interrupted" "s' = cancelWith (Some errSignaled) s" | "getStep ev s = Some s'" | "linkStep node ev s = Some s'" | "attachStep ev s = Some s'"
proof (cases "ev = Interrupted")
  case True
  then show ?thesis using assms that(1) by (simp add: enterStep_def)
next
  case False
  then show ?thesis using assms that(2-4) by (cases "getStep ev s"; cases "linkStep node ev s") (simp_all add: enterStep_def)
qed

lemma getStepE:
  assumes "getStep ev s = Some s'"
  obtains e where "en_get s = Runs Getting" "s' = cancelWith (Some e) (s\<lparr>en_get := Returned (Some e)\<rparr>)"
  | sock where "en_get s = Runs Getting" "s' = s\<lparr>en_get := Runs (OfferingSock sock)\<rparr>"
  using assms by (auto simp: getStep_def split: event.splits sum.splits goroutine.splits getting.splits)

lemma linkStepE:
  assumes "linkStep node ev s = Some s'"
  obtains sock where "en_link s = Runs AwaitSock" "en_get s = Runs (OfferingSock sock)" "s' = s\<lparr>en_get := Returned None, en_link := Runs (Checking sock)\<rparr>"
  | "en_link s = Runs AwaitSock" "en_cancelled s" "s' = cancelWith (Some ctxCanceled) (s\<lparr>en_link := Returned (Some ctxCanceled)\<rparr>)"
  | sock e where "en_link s = Runs (Checking sock)" "s' = cancelWith (Some e) (s\<lparr>en_link := Returned (Some e)\<rparr>)"
  | sock where "en_link s = Runs (Checking sock)" "s' = s\<lparr>en_link := Runs (OfferingPty (ptyPath node) sock)\<rparr>"
  | pty sock r where "en_link s = Runs (Bridging pty sock)" "s' = cancelWith r (s\<lparr>en_link := Returned r, en_ptyRemoved := True\<rparr>)"
proof (cases ev)
  case SockPassed
  then show ?thesis using assms that(1) by (auto simp: linkStep_def split: goroutine.splits getting.splits linking.splits)
next
  case LinkCancelled
  then show ?thesis using assms that(2) by (auto simp: linkStep_def split: goroutine.splits linking.splits if_splits)
next
  case (StatReturns r)
  then show ?thesis using assms that(3,4) by (auto simp: linkStep_def Let_def split: goroutine.splits linking.splits if_splits)
next
  case (SocatReturns r)
  then show ?thesis using assms that(5) by (auto simp: linkStep_def split: goroutine.splits linking.splits)
qed (use assms in \<open>simp_all add: linkStep_def\<close>)

lemma attachStepE:
  assumes "attachStep ev s = Some s'"
  obtains pty sock where "en_attach s = Runs AwaitPty" "en_link s = Runs (OfferingPty pty sock)"
    "s' = s\<lparr>en_link := Runs (Bridging pty sock), en_attach := Runs (Sleeping pty)\<rparr>"
  | "en_attach s = Runs AwaitPty" "en_cancelled s" "s' = cancelWith (Some ctxCanceled) (s\<lparr>en_attach := Returned (Some ctxCanceled)\<rparr>)"
  | pty where "en_attach s = Runs (Sleeping pty)" "s' = s\<lparr>en_attach := Runs (Attached pty)\<rparr>"
  | pty e where "en_attach s = Runs (Attached pty)" "s' = cancelWith (Some e) (s\<lparr>en_attach := Returned (Some e)\<rparr>)"
proof (cases ev)
  case PtyPassed
  then show ?thesis using assms that(1) by (auto simp: attachStep_def split: goroutine.splits linking.splits attaching.splits)
next
  case AttachCancelled
  then show ?thesis using assms that(2) by (auto simp: attachStep_def split: goroutine.splits attaching.splits if_splits)
next
  case Slept
  then show ?thesis using assms that(3) by (auto simp: attachStep_def split: goroutine.splits attaching.splits)
next
  case (PicocomReturns r)
  then show ?thesis using assms that(4) by (auto simp: attachStep_def Let_def split: goroutine.splits attaching.splits)
qed (use assms in \<open>simp_all add: attachStep_def\<close>)

lemma step_left:
  assumes "enterStep node ev s = Some s'" "ev \<noteq> Interrupted"
  shows "left s' < left s"
  using assms(1) by (cases rule: step_cases) (auto simp: left_def assms(2) elim!: getStepE linkStepE attachStepE)

lemma run_left: "enterRun node evs s = Some s' \<Longrightarrow> Interrupted \<notin> set evs \<Longrightarrow> length evs + left s' \<le> left s"
proof (induction evs arbitrary: s)
  case (Cons ev evs)
  then obtain s1 where "enterStep node ev s = Some s1" "enterRun node evs s1 = Some s'" by (auto split: option.splits)
  with Cons step_left [of node ev s s1] show ?case by fastforce
qed simp

lemma calm_step:
  assumes "calm s" "enterStep node ev s = Some s'" "ev \<noteq> Interrupted"
  shows "calm s'"
  using assms(2)
proof (cases rule: step_cases)
  case 2
  then show ?thesis using assms(1) by (elim getStepE) (simp_all add: calm_def)
next
  case 3
  then show ?thesis using assms(1) by (elim linkStepE) (auto simp: calm_def split: goroutine.splits)
next
  case 4
  then show ?thesis using assms(1) by (elim attachStepE) (auto simp: calm_def split: goroutine.splits linking.splits)
qed (use assms(3) in simp)

lemma calm_run: "calm s \<Longrightarrow> enterRun node evs s = Some s' \<Longrightarrow> Interrupted \<notin> set evs \<Longrightarrow> calm s'"
proof (induction evs arbitrary: s)
  case (Cons ev evs)
  then obtain s1 where "enterStep node ev s = Some s1" "enterRun node evs s1 = Some s'" by (auto split: option.splits)
  with Cons calm_step [of s node ev s1] show ?case by auto
qed simp

text \<open>A calm state in which not all have returned has a next event.\<close>

lemma calm_enabled:
  assumes "calm s" "\<not> allReturned s"
  shows "\<exists>ev s'. ev \<noteq> Interrupted \<and> enterStep node ev s = Some s'"
proof -
  have step: "\<exists>ev s'. ev \<noteq> Interrupted \<and> enterStep node ev s = Some s'"
    if "ev \<noteq> Interrupted" "getStep ev s \<noteq> None \<or> linkStep node ev s \<noteq> None \<or> attachStep ev s \<noteq> None" for ev
    using that by (intro exI [of _ ev]) (auto simp: enterStep_def split: option.split)
  show ?thesis
  proof (cases "en_get s")
    case (Runs g)
    then show ?thesis using assms(1) step [of "GetReturns (Inr '''')"] step [of SockPassed]
      by (cases g) (simp_all add: calm_def getStep_def linkStep_def)
  next
    case g: (Returned a)
    show ?thesis
    proof (cases "en_link s")
      case (Runs l)
      then show ?thesis
        using g assms(1) step [of LinkCancelled] step [of "StatReturns None"] step [of PtyPassed] step [of "SocatReturns None"]
        by (cases l) (simp_all add: calm_def linkStep_def attachStep_def)
    next
      case (Returned b)
      then obtain t where "en_attach s = Runs t" using g assms(2) by (cases "en_attach s") (auto simp: allReturned_def)
      then show ?thesis using g Returned assms(1) step [of AttachCancelled] step [of Slept] step [of "PicocomReturns None"]
        by (cases t) (simp_all add: calm_def attachStep_def)
    qed
  qed
qed

text \<open>Once \<open>socat\<close> has been started, it runs or the terminal is removed.\<close>

definition bridged :: "enter \<Rightarrow> bool" where
  "bridged s \<longleftrightarrow> en_ptyRemoved s \<or> (\<exists>pty sock. en_link s = Runs (Bridging pty sock))"

lemma bridged_step:
  assumes "enterStep node ev s = Some s'" "bridged s \<or> ev = PtyPassed"
  shows "bridged s'"
proof (cases "ev = PtyPassed")
  case True
  then have "attachStep PtyPassed s = Some s'"
    using assms(1) by (simp add: enterStep_def getStep_def linkStep_def split: goroutine.splits linking.splits)
  then show ?thesis by (auto simp: attachStep_def bridged_def split: goroutine.splits linking.splits attaching.splits)
next
  case False
  from assms(1) show ?thesis using assms(2) False
    by (cases rule: step_cases) (auto simp: bridged_def elim!: getStepE linkStepE attachStepE)
qed

lemma bridged_run: "enterRun node evs s = Some s' \<Longrightarrow> bridged s \<or> PtyPassed \<in> set evs \<Longrightarrow> bridged s'"
proof (induction evs arbitrary: s)
  case (Cons ev evs)
  then obtain s1 where "enterStep node ev s = Some s1" "enterRun node evs s1 = Some s'" by (auto split: option.splits)
  with Cons bridged_step [of node ev s s1] show ?case by auto
qed simp

lemma stranded_run:
  assumes "enterRun node evs s = Some s'" "en_get s = Runs (OfferingSock sock)" "en_link s = Returned a" "en_attach s = Returned b"
  shows "en_get s' = Runs (OfferingSock sock)"
  using assms
proof (induction evs arbitrary: s)
  case (Cons ev evs)
  then obtain s1 where 1: "enterStep node ev s = Some s1" "enterRun node evs s1 = Some s'" by (auto split: option.splits)
  from 1(1) have "en_get s1 = en_get s \<and> en_link s1 = en_link s \<and> en_attach s1 = en_attach s"
    using Cons.prems by (cases rule: step_cases) (auto elim!: getStepE linkStepE attachStepE)
  with Cons 1(2) show ?case by simp
qed simp

subsection \<open>Properties\<close>

text \<open>
  C35. Unless a signal arrives, \<open>node enter\<close> returns, whatever its calls return and in whatever
  order its goroutines run: no run has more than nine events, and one that has not returned
  can go on. Whenever it returns after \<open>socat\<close> has been started, also after a signal, the
  pseudo terminal has been removed.
\<close>

theorem enter_returns:
  assumes "enterRun node evs enterStart = Some s"
  shows "(Interrupted \<notin> set evs \<longrightarrow> length evs \<le> 9 \<and> (allReturned s \<or> (\<exists>ev s'. ev \<noteq> Interrupted \<and> enterStep node ev s = Some s'))) \<and>
    (PtyPassed \<in> set evs \<longrightarrow> allReturned s \<longrightarrow> en_ptyRemoved s)"
proof (intro conjI impI)
  assume n: "Interrupted \<notin> set evs"
  show "length evs \<le> 9" using run_left [OF assms n] by (simp add: left_def enterStart_def)
  have "calm enterStart" by (simp add: calm_def enterStart_def)
  then show "allReturned s \<or> (\<exists>ev s'. ev \<noteq> Interrupted \<and> enterStep node ev s = Some s')"
    using calm_enabled [OF calm_run [OF _ assms n]] by blast
next
  assume "PtyPassed \<in> set evs" "allReturned s"
  then show "en_ptyRemoved s" using bridged_run [OF assms] by (auto simp: bridged_def allReturned_def)
qed

definition console :: "event list" where
  "console = [GetReturns (Inr ''/run/boot.socket''), SockPassed, StatReturns None, PtyPassed, Slept, PicocomReturns None, SocatReturns None]"

theorem enter_returns_witness:
  "\<exists>s. enterRun ''boot'' console enterStart = Some s \<and> allReturned s \<and> en_ptyRemoved s"
proof -
  obtain s where s: "enterRun ''boot'' console enterStart = Some s" "allReturned s"
    by (simp add: console_def enterStart_def enterStep_def getStep_def linkStep_def attachStep_def cancelWith_def allReturned_def)
  moreover have "PtyPassed \<in> set console" by (simp add: console_def)
  ultimately show ?thesis using enter_returns [OF s(1)] by blast
qed

text \<open>
  C36. A signal at the wrong moment makes \<open>node enter\<close> hang: when the API has answered and the context
  is cancelled before the socket is handed over, both receivers return, and the first
  goroutine waits for a receiver for ever. No further event lets the command return.
\<close>

theorem interrupted_enter_hangs:
  "\<exists>s. enterRun node [GetReturns (Inr sock), Interrupted, LinkCancelled, AttachCancelled] enterStart = Some s \<and>
    (\<forall>evs s'. enterRun node evs s = Some s' \<longrightarrow> \<not> allReturned s')"
proof -
  obtain s where s: "enterRun node [GetReturns (Inr sock), Interrupted, LinkCancelled, AttachCancelled] enterStart = Some s"
    "en_get s = Runs (OfferingSock sock)" "en_link s = Returned (Some ctxCanceled)" "en_attach s = Returned (Some ctxCanceled)"
    by (simp add: enterStart_def enterStep_def getStep_def linkStep_def attachStep_def cancelWith_def)
  then show ?thesis using stranded_run [OF _ s(2-4)] by (auto simp: allReturned_def)
qed

theorem interrupted_enter_hangs_witness:
  "\<exists>s. enterRun ''boot'' [GetReturns (Inr ''/run/boot.socket''), Interrupted, LinkCancelled, AttachCancelled, Interrupted] enterStart = Some s \<and>
    \<not> allReturned s"
proof -
  obtain s where s: "enterRun ''boot'' [GetReturns (Inr ''/run/boot.socket''), Interrupted, LinkCancelled, AttachCancelled] enterStart = Some s"
    "\<forall>evs s'. enterRun ''boot'' evs s = Some s' \<longrightarrow> \<not> allReturned s'" using interrupted_enter_hangs by blast
  have i: "enterStep ''boot'' Interrupted s = Some (cancelWith (Some errSignaled) s)" by (simp add: enterStep_def)
  then have "\<not> allReturned (cancelWith (Some errSignaled) s)" using s(2) [rule_format, of "[Interrupted]"] by simp
  then show ?thesis using s(1) i by (auto split: option.splits)
qed

end
