(* ===== verification/LogWriter.thy ===== *)
theory LogWriter
  imports Ip Prelude
begin

unbundle bit_operations_syntax

text \<open>
  The writer that colours the output of subprocesses, \<open>v2/pkg/util/colored_log.go\<close>: it cuts what
  arrives into lines, keeps an unfinished line for the next call and prints every line with a
  prefix in the colour of its name. The printing of one line by package \<open>color\<close> is a
  parameter with its error.
\<close>

subsection \<open>Colours\<close>

text \<open>The 32 bit FNV-1a hash of \<open>hash/fnv\<close>.\<close>

definition fnv32a :: "string \<Rightarrow> 32 word" where
  "fnv32a s = foldl (\<lambda>h c. (h XOR of_char c) * 16777619) 2166136261 s"

datatype color = FgRed | FgGreen | FgYellow | FgBlue | FgMagenta | FgCyan

definition colors :: "color list" where
  "colors = [FgRed, FgGreen, FgYellow, FgBlue, FgMagenta, FgCyan]"

definition chooseColor :: "string \<Rightarrow> color" where
  "chooseColor data = colors ! unat (fnv32a data mod of_nat (length colors))"

subsection \<open>The writer\<close>

record coloredLogWriter =
  lw_prefix :: string
  lw_color :: color
  lw_prev :: string

definition NewColoredLogWriter :: "string \<Rightarrow> string \<Rightarrow> coloredLogWriter" where
  "NewColoredLogWriter kind name =
     \<lparr>lw_prefix = ''['' @ kind @ ''] '' @ name @ '' - '', lw_color = chooseColor name, lw_prev = ''''\<rparr>"

fun replaceCRLF :: "string \<Rightarrow> string" where
  "replaceCRLF (a # b # s) = (if a = CHR 0x0D \<and> b = CHR 0x0A then CHR 0x0A # replaceCRLF s else a # replaceCRLF (b # s))"
| "replaceCRLF s = s"

fun printLines :: "(color \<Rightarrow> string \<Rightarrow> 'w \<Rightarrow> err option \<times> 'w) \<Rightarrow> coloredLogWriter \<Rightarrow> string list \<Rightarrow> 'w \<Rightarrow> err option \<times> 'w" where
  "printLines println lw [] w = (None, w)"
| "printLines println lw (s # ss) w =
     (case println (lw_color lw) (lw_prefix lw @ s) w of
        (None, w') \<Rightarrow> printLines println lw ss w'
      | (Some e, w') \<Rightarrow> (Some e, w'))"

text \<open>The count and the error, the writer and what has been printed.\<close>

definition lw_Write ::
  "(color \<Rightarrow> string \<Rightarrow> 'w \<Rightarrow> err option \<times> 'w) \<Rightarrow> coloredLogWriter \<Rightarrow> string \<Rightarrow> 'w \<Rightarrow> (nat \<times> err option) \<times> coloredLogWriter \<times> 'w" where
  "lw_Write println lw p w =
     (let inputs = split_on CHR 0x0A (lw_prev lw @ replaceCRLF p);
          lw' = lw\<lparr>lw_prev := last inputs\<rparr>;
          (err, w') = printLines println lw' (butlast inputs) w
      in ((length p, err), lw', w'))"

text \<open>\<open>io.Copy\<close> hands on one piece of the output after the other until a call fails.\<close>

fun writeAll :: "(color \<Rightarrow> string \<Rightarrow> 'w \<Rightarrow> err option \<times> 'w) \<Rightarrow> coloredLogWriter \<Rightarrow> string list \<Rightarrow> 'w \<Rightarrow> coloredLogWriter \<times> 'w" where
  "writeAll println lw [] w = (lw, w)"
| "writeAll println lw (p # ps) w = 
     (case lw_Write println lw p w of
        ((n, None), lw', w') \<Rightarrow> writeAll println lw' ps w'
      | ((n, Some e), lw', w') \<Rightarrow> (lw', w'))"

subsection \<open>Lines\<close>

lemma split_on_ne [simp]: "split_on c s \<noteq> []"
  by (induction s) (auto split: list.splits)

lemma split_on_append:
  "split_on c (s @ t) = butlast (split_on c s) @ split_on c (last (split_on c s) @ t)"
proof (induction s)
  case (Cons a s)
  show ?case
  proof (cases "a = c")
    case True
    then show ?thesis using Cons by simp
  next
    case False
    obtain x xs where x: "split_on c s = x # xs" by (cases "split_on c s") auto
    then show ?thesis using Cons False by (cases xs) auto
  qed
qed simp

lemma split_on_last: "c \<notin> set (last (split_on c s))"
proof (induction s)
  case (Cons a s)
  then show ?case by (cases "split_on c s") (auto split: list.splits)
qed simp

lemma split_on_plain: "c \<notin> set s \<Longrightarrow> split_on c s = [s]"
  by (induction s) auto

lemma replaceCRLF_other: "a \<noteq> CHR 0x0D \<Longrightarrow> replaceCRLF (a # t) = a # replaceCRLF t"
  by (cases t) simp_all

lemma replaceCRLF_append:
  "s = [] \<or> last s \<noteq> CHR 0x0D \<Longrightarrow> replaceCRLF (s @ t) = replaceCRLF s @ replaceCRLF t"
  by (induction s rule: replaceCRLF.induct) (auto simp: replaceCRLF_other split: if_splits)

text \<open>A place that takes every line.\<close>

locale line_sink =
  fixes println :: "color \<Rightarrow> string \<Rightarrow> 'w \<Rightarrow> err option \<times> 'w" and printed :: "'w \<Rightarrow> (color \<times> string) list"
  assumes println_law: "\<exists>w'. println c l w = (None, w') \<and> printed w' = printed w @ [(c, l)]"
begin

lemma printLines_printed:
  "\<exists>w'. printLines println lw ss w = (None, w') \<and> printed w' = printed w @ map (\<lambda>s. (lw_color lw, lw_prefix lw @ s)) ss"
proof (induction ss arbitrary: w)
  case (Cons s ss)
  obtain w1 where 1: "println (lw_color lw) (lw_prefix lw @ s) w = (None, w1)" "printed w1 = printed w @ [(lw_color lw, lw_prefix lw @ s)]"
    using println_law by blast
  with Cons [of w1] show ?case by auto
qed simp

lemma writeAll_printed:
  assumes "\<forall>p \<in> set ps. p = [] \<or> last p \<noteq> CHR 0x0D" "CHR 0x0A \<notin> set (lw_prev lw)"
  shows "\<exists>w'. writeAll println lw ps w =
      (lw\<lparr>lw_prev := last (split_on CHR 0x0A (lw_prev lw @ replaceCRLF (concat ps)))\<rparr>, w') \<and>
    printed w' = printed w @ map (\<lambda>s. (lw_color lw, lw_prefix lw @ s)) (butlast (split_on CHR 0x0A (lw_prev lw @ replaceCRLF (concat ps))))"
  using assms
proof (induction ps arbitrary: lw w)
  case Nil
  then show ?case by (simp add: split_on_plain)
next
  case (Cons p ps)
  let ?x = "lw_prev lw @ replaceCRLF p"
  let ?lw = "lw\<lparr>lw_prev := last (split_on CHR 0x0A ?x)\<rparr>"
  obtain w1 where 1: "printLines println ?lw (butlast (split_on CHR 0x0A ?x)) w = (None, w1)"
    "printed w1 = printed w @ map (\<lambda>s. (lw_color lw, lw_prefix lw @ s)) (butlast (split_on CHR 0x0A ?x))"
    using printLines_printed [of ?lw] by auto
  have w: "writeAll println lw (p # ps) w = writeAll println ?lw ps w1" using 1(1) by (simp add: lw_Write_def Let_def)
  have "lw_prev lw @ replaceCRLF (concat (p # ps)) = ?x @ replaceCRLF (concat ps)" using Cons.prems(1) by (simp add: replaceCRLF_append)
  then have s: "split_on CHR 0x0A (lw_prev lw @ replaceCRLF (concat (p # ps))) =
      butlast (split_on CHR 0x0A ?x) @ split_on CHR 0x0A (lw_prev ?lw @ replaceCRLF (concat ps))"
    using split_on_append [of "CHR 0x0A" ?x "replaceCRLF (concat ps)"] by simp
  have "CHR 0x0A \<notin> set (lw_prev ?lw)" by (simp add: split_on_last)
  from Cons.IH [OF _ this, of w1] Cons.prems(1) show ?case
    unfolding w s using 1(2) by (auto simp: butlast_append)
qed

end

interpretation rsink: line_sink "\<lambda>c l w. (None, w @ [(c, l)])" "\<lambda>w. w"
  by unfold_locales simp

subsection \<open>Properties\<close>



end
