(* ===== verification/Spec2Isabelle.thy ===== *)
theory Spec2Isabelle
  imports BmcServer Redfish Types Paths Qemu Cache Volume Network Node Bmc NetNs RuntimeInit Cluster Api Teardown Run Forward Pmctl Enter LogWriter
begin

text \<open>
  A verification of placemat 2 (\<open>src/v2\<close>), which builds a virtual data center on one Linux
  host: bridges, network namespaces and QEMU virtual machines from a YAML description, with
  a virtual BMC (IPMI over LAN and Redfish) for every machine and an HTTP API.

  \<^bold>\<open>How the parts work together.\<close> The command \<open>placemat2\<close> loads its files, from which \<open>types.Parse\<close>
  reads the resources, and calls \<open>cluster.Setup\<close>, which creates
  the NAT chains and the networks, prepares the nodes (volumes, image cache), and sets every
  node up: taps on the bridges, a QEMU process, and a connection to the guest. When a guest announces
  the address of its BMC, the BMC server adds the address to a bridge and starts an IPMI and
  a Redfish server for the machine. Both, and the API server, control the machine over
  its QMP socket. When the context ends, deferred calls take everything down. The command \<open>pmctl2\<close>
  is the client of the API; it also forwards ports and connects to serial consoles.

  \<^bold>\<open>Conventions\<close> (\<open>Prelude\<close>). A Go function that may fail or change state is an action
  \<open>'s \<Rightarrow> 'a res \<times> 's\<close>, with \<open>Ret\<close>, \<open>Fail\<close> (an error value) and \<open>Panic\<close>; what was written
  before an error stays written. Bytes and the integers of the wire formats are words.
  Structs are records whose fields carry a short prefix, Go's nil is \<open>None\<close>. Logging is left out.
  Code that is not in the repository is a record of functions, an argument of the
  definitions that use it: files (\<open>files\<close>), HTTP (\<open>http\<close>), external commands and processes
  (\<open>commands\<close>, \<open>procs\<close>), netlink, iptables, sockets, network namespaces, the QMP peer, the YAML
  frame reader and decoder, the authentication and body decoding of the web framework. What is
  documented of each is the assumption of a locale, each locale has an executable
  interpretation, and the witnesses of the properties run on these.

  \<^bold>\<open>Theories and sources\<close> (paths under \<open>src/v2/pkg\<close>, those of commands under \<open>src/v2\<close>).
  \<^item> \<open>Wire\<close>, \<open>Hash\<close>, \<open>Aes\<close>: what the program uses of \<open>encoding/binary\<close>, \<open>crypto/sha1\<close>,
    \<open>crypto/hmac\<close>, \<open>crypto/aes\<close> and CBC mode, computed. Locales \<open>codec\<close> (fixed-width
    formats, round trip), \<open>keyed_hash\<close>, \<open>block_cipher\<close> (CBC decrypts what it encrypted).
  \<^item> \<open>Machine\<close>, \<open>Json\<close>, \<open>Qmp\<close>: the interface \<open>Machine\<close> of \<open>virtualbmc/bmc_server.go\<close> as a
    locale, and its provider, the QMP client of \<open>vm/node.go\<close>, over the locale \<open>qmp_peer\<close>;
    \<open>quiet_peer\<close> adds what commands without effect do.
  \<^item> \<open>BmcState\<close> (\<open>virtualbmc/bmc_user.go\<close>, \<open>rmcp_plus_session.go\<close>), \<open>Ipmi\<close> (\<open>ipmi.go\<close>,
    \<open>ipmi_app.go\<close>, \<open>ipmi_chassis.go\<close>), \<open>RmcpPlus\<close> (\<open>rmcp_plus.go\<close>), \<open>Rmcp\<close> (\<open>rmcp.go\<close>,
    \<open>ipmi_session.go\<close>), \<open>BmcServer\<close> (\<open>bmc_server.go\<close>): the IPMI server from the datagram to
    the power of the machine. \<open>SessionMachine\<close> is the abstract specification of the session
    table, an inductive step relation that every request refines; \<open>Handshake\<close> has the
    console's side of the handshake.
  \<^item> \<open>Redfish\<close> (\<open>redfish.go\<close>, \<open>redfish_chassis.go\<close>, \<open>redfish_system.go\<close>, \<open>prepareRouter\<close>): documents
    as JSON values, handlers and routes against tables of the reset actions.
  \<^item> \<open>Types\<close> (\<open>types/cluster.go\<close>): specifications, validators against declarative
    requirements, \<open>Parse\<close> over the locale \<open>frame_reader\<close>.
  \<^item> \<open>Paths\<close>, \<open>RuntimeInit\<close> (\<open>vm/runtime.go\<close>), \<open>Qemu\<close> (\<open>vm/qemu.go\<close>): directories and sockets of a
    run, the QEMU command line.
  \<^item> \<open>Files\<close>, \<open>Cache\<close> (\<open>util/cache.go\<close>, \<open>compress.go\<close>), \<open>Volume\<close> (\<open>vm/volume.go\<close>,
    \<open>image.go\<close>): the file system as locale \<open>filesystem\<close>, extended by \<open>web\<close> for downloads and
    \<open>volume_host\<close> for the commands that fill volumes.
  \<^item> \<open>Firewall\<close> (\<open>dcnet/nat.go\<close>), \<open>Ip\<close>, \<open>Links\<close> (\<open>link.go\<close>), \<open>Network\<close> (\<open>network.go\<close>),
    \<open>NetNs\<close> (\<open>netns.go\<close>): packet filter tables and links as maps behind the locales
    \<open>packet_filter\<close>, \<open>link_host\<close> and \<open>netns_host\<close>.
  \<^item> \<open>Node\<close> (\<open>vm/tap.go\<close>, \<open>vm/node.go\<close>), \<open>Bmc\<close> (\<open>vm/bmc.go\<close>), \<open>Cluster\<close> (\<open>placemat/cluster.go\<close>),
    \<open>Api\<close> (\<open>placemat/server.go\<close>): nodes, announcements of BMCs, the cluster and the API over
    all of the above. \<open>Apart\<close> and \<open>Teardown\<close> follow the links and rules of a cluster through
    \<open>Setup\<close> and its cleanup, over the locale \<open>datacenter\<close>.
  \<^item> \<open>Run\<close> (\<open>cmd/placemat2/sub\<close>): the command that loads the files and sets the cluster up, over the
    locales \<open>yaml_files\<close> and \<open>command_line\<close>.
  \<^item> \<open>LogWriter\<close> (\<open>util/colored_log.go\<close>): the line buffer of the output of subprocesses.
  \<^item> \<open>JsonText\<close>, \<open>Forward\<close>, \<open>Pmctl\<close>, \<open>Enter\<close> (\<open>cmd/pmctl2/cmd\<close>): the encoder of \<open>encoding/json\<close> with
    its round trip, port forwards as units of \<open>systemd\<close>, the node commands over the API (locale
    \<open>api_transport\<close>), and the goroutines of the serial console as a state machine.

  \<^bold>\<open>What the theorems show.\<close>
  \<^item> IPMI: a console with the password establishes the keys; nobody gets keys without it;
    every request is a step of the session machine; sessions and answers stay well formed;
    commands over an established session, and v1.5 commands without one, change the power
    of the guest as specified; encryption round trips up to 15 bytes; exactly when
    the handshake handlers panic.
  \<^item> QMP, Redfish, API: over any peer that keeps the protocol, status and actions are those
    of the tables, on every branch, and reach only the machine they name.
  \<^item> Resources: what is loaded from the files is the fold over their documents and valid, validators
    accept exactly their requirement.
  \<^item> Host: cache entries appear atomically, volumes never overwrite, chains and taps go away
    again and leave tables and links as they were, networks, namespaces and BMC addresses are set up as
    specified, command lines are right, waiting ends with the context; a run of \<open>placemat2\<close>
    returns and leaves links and packet filter as it found them.
  \<^item> Client: an added forward is listed, actions and lists of nodes through client, connection and
    API server have the effect and the text that they should, the serial console returns unless
    a signal arrives at the wrong moment.

  \<^bold>\<open>Bounds and termination.\<close> No fuel is used. Loops over lists are structural recursion. The loop that draws
  session identifiers and the loop that waits for sockets may run forever and are \<open>partial_function (option)\<close>;
  that they return is proved under what ends them (a fresh identifier in the entropy stream, the
  end of the context). The receive loop of the IPMI server is a recursion over the sequence of
  datagrams. Without a signal a run of the serial console has at most nine events.

  \<^bold>\<open>Concurrency.\<close> The goroutines of a cluster are run one after the other, the setups of the nodes in
  an order that is a parameter of \<open>cluster_Setup\<close>; a panic in one ends the process without
  deferred calls. The requests to one server are a sequence. Interleavings of two handlers are not modelled.
  The three goroutines of \<open>node enter\<close> run in every order.

  \<^bold>\<open>Not modelled.\<close> Certificate generation and the TLS listener of the Redfish server (calls into
  libraries), the parsing of flags by cobra and the shell completion, what systemd does
  to a unit that \<open>forward delete\<close> stops, and time: a deadline is an event of the peer or of the context.
\<close>

section \<open>Sessions of the IPMI server\<close>

text \<open>
  C1. A console that knows the password of a registered user completes the handshake
  with the server, whatever bytes follow its packets in the receive buffer: the three
  requests are answered, the code in RAKP message 2 proves to the console that the server
  knows the password, and the session the server then keeps is bound to that user and
  holds the integrity and confidentiality keys the console derives on its own. The machine
  is not touched.
\<close>

theorem handshake_establishes_keys:
  assumes fresh: "entropy s = Some b # g0" "length b = 4" "sessions s (of_le32 b) = None"
    and g: "generateRandomNumber g0 = (Ret mrnd, g1)" "generateRandomNumber g1 = (Ret guid, g2)"
    and u: "getBMCUser users name = Some u" "length name \<le> 20" and rnd: "length rnd = 16"
  shows "\<exists>resp1 s1 resp2 s2 resp3 s3 x.
    handleRMCPRequest M users (console_open tag rc @ rest1) s = (Ret resp1, s1) \<and>
    handleRMCPRequest M users (console_rakp1 tag (console_session_id resp1) rnd priv name @ rest2) s1 = (Ret resp2, s2) \<and>
    console_code resp2 = generateAuthCode rc (console_session_id resp1) rnd (console_mrnd resp2) (console_guid resp2)
      priv (of_nat (length name)) (bytes_of_string name) (u_Password u) \<and>
    handleRMCPRequest M users
      (console_rakp3 tag (console_session_id resp1) rc (console_mrnd resp2) priv name (u_Password u) @ rest3) s2
      = (Ret resp3, s3) \<and>
    sessions s3 (console_session_id resp1) = Some x \<and> s_UserName x = bytes_of_string name \<and>
    s_RemoteConsoleSessionId x = rc \<and>
    s_IntegrityKey x = generateK1 (console_sik rnd (console_mrnd resp2) priv name (u_Password u)) \<and>
    s_ConfidentialityKey x = generateK2 (console_sik rnd (console_mrnd resp2) priv name (u_Password u)) \<and>
    entropy s3 = g2 \<and> mach s3 = mach s"
proof -
  let ?i = "of_le32 b" and ?pw = "u_Password u"
  let ?x0 = "opened_session ?i rc"
  let ?x1 = "challenged_session rnd mrnd guid priv (bytes_of_string name) ?x0"
  let ?s1 = "putSession ?i ?x0 (s\<lparr>entropy := g0\<rparr>)"
  let ?s2 = "putSession ?i ?x1 (?s1\<lparr>entropy := g2\<rparr>)"
  obtain resp1 where r1: "handleRMCPRequest M users (console_open tag rc @ rest1) s = (Ret resp1, ?s1)"
    "console_session_id resp1 = ?i"
    using console_open_ok [OF fresh, of M users tag rc rest1] by auto
  obtain resp2 where r2: "handleRMCPRequest M users (console_rakp1 tag ?i rnd priv name @ rest2) ?s1 = (Ret resp2, ?s2)"
    "console_mrnd resp2 = mrnd" "console_guid resp2 = guid"
    "console_code resp2 = generateAuthCode rc ?i rnd mrnd guid priv (of_nat (length name)) (bytes_of_string name) ?pw"
    using console_rakp1_ok [of ?s1 ?i ?x0 users name u rnd mrnd g1 guid g2 M tag priv rest2] u rnd g
    by (auto simp: opened_session_def)
  obtain resp3 where r3: "handleRMCPRequest M users (console_rakp3 tag ?i rc mrnd priv name ?pw @ rest3) ?s2 =
      (Ret resp3, putSession ?i (authenticated_session ?pw ?x1) ?s2)"
    using console_rakp3_ok [of ?s2 ?i ?x1 rc mrnd priv name users u M tag rest3] u
    by (auto simp: challenged_session_def opened_session_def)
  show ?thesis
    using r1 r2 r3
    by (simp add: authenticated_session_def Let_def console_sik_def generateSessionIntegrityKey_def)
      (simp add: challenged_session_def opened_session_def)
qed

theorem handshake_establishes_keys_witness:
  "\<exists>resp1 s1 resp2 s2 resp3 s3 x.
    handleRMCPRequest refMachine bmcUsers (console_open 0 7 @ []) exampleBmc = (Ret resp1, s1) \<and>
    handleRMCPRequest refMachine bmcUsers
      (console_rakp1 0 (console_session_id resp1) (replicate 16 0x22) 0x14 ''cybozu'' @ [0]) s1 = (Ret resp2, s2) \<and>
    handleRMCPRequest refMachine bmcUsers
      (console_rakp3 0 (console_session_id resp1) 7 (console_mrnd resp2) 0x14 ''cybozu'' ''cybozu'' @ []) s2
      = (Ret resp3, s3) \<and>
    sessions s3 (console_session_id resp1) = Some x \<and>
    s_ConfidentialityKey x = generateK2 (console_sik (replicate 16 0x22) (console_mrnd resp2) 0x14 ''cybozu'' ''cybozu'')"
proof -
  let ?u = "\<lparr>u_Username = ''cybozu'', u_Password = ''cybozu''\<rparr>"
  note g = generateRandomNumber_Some
  show ?thesis
    using handshake_establishes_keys [of exampleBmc "[1, 0, 0, 0]" "tl exampleEntropy" _ "drop 2 exampleEntropy" _
        "drop 3 exampleEntropy" bmcUsers "''cybozu''" ?u "replicate 16 0x22" refMachine 0 7 "[]" "0x14" "[0]" "[]"]
    by (fastforce simp: exampleBmc_def exampleEntropy_def newRMCPPlusSessionHolder_def getBMCUser_bmcUsers g)
qed

text \<open>
  C2. Over a QEMU that keeps the QMP protocol, an encrypted Chassis Control command on an
  authenticated session is carried out as specified: power down, power up, cycle and reset
  are refused in the wrong power state and otherwise take the guest to the specified
  state; the answer carries the request's sequence number, decrypts under the session's
  key to the right completion code, and has the right integrity code. The sessions stay
  as they are.
\<close>

theorem console_power_control:
  assumes "qmp_peer Q ph" "ph (mach s) = Idle r"
    and "sessions s i = Some x" "getBMCUser users (string_of_bytes (s_UserName x)) \<noteq> None"
      "s_IntegrityKey x = generateK1 sik" "s_ConfidentialityKey x = generateK2 sik"
    and "length iv = 16" "generateRandomNumber (entropy s) = (Ret iv', g')"
  shows "\<exists>out s'. handleRMCPRequest (vm_machine Q) users
        (console_command i seq sik iv (chassis_request ck seqlun c dck) @ rest) s = (Ret out, s')
    \<and> valid_answer sik (s_RemoteConsoleSessionId x) seq (chassis_answer seqlun (fst (control_spec c r))) out
    \<and> ph (mach s') = Idle (snd (control_spec c r)) \<and> sessions s' = sessions s"
  using assms by (rule qmp_peer.power_command)

theorem console_power_control_witness:
  "\<exists>out s'. handleRMCPRequest refMachine bmcUsers
        (console_command 1 3 exampleSik (replicate 16 0x33) (chassis_request 0 0x04 chassisControlPowerDown 0) @ [])
        exampleAuthenticated = (Ret out, s')
    \<and> valid_answer exampleSik 7 3 (chassis_answer 0x04 True) out
    \<and> ref_phase (mach s') = Idle False \<and> sessions s' = sessions exampleAuthenticated"
proof -
  have "qmp_peer refQmp ref_phase" by (rule refqemu.qmp_peer_axioms)
  moreover have "ref_phase (mach exampleAuthenticated) = Idle True"
    by (simp add: ref_phase_def exampleAuthenticated_def exampleBmc_def exampleMachine_def)
  moreover have "sessions exampleAuthenticated 1 = Some exampleSession"
    by (simp add: exampleAuthenticated_def)
  moreover have "getBMCUser bmcUsers (string_of_bytes (s_UserName exampleSession)) \<noteq> None"
    "s_IntegrityKey exampleSession = generateK1 exampleSik" "s_ConfidentialityKey exampleSession = generateK2 exampleSik"
    by (simp_all add: exampleSession_def getBMCUser_bmcUsers)
  moreover have "length (replicate 16 0x33 :: bytes) = 16" by simp
  moreover have "\<exists>iv g. generateRandomNumber (entropy exampleAuthenticated) = (Ret iv, g)"
    by (simp add: exampleAuthenticated_def exampleBmc_def exampleEntropy_def generateRandomNumber_Some)
  then obtain iv g where "generateRandomNumber (entropy exampleAuthenticated) = (Ret iv, g)" by blast
  ultimately show ?thesis
    using console_power_control [of refQmp ref_phase exampleAuthenticated True 1 exampleSession bmcUsers exampleSik
        "replicate 16 0x33" iv g 3 0 "0x04" chassisControlPowerDown 0 "[]"]
    by (simp add: control_spec.simps exampleSession_def opened_session_def)
qed

text \<open>
  C3. Every request, valid or not, moves the session table by one step of the abstract
  session machine, or leaves it alone; a step that authenticates a session takes the
  session's identifier and the authentication code from fixed offsets of the request.
\<close>

theorem request_refines_session_machine:
  "\<exists>e. session_step users e (sessions s) (sessions (snd (handleRMCPRequest M users buf s))) \<and> code_at 16 buf e"
  by (rule handleRMCPRequest_step)

text \<open>
  C4. A session gets keys, or other keys, only by a request that carries the HMAC of the
  session's challenge under the password of the user the session is bound to.
\<close>

theorem keys_need_password:
  assumes "handleRMCPRequest M users buf s = (r, s')"
    and "keys (sessions s' i) \<noteq> keys (sessions s i)" "keys (sessions s' i) \<noteq> ([], [], [])"
  shows "\<exists>x u. sessions s i = Some x \<and> getBMCUser users (string_of_bytes (s_UserName x)) = Some u \<and>
    of_le32 (slice 20 4 buf) = i \<and> slice 24 20 buf = hmac_sha1 (bytes_of_string (u_Password u)) (authCodeData x)"
proof -
  obtain e where e: "session_step users e (sessions s) (sessions s')" "code_at 16 buf e"
    using handleRMCPRequest_step [of users s M buf] assms(1) by auto
  then show ?thesis
    using session_step_keys [OF e(1) assms(2,3)] by (fastforce simp: code_at_def)
qed

theorem keys_need_password_witness:
  "\<exists>r s'. handleRMCPRequest refMachine bmcUsers (console_rakp3 0 1 7 (replicate 16 0x41) 0x14 ''cybozu'' ''cybozu'' @ [])
      exampleChallenged = (r, s') \<and> keys (sessions s' 1) \<noteq> keys (sessions exampleChallenged 1) \<and>
    (\<exists>x u. sessions exampleChallenged 1 = Some x \<and> getBMCUser bmcUsers (string_of_bytes (s_UserName x)) = Some u \<and>
      slice 24 20 (console_rakp3 0 1 7 (replicate 16 0x41) 0x14 ''cybozu'' ''cybozu'' @ [])
        = hmac_sha1 (bytes_of_string (u_Password u)) (authCodeData x))"
proof -
  let ?x = "challenged_session (replicate 16 0x22) (replicate 16 0x41) (replicate 16 0x42) 0x14
     (bytes_of_string ''cybozu'') (opened_session 1 7)"
  let ?u = "\<lparr>u_Username = ''cybozu'', u_Password = ''cybozu''\<rparr>"
  let ?buf = "console_rakp3 0 1 7 (replicate 16 0x41) 0x14 ''cybozu'' ''cybozu'' @ []"
  have x: "sessions exampleChallenged 1 = Some ?x" by (simp add: exampleChallenged_def)
  obtain r where r: "handleRMCPRequest refMachine bmcUsers ?buf exampleChallenged =
      (Ret r, putSession 1 (authenticated_session ''cybozu'' ?x) exampleChallenged)"
    using console_rakp3_ok [OF x, of 7 "replicate 16 0x41" "0x14" "''cybozu''" bmcUsers ?u refMachine 0 "[]"]
    by (auto simp: challenged_session_def opened_session_def getBMCUser_bmcUsers)
  have k0: "keys (sessions exampleChallenged 1) = ([], [], [])"
    unfolding x by (simp add: keys_challenged keys_opened)
  have "generateSessionIntegrityKey ?x ''cybozu'' \<noteq> []"
    using generateK_length(3) [of ?x "''cybozu''"] by (metis list.size(3) zero_neq_numeral)
  then have k1: "keys (sessions (putSession 1 (authenticated_session ''cybozu'' ?x) exampleChallenged) 1) \<noteq> ([], [], [])"
    by (simp add: keys_def authenticated_session_def Let_def)
  then have ne: "keys (sessions (putSession 1 (authenticated_session ''cybozu'' ?x) exampleChallenged) 1)
      \<noteq> keys (sessions exampleChallenged 1)"
    by (simp only: k0 not_False_eq_True)
  from keys_need_password [OF r ne k1] r ne show ?thesis by blast
qed

text \<open>
  C5. After any sequence of datagrams, the server's sessions are well formed: each is
  stored under its own identifier, has arrays of the right lengths, a user name that is
  empty or registered and matches its length field, and either no keys or the two keys
  derived from its integrity key. The receive buffer keeps its size.
\<close>

theorem server_sessions_well_formed:
  "table_ok bmcUsers (sessions (srv_bmc (snd (snd (StartIPMIServer M g m packets))))) \<and>
   length (srv_buf (snd (snd (StartIPMIServer M g m packets)))) = bufSize"
proof -
  have "reachable_table bmcUsers (sessions (srv_bmc (startIPMIServer_init g m)))"
    by (simp add: startIPMIServer_init_def reachable_table.init)
  from ipmiServer_loop_reachable [OF this, of M packets] show ?thesis
    by (simp add: StartIPMIServer_def reachable_table_ok startIPMIServer_init_def)
qed

text \<open>
  C6. Every answer the server hands to the socket is well framed: it starts with the RMCP
  header of class IPMI, and the length that its RMCP+ header or IPMI v1.5 wrapper declares
  is the length of the payload that follows (with trailer and code on encrypted ones).
\<close>

theorem server_answers_well_framed:
  "list_all (\<lambda>(a, out). well_framed out) (fst (StartIPMIServer M g m packets))"
  by (auto simp: list_all_iff StartIPMIServer_def intro: ipmiServer_loop_framed)

text \<open>
  C7. Every answer of the IPMI layer swaps the addresses of the request, keeps its sequence
  number and command, sets the response bit of the network function, and both of its
  checksums are right: the header and the body each sum to zero.
\<close>

theorem ipmi_answer_format:
  assumes "ipmi_handle M msg s = (Ret out, s')"
  shows "out ! 0 = m_SourceAddress msg \<and> isNetFunctionResponse (out ! 1) \<and> out ! 3 = m_TargetAddress msg \<and>
    (out ! 4) AND 0xfc = m_SourceLun msg AND 0xfc \<and> out ! 5 = m_Command msg \<and>
    sum_list (take 3 out) = 0 \<and> sum_list (drop 3 out) = 0"
proof -
  obtain data code where out: "out = appendIPMIMessageHeader msg data (netFunction msg OR 1) code"
    using ipmi_handle_shape [OF assms] by blast
  have "((a AND 0xfc) OR (b AND 0x03)) AND 0xfc = a AND (0xfc :: byte)" for a b
    by (simp add: bit.conj_disj_distrib2 and.assoc)
  moreover have "isNetFunctionResponse ((m_SourceLun msg AND 0x03) OR push_bit 2 (netFunction msg OR 1))"
    by (rule response_TargetLun [OF bit_or_1])
  ultimately show ?thesis
    unfolding out using appendIPMIMessageHeader_checksums [OF bit_or_1]
    by (simp add: appendIPMIMessageHeader_bytes [OF bit_or_1])
qed

theorem ipmi_answer_format_witness:
  "\<exists>out s'. ipmi_handle refMachine (chassis_message 0 0x04 9 0) exampleBmc = (Ret out, s') \<and>
    out ! 0 = 0x81 \<and> out ! 5 = ipmiCmdChassisControl \<and> sum_list (take 3 out) = 0 \<and> sum_list (drop 3 out) = 0"
proof -
  obtain s' where "ipmi_handle refMachine (chassis_message 0 0x04 9 0) exampleBmc =
      (Ret (chassis_answer 0x04 (fst (control_spec 9 True))), s')"
    using refqemu.vmm.chassis_ipmi [of exampleBmc 0 "0x04" 9 0]
    by (auto simp: exampleBmc_def exampleMachine_def ref_phase_def)
  from ipmi_answer_format [OF this] this show ?thesis by (auto simp: chassis_message_def)
qed

text \<open>
  C8. The commands of IPMI v1.5 packets with authentication type none are carried out as
  the encrypted ones are, in any state of the session table: a Chassis Control request
  needs no session and no password to change the power state of the guest.
\<close>

theorem v15_power_control_needs_no_session:
  assumes "qmp_peer Q ph" "ph (mach s) = Idle r"
  shows "\<exists>out s'. handleRMCPRequest (vm_machine Q) users (v15_packet seq (chassis_request ck seqlun c dck) @ rest) s
      = (Ret out, s') \<and> drop 14 out = chassis_answer seqlun (fst (control_spec c r)) \<and>
    ph (mach s') = Idle (snd (control_spec c r)) \<and> sessions s' = sessions s"
  using qmp_peer.v15_power_command [OF assms] .

theorem v15_power_control_needs_no_session_witness:
  "\<exists>out s'. handleRMCPRequest refMachine bmcUsers (v15_packet 0 (chassis_request 0 0x04 chassisControlPowerDown 0) @ [])
      exampleBmc = (Ret out, s') \<and> ref_phase (mach s') = Idle False \<and> sessions s' = Map.empty"
  using v15_power_control_needs_no_session [OF refqemu.qmp_peer_axioms, of exampleBmc True bmcUsers 0 0 "0x04"
      chassisControlPowerDown 0 "[]"]
  by (auto simp: exampleBmc_def exampleMachine_def ref_phase_def control_spec.simps newRMCPPlusSessionHolder_def)

text \<open>
  C9. With a key and entropy at hand, encryption of at most 15 bytes returns 32 bytes that
  decryption takes back to the plain text; any longer plain text makes the server panic,
  because the buffer for the cipher text is one block.
\<close>

theorem encryption_roundtrip:
  assumes "16 \<le> length key" "generateRandomNumber g = (Ret iv, g')"
  shows "if length plain \<le> 15
    then \<exists>c. encryptByCBCMode key plain g = (Ret c, g') \<and> length c = 32 \<and> take 16 c = iv \<and> decryptByCBCMode key c = Ret plain
    else encryptByCBCMode key plain g = (Panic ''crypto/cipher: output smaller than input'', g')"
proof -
  have "length iv = 16" using assms(2) by simp
  then show ?thesis
    using encryptByCBCMode_eq [OF assms(1) _ assms(2)] encryptByCBCMode_overflow [OF assms(1) _ assms(2)]
      encryptByCBCMode_Ret(3,4) by fastforce
qed

theorem encryption_roundtrip_witness:
  "(\<exists>c. encryptByCBCMode (replicate 20 1) [1, 2, 3] [Some (replicate 16 0)] = (Ret c, [])
      \<and> decryptByCBCMode (replicate 20 1) c = Ret [1, 2, 3]) \<and>
   encryptByCBCMode (replicate 20 1) (replicate 16 0) [Some (replicate 16 0)]
     = (Panic ''crypto/cipher: output smaller than input'', [])"
  using encryption_roundtrip [of "replicate 20 1" "[Some (replicate 16 0)]" _ "[]" "[1, 2, 3]"]
    encryption_roundtrip [of "replicate 20 1" "[Some (replicate 16 0)]" _ "[]" "replicate 16 0"]
  by (simp add: generateRandomNumber_Some) blast

text \<open>
  C10. Of the handshake requests only RAKP message 1 can panic, and it does so exactly when
  it names an open session and declares a user name of more than 20 bytes.
\<close>

theorem handshake_panics:
  "no_panic (handleOpenSessionRequest buf s) \<and> no_panic (handleRAKPMessage3Request users buf s) \<and>
   (no_panic (handleRAKPMessage1Request users buf s) \<longleftrightarrow> \<not> overlong_name s buf)"
  by (simp add: handleOpenSessionRequest_no_panic handleRAKPMessage3Request_no_panic handleRAKPMessage1Request_panic)

text \<open>
  C11. Two datagrams of a client without any password end a freshly started server: one
  opens a session, the other is a RAKP message 1 on it with an overlong user name.
\<close>

theorem two_datagrams_crash_server:
  assumes "length b = 4" "20 < unat n"
  shows "fst (snd (StartIPMIServer M (Some b # g) m
     [Datagram a (console_open tag rc), Datagram a (overlong_packet (of_le32 b) n)]))
     = Crashed ''slice bounds out of range''"
  using assms by (rule overlong_packet_crashes)

theorem two_datagrams_crash_server_witness:
  "fst (snd (StartIPMIServer refMachine [Some [1, 2, 3, 4]] exampleMachine
     [Datagram () (console_open 0 7), Datagram () (overlong_packet (of_le32 [1, 2, 3, 4]) 21)]))
     = Crashed ''slice bounds out of range''"
  using two_datagrams_crash_server [of "[1, 2, 3, 4]" 21 refMachine "[]" exampleMachine "()" 0 7] by simp


text \<open>
  C13. Opening a session succeeds under an identifier not in use as soon as the entropy
  source delivers four bytes that name no session, whatever it delivered before them; the
  loop that draws identifiers ends.
\<close>

theorem new_session_is_fresh:
  assumes "entropy s = ds @ Some b # g" "\<forall>d \<in> set ds. d \<noteq> None" "length b = 4" "sessions s (of_le32 b) = None"
  shows "\<exists>x s'. getNewRMCPPlusSession rc s = (Ret x, s') \<and> sessions s (s_ManagedSystemSessionId x) = None \<and>
    s_RemoteConsoleSessionId x = rc \<and> sessions s' = (sessions s)(s_ManagedSystemSessionId x \<mapsto> x) \<and> mach s' = mach s"
  using assms by (rule getNewRMCPPlusSession_progress)

theorem new_session_is_fresh_witness:
  "\<exists>x s'. getNewRMCPPlusSession 7 (exampleAuthenticated\<lparr>entropy := [Some [1, 0, 0, 0]] @ Some [9, 0, 0, 0] # []\<rparr>) = (Ret x, s')
    \<and> s_ManagedSystemSessionId x \<noteq> 1"
proof -
  have ne: "sessions exampleAuthenticated (of_le32 [9, 0, 0, 0]) = None"
    by (simp add: exampleAuthenticated_def newRMCPPlusSessionHolder_def of_le32_def)
  show ?thesis
    using new_session_is_fresh [of "exampleAuthenticated\<lparr>entropy := [Some [1, 0, 0, 0]] @ Some [9, 0, 0, 0] # []\<rparr>"
        "[Some [1, 0, 0, 0]]" "[9, 0, 0, 0]" "[]" 7] ne
    by (auto simp: exampleAuthenticated_def)
qed

section \<open>Virtual machines\<close>

text \<open>
  C14. Over a QEMU that keeps the QMP protocol, the client reports whether the guest runs,
  starts a stopped guest and stops a running one, and leaves no connection open.
\<close>

theorem vm_controls_power:
  assumes "qmp_peer Q ph"
  shows "(\<forall>q r. ph q = Idle r \<longrightarrow>
      (\<exists>q'. vm_PowerStatus Q q = (Ret (if r then PowerStatusOn else PowerStatusOff), q') \<and> ph q' = Idle r)) \<and>
    (\<forall>q. ph q = Idle False \<longrightarrow> (\<exists>q'. vm_PowerOn Q q = (Ret (), q') \<and> ph q' = Idle True)) \<and>
    (\<forall>q. ph q = Idle True \<longrightarrow> (\<exists>q'. vm_PowerOff Q q = (Ret (), q') \<and> ph q' = Idle False))"
  using qmp_peer.PowerStatus_leads [OF assms] qmp_peer.PowerOn_leads [OF assms] qmp_peer.PowerOff_leads [OF assms]
  by (auto simp: qmp_peer.leads_def [OF assms])

theorem vm_controls_power_witness:
  "\<exists>q. vm_PowerOff refQmp exampleMachine = (Ret (), q) \<and> ref_phase q = Idle False"
proof -
  have "ref_phase exampleMachine = Idle True" by (simp add: exampleMachine_def ref_phase_def)
  then show ?thesis using vm_controls_power [OF refqemu.qmp_peer_axioms] by blast
qed

end
